(* ===== verification/Prelude.thy ===== *)
theory Prelude
  imports Main "HOL-Library.Monad_Syntax" "HOL-Library.Sublist"
begin

text \<open>
  What every component of the development shares:
  \<^item> the shape of an effectful Go function: it takes the state of the system and returns its
    result with the new state, or \<open>None\<close> when the goroutine panics (a nil dereference, a slice
    bound, a division by zero);
  \<^item> a weakest-precondition calculus for that shape, partial (\<open>wlp\<close>: panics satisfy anything)
    and total (\<open>wp\<close>: there is no panic);
  \<^item> the functions of Go's \<^verbatim>\<open>strconv\<close>, \<^verbatim>\<open>strings\<close>, \<^verbatim>\<open>cmp\<close> and \<^verbatim>\<open>fmt\<close> the source calls.
\<close>

section \<open>Effectful functions\<close>

type_synonym ('s, 'a) go = "'s \<Rightarrow> ('a \<times> 's) option"

definition wlp :: "('a \<times> 's) option \<Rightarrow> ('a \<Rightarrow> 's \<Rightarrow> bool) \<Rightarrow> bool" where
  "wlp m Q = (case m of None \<Rightarrow> True | Some (a, s) \<Rightarrow> Q a s)"

definition wp :: "('a \<times> 's) option \<Rightarrow> ('a \<Rightarrow> 's \<Rightarrow> bool) \<Rightarrow> bool" where
  "wp m Q = (case m of None \<Rightarrow> False | Some (a, s) \<Rightarrow> Q a s)"

named_theorems wlp_rules \<open>what the wlp of a call of the model is\<close>

lemma wlp_Some [simp]: "wlp (Some (a, s)) Q = Q a s"
  by (simp add: wlp_def)

lemma wlp_None [simp]: "wlp None Q"
  by (simp add: wlp_def)

lemma wlp_bind [simp]: "wlp (Option.bind m f) Q = wlp m (\<lambda>a s. wlp (f (a, s)) Q)"
  by (cases m) (auto simp: wlp_def)

lemma wlp_mono: "wlp m Q \<Longrightarrow> (\<And>a s. m = Some (a, s) \<Longrightarrow> Q a s \<Longrightarrow> R a s) \<Longrightarrow> wlp m R"
  by (auto simp: wlp_def split: option.splits)

lemma wlp_conj: "wlp m (\<lambda>a s. Q a s \<and> R a s) \<longleftrightarrow> wlp m Q \<and> wlp m R"
  by (auto simp: wlp_def split: option.splits)

lemma wlpI: "(\<And>a s. m = Some (a, s) \<Longrightarrow> Q a s) \<Longrightarrow> wlp m Q"
  by (auto simp: wlp_def split: option.splits)

lemma wlpD: "wlp m Q \<Longrightarrow> m = Some (a, s) \<Longrightarrow> Q a s"
  by (simp add: wlp_def)

lemma wlp_any: "(\<And>a s. Q a s) \<Longrightarrow> wlp m Q"
  by (rule wlpI)

lemma wp_Some [simp]: "wp (Some (a, s)) Q = Q a s"
  by (simp add: wp_def)

lemma wp_None [simp]: "\<not> wp None Q"
  by (simp add: wp_def)

lemma wp_bind [simp]: "wp (Option.bind m f) Q = wp m (\<lambda>a s. wp (f (a, s)) Q)"
  by (cases m) (auto simp: wp_def)

lemma wp_mono: "wp m Q \<Longrightarrow> (\<And>a s. m = Some (a, s) \<Longrightarrow> Q a s \<Longrightarrow> R a s) \<Longrightarrow> wp m R"
  by (auto simp: wp_def split: option.splits)

lemma wp_iff: "wp m Q \<longleftrightarrow> (\<exists>a s. m = Some (a, s) \<and> Q a s)"
  by (auto simp: wp_def split: option.splits)

lemma wlp_if: "wlp (if b then m else n) Q = (if b then wlp m Q else wlp n Q)"
  by simp

lemma wp_if: "wp (if b then m else n) Q = (if b then wp m Q else wp n Q)"
  by simp

section \<open>Strings\<close>

text \<open>\<^verbatim>\<open>cmp.Or\<close> on strings: the first operand that is not the empty string.\<close>

definition cmpOr :: "string \<Rightarrow> string \<Rightarrow> string" where
  "cmpOr a b = (if a \<noteq> '''' then a else b)"

lemma cmpOr_simps [simp]:
  "cmpOr '''' b = b"
  "a \<noteq> '''' \<Longrightarrow> cmpOr a b = a"
  by (simp_all add: cmpOr_def)

text \<open>\<^verbatim>\<open>%d\<close> and \<^verbatim>\<open>strconv.Itoa\<close>: the decimal digits of a number.\<close>

definition digit :: "nat \<Rightarrow> char" where
  "digit d = char_of (48 + d)"

fun digits :: "nat \<Rightarrow> string" where
  "digits n = (if n < 10 then [digit n] else digits (n div 10) @ [digit (n mod 10)])"

declare digits.simps [simp del]

definition itoa :: "int \<Rightarrow> string" where
  "itoa i = (if i < 0 then CHR ''-'' # digits (nat (- i)) else digits (nat i))"

text \<open>
  \<^verbatim>\<open>strconv.Atoi\<close>: an optional sign and at least one decimal digit; \<open>None\<close> is a non-nil error,
  for a syntax error or a value outside the 64 bits of a Go \<^verbatim>\<open>int\<close>.
\<close>

definition is_digit :: "char \<Rightarrow> bool" where
  "is_digit c \<longleftrightarrow> 48 \<le> (of_char c :: nat) \<and> (of_char c :: nat) \<le> 57"

fun digits_value :: "nat \<Rightarrow> string \<Rightarrow> nat" where
  "digits_value acc [] = acc"
| "digits_value acc (c # cs) = digits_value (acc * 10 + (of_char c - 48)) cs"

definition parse_digits :: "string \<Rightarrow> nat option" where
  "parse_digits s = (if s \<noteq> [] \<and> list_all is_digit s then Some (digits_value 0 s) else None)"

definition in_int64 :: "int \<Rightarrow> bool" where
  "in_int64 i \<longleftrightarrow> - (2 ^ 63) \<le> i \<and> i < 2 ^ 63"

definition Atoi :: "string \<Rightarrow> int option" where
  "Atoi s =
     (let (neg, ds) =
        (case s of
           [] \<Rightarrow> (False, [])
         | c # cs \<Rightarrow>
             if c = CHR ''-'' then (True, cs)
             else if c = CHR ''+'' then (False, cs)
             else (False, s))
      in case parse_digits ds of
           None \<Rightarrow> None
         | Some n \<Rightarrow>
             let i = (if neg then - int n else int n)
             in if in_int64 i then Some i else None)"

text \<open>\<^verbatim>\<open>strings.TrimPrefix\<close>, \<^verbatim>\<open>strings.TrimSpace\<close> (the ASCII white space), \<^verbatim>\<open>strings.Contains\<close> of
  a single character.\<close>

definition TrimPrefix :: "string \<Rightarrow> string \<Rightarrow> string" where
  "TrimPrefix s p = (if prefix p s then drop (length p) s else s)"

definition is_space :: "char \<Rightarrow> bool" where
  "is_space c \<longleftrightarrow> (of_char c :: nat) \<in> {9, 10, 11, 12, 13, 32}"

definition TrimSpace :: "string \<Rightarrow> string" where
  "TrimSpace s = rev (dropWhile is_space (rev (dropWhile is_space s)))"

text \<open>\<^verbatim>\<open>%q\<close>: the string in double quotes, with the ASCII control characters, the quote and the
  backslash escaped.\<close>

definition hex_digit :: "nat \<Rightarrow> char" where
  "hex_digit n = char_of (if n < 10 then 48 + n else 87 + n)"

definition quote_char :: "char \<Rightarrow> string" where
  "quote_char c =
     (let n = (of_char c :: nat) in
      if n = 34 \<or> n = 92 then [CHR 0x5C, c]
      else if n = 7 then [CHR 0x5C, CHR ''a'']
      else if n = 8 then [CHR 0x5C, CHR ''b'']
      else if n = 9 then [CHR 0x5C, CHR ''t'']
      else if n = 10 then [CHR 0x5C, CHR ''n'']
      else if n = 11 then [CHR 0x5C, CHR ''v'']
      else if n = 12 then [CHR 0x5C, CHR ''f'']
      else if n = 13 then [CHR 0x5C, CHR ''r'']
      else if n < 32 \<or> n = 127 then [CHR 0x5C, CHR ''x'', hex_digit (n div 16), hex_digit (n mod 16)]
      else [c])"

definition quote :: "string \<Rightarrow> string" where
  "quote s = CHR 0x22 # concat (map quote_char s) @ [CHR 0x22]"

subsection \<open>Decimal numbers round-trip\<close>

lemma of_char_digit: "d < 10 \<Longrightarrow> (of_char (digit d) :: nat) = 48 + d"
  by (simp add: digit_def)

lemma is_digit_digit: "d < 10 \<Longrightarrow> is_digit (digit d)"
  by (simp add: is_digit_def of_char_digit)

lemma digits_not_empty [simp]: "digits n \<noteq> []"
  by (subst digits.simps) simp

lemma digits_are_digits: "list_all is_digit (digits n)"
proof (induction n rule: digits.induct)
  case (1 n)
  then show ?case
    by (subst digits.simps) (auto simp: is_digit_digit)
qed

lemma digits_value_append:
  "digits_value acc (xs @ ys) = digits_value (digits_value acc xs) ys"
  by (induction xs arbitrary: acc) auto

lemma digits_value_digits: "digits_value 0 (digits n) = n"
proof (induction n rule: digits.induct)
  case (1 n)
  show ?case
  proof (cases "n < 10")
    case True
    then show ?thesis by (subst digits.simps) (simp add: of_char_digit)
  next
    case False
    with 1 have "digits_value 0 (digits (n div 10)) = n div 10" by simp
    with False show ?thesis
      by (subst digits.simps) (simp add: digits_value_append of_char_digit)
  qed
qed

lemma digits_inject [simp]: "digits m = digits n \<longleftrightarrow> m = n"
  by (metis digits_value_digits)

lemma hd_digits_is_digit: "is_digit (hd (digits n))"
  using digits_are_digits [of n] digits_not_empty [of n]
  by (cases "digits n") auto

lemma not_digit_chars:
  "\<not> is_digit (CHR ''-'')" "\<not> is_digit (CHR ''+'')" "\<not> is_digit (CHR ''/'')"
  by (simp_all add: is_digit_def)

lemma digits_no_slash: "CHR ''/'' \<notin> set (digits n)"
  using digits_are_digits [of n] not_digit_chars by (auto simp: list_all_iff)

lemma Atoi_itoa: "in_int64 i \<Longrightarrow> Atoi (itoa i) = Some i"
proof -
  assume i: "in_int64 i"
  have pd: "parse_digits (digits n) = Some n" for n
    by (simp add: parse_digits_def digits_are_digits digits_value_digits)
  show ?thesis
  proof (cases "i < 0")
    case True
    with i pd show ?thesis by (simp add: Atoi_def itoa_def)
  next
    case False
    obtain c cs where d: "digits (nat i) = c # cs"
      by (cases "digits (nat i)") auto
    have "is_digit c" using hd_digits_is_digit [of "nat i"] by (simp add: d)
    then have "c \<noteq> CHR ''-''" "c \<noteq> CHR ''+''" using not_digit_chars by auto
    with False i pd [of "nat i"] show ?thesis
      by (simp add: Atoi_def itoa_def d)
  qed
qed

lemma TrimPrefix_append [simp]: "TrimPrefix (p @ s) p = s"
  by (simp add: TrimPrefix_def)

lemma itoa_inject: "0 \<le> i \<Longrightarrow> 0 \<le> j \<Longrightarrow> itoa i = itoa j \<longleftrightarrow> i = j"
  by (auto simp: itoa_def)

lemma length_digits: "n < 10 ^ k \<Longrightarrow> 0 < k \<Longrightarrow> length (digits n) \<le> k"
proof (induction n arbitrary: k rule: digits.induct)
  case (1 n)
  show ?case
  proof (cases "n < 10")
    case True
    with 1 show ?thesis by (subst digits.simps) simp
  next
    case False
    with "1.prems"(1) have "k \<noteq> 1" by auto
    with "1.prems"(2) have "1 < k" by simp
    then obtain j where k: "k = Suc j" and j: "0 < j"
      using less_imp_Suc_add [of 1 k] by auto
    have "n div 10 < 10 ^ j"
      using "1.prems"(1) by (simp add: k less_mult_imp_div_less mult.commute)
    with 1 False j have "length (digits (n div 10)) \<le> j" by simp
    with False show ?thesis by (subst digits.simps) (simp add: k)
  qed
qed

end
