(* ===== verification/Go_Errors.thy ===== *)
theory Go_Errors
  imports Prelude
begin

text \<open>
  Go errors as values, and \<^verbatim>\<open>pkg/oxideclient/errors.go\<close>.

  An \<open>error\<close> is the tree that \<^verbatim>\<open>Unwrap\<close> exposes; a Go \<^verbatim>\<open>error\<close> that may be nil is an
  \<open>error option\<close>. The constructors are the ways the source makes errors (\<^verbatim>\<open>errors.New\<close> and
  \<^verbatim>\<open>fmt.Errorf\<close>, \<^verbatim>\<open>%w\<close>, \<^verbatim>\<open>errors.Join\<close>, the operator's own \<^verbatim>\<open>progressing\<close> and
  \<^verbatim>\<open>failed\<close> of \<^verbatim>\<open>internal/controller/oxide/helpers.go\<close>, \<^verbatim>\<open>reconcile.TerminalError\<close>) and the
  kinds of error its libraries return. An error of the Oxide SDK carries what the source can
  observe of it: the fields \<^verbatim>\<open>ShortError\<close> reads, what \<^verbatim>\<open>errors.Is\<close> answers for the two
  sentinels the source asks about, and the SDK's own text. An error of the Kubernetes API carries
  its reason and its text.
\<close>

section \<open>Error values\<close>

record api_error =
  ae_ErrorCode :: string
  ae_Message :: string
  ae_RequestId :: string

record http_error =
  he_Method :: string
  he_RequestURI :: string
  he_StatusCode :: int
  he_ErrorResponse :: "api_error option"
  he_ObjectNotFound :: bool  \<comment> \<open>\<^verbatim>\<open>errors.Is(err, oxide.ErrObjectNotFound)\<close>\<close>
  he_HTTP400 :: bool         \<comment> \<open>\<^verbatim>\<open>errors.Is(err, oxide.ErrHTTP400)\<close>\<close>
  he_Text :: string          \<comment> \<open>the SDK's own \<^verbatim>\<open>Error()\<close>\<close>

datatype error =
    Plain string
  | Progressing string
  | Failed error
  | Wrapf string error       \<comment> \<open>\<^verbatim>\<open>fmt.Errorf("...%w", err)\<close>: the text before the wrapped error\<close>
  | Joined "error list"
  | Terminal error
  | HTTPErr http_error
  | KubeErr (ke_Reason: string) (ke_Message: string)
  | IoEOF
  | IoUnexpectedEOF

text \<open>The errors of a tree in the order in which \<^verbatim>\<open>errors.Is\<close> and \<^verbatim>\<open>errors.As\<close> visit them:
  depth first, a node before what it wraps.\<close>

fun err_chain :: "error \<Rightarrow> error list" where
  "err_chain (Failed e) = Failed e # err_chain e"
| "err_chain (Wrapf p e) = Wrapf p e # err_chain e"
| "err_chain (Joined es) = Joined es # concat (map err_chain es)"
| "err_chain (Terminal e) = Terminal e # err_chain e"
| "err_chain e = [e]"

definition is_progressing :: "error \<Rightarrow> bool" where
  "is_progressing e \<longleftrightarrow> list_ex (\<lambda>x. case x of Progressing _ \<Rightarrow> True | _ \<Rightarrow> False) (err_chain e)"

definition is_failed :: "error \<Rightarrow> bool" where
  "is_failed e \<longleftrightarrow> list_ex (\<lambda>x. case x of Failed _ \<Rightarrow> True | _ \<Rightarrow> False) (err_chain e)"

definition is_object_not_found :: "error \<Rightarrow> bool" where
  "is_object_not_found e \<longleftrightarrow>
     list_ex (\<lambda>x. case x of HTTPErr h \<Rightarrow> he_ObjectNotFound h | _ \<Rightarrow> False) (err_chain e)"

definition is_http400 :: "error \<Rightarrow> bool" where
  "is_http400 e \<longleftrightarrow>
     list_ex (\<lambda>x. case x of HTTPErr h \<Rightarrow> he_HTTP400 h | _ \<Rightarrow> False) (err_chain e)"

definition is_eof :: "error \<Rightarrow> bool" where
  "is_eof e \<longleftrightarrow> IoEOF \<in> set (err_chain e)"

definition is_unexpected_eof :: "error \<Rightarrow> bool" where
  "is_unexpected_eof e \<longleftrightarrow> IoUnexpectedEOF \<in> set (err_chain e)"

text \<open>\<^verbatim>\<open>errors.As(err, &herr)\<close> with a \<^verbatim>\<open>*oxide.HTTPError\<close> target: the first one of the tree.\<close>

fun first_http :: "error list \<Rightarrow> http_error option" where
  "first_http [] = None"
| "first_http (HTTPErr h # es) = Some h"
| "first_http (_ # es) = first_http es"

definition as_http :: "error \<Rightarrow> http_error option" where
  "as_http e = first_http (err_chain e)"

text \<open>\<^verbatim>\<open>errors.Is\<close> answers false for a nil error.\<close>

definition not_found_err :: "error option \<Rightarrow> bool" where
  "not_found_err e = (case e of None \<Rightarrow> False | Some x \<Rightarrow> is_object_not_found x)"

text \<open>A question asked of an error that may be nil.\<close>

definition err_is :: "(error \<Rightarrow> bool) \<Rightarrow> error option \<Rightarrow> bool" where
  "err_is p err = (case err of None \<Rightarrow> False | Some e \<Rightarrow> p e)"

lemma err_is_simps [simp]: "\<not> err_is p None" "err_is p (Some e) = p e"
  by (simp_all add: err_is_def)

text \<open>\<^verbatim>\<open>errors.Join\<close> drops the nil errors and is nil when all are.\<close>

definition errors_Join :: "error option list \<Rightarrow> error option" where
  "errors_Join es =
     (case List.map_filter id es of [] \<Rightarrow> None | xs \<Rightarrow> Some (Joined xs))"

section \<open>The text of an error\<close>

fun join_lines :: "string list \<Rightarrow> string" where
  "join_lines [] = ''''"
| "join_lines [x] = x"
| "join_lines (x # y # xs) = x @ CHR 0x0A # join_lines (y # xs)"

fun Error :: "error \<Rightarrow> string" where
  "Error (Plain m) = m"
| "Error (Progressing m) = m"
| "Error (Failed e) = Error e"
| "Error (Wrapf p e) = p @ Error e"
| "Error (Joined es) = join_lines (map Error es)"
| "Error (Terminal e) = ''terminal error: '' @ Error e"
| "Error (HTTPErr h) = he_Text h"
| "Error (KubeErr r m) = m"
| "Error IoEOF = ''EOF''"
| "Error IoUnexpectedEOF = ''unexpected EOF''"

section \<open>ShortError\<close>

text \<open>\<^verbatim>\<open>ShortError\<close> of \<^verbatim>\<open>pkg/oxideclient/errors.go\<close>. The line it formats is an error of its
  own: the tree it came from is not wrapped.\<close>

definition short_line :: "http_error \<Rightarrow> api_error \<Rightarrow> string" where
  "short_line h api =
     he_Method h @ '' '' @ he_RequestURI h @ '': '' @ itoa (he_StatusCode h) @ '' ''
     @ ae_ErrorCode api @ '': '' @ ae_Message api @ '' (request '' @ ae_RequestId api @ '')''"

definition ShortError :: "error \<Rightarrow> error" where
  "ShortError err =
     (case as_http err of
        None \<Rightarrow> err
      | Some herr \<Rightarrow>
          (case he_ErrorResponse herr of
             None \<Rightarrow> err
           | Some api \<Rightarrow> Plain (short_line herr api)))"

subsection \<open>Facts about error trees\<close>

lemma err_chain_self [simp]: "e \<in> set (err_chain e)"
  by (cases e) auto

lemma err_chain_not_Nil [simp]: "err_chain e \<noteq> []"
  by (cases e) auto

lemma is_progressing_simps [simp]:
  "is_progressing (Progressing m)"
  "\<not> is_progressing (Plain m)"
  "is_progressing (Failed e) = is_progressing e"
  "is_progressing (Wrapf p e) = is_progressing e"
  "is_progressing (Terminal e) = is_progressing e"
  "is_progressing (Joined es) = list_ex is_progressing es"
  "\<not> is_progressing (HTTPErr h)"
  "\<not> is_progressing (KubeErr r t)"
  "\<not> is_progressing IoEOF"
  "\<not> is_progressing IoUnexpectedEOF"
  by (auto simp: is_progressing_def list_ex_iff)

lemma is_failed_simps [simp]:
  "\<not> is_failed (Progressing m)"
  "\<not> is_failed (Plain m)"
  "is_failed (Failed e)"
  "is_failed (Wrapf p e) = is_failed e"
  "is_failed (Terminal e) = is_failed e"
  "is_failed (Joined es) = list_ex is_failed es"
  "\<not> is_failed (HTTPErr h)"
  "\<not> is_failed (KubeErr r t)"
  "\<not> is_failed IoEOF"
  "\<not> is_failed IoUnexpectedEOF"
  by (auto simp: is_failed_def list_ex_iff)

lemma is_object_not_found_simps [simp]:
  "\<not> is_object_not_found (Progressing m)"
  "\<not> is_object_not_found (Plain m)"
  "is_object_not_found (Failed e) = is_object_not_found e"
  "is_object_not_found (Wrapf p e) = is_object_not_found e"
  "is_object_not_found (Terminal e) = is_object_not_found e"
  "is_object_not_found (Joined es) = list_ex is_object_not_found es"
  "is_object_not_found (HTTPErr h) = he_ObjectNotFound h"
  "\<not> is_object_not_found (KubeErr r t)"
  by (auto simp: is_object_not_found_def list_ex_iff)

lemma not_found_err_simps [simp]:
  "\<not> not_found_err None"
  "not_found_err (Some e) = is_object_not_found e"
  by (simp_all add: not_found_err_def)

lemma first_http_append:
  "first_http (xs @ ys) = (case first_http xs of None \<Rightarrow> first_http ys | Some h \<Rightarrow> Some h)"
  by (induction xs rule: first_http.induct) auto

lemma as_http_simps [simp]:
  "as_http (Plain m) = None"
  "as_http (Progressing m) = None"
  "as_http (HTTPErr h) = Some h"
  "as_http (KubeErr r t) = None"
  "as_http (Failed e) = as_http e"
  "as_http (Wrapf p e) = as_http e"
  "as_http (Terminal e) = as_http e"
  "as_http (Joined (e # es)) = (case as_http e of None \<Rightarrow> as_http (Joined es) | Some h \<Rightarrow> Some h)"
  "as_http (Joined []) = None"
  by (simp_all add: as_http_def first_http_append split: option.split)

lemma errors_Join_simps [simp]:
  "errors_Join [] = None"
  "errors_Join [None] = None"
  "errors_Join [Some e] = Some (Joined [e])"
  "errors_Join [Some e, None] = Some (Joined [e])"
  "errors_Join [Some e, Some f] = Some (Joined [e, f])"
  by (simp_all add: errors_Join_def)

text \<open>ShortError never hands out an SDK error that has a response: what is left is one line.\<close>

lemma ShortError_cases:
  "ShortError e = e \<or> (\<exists>h a. as_http e = Some h \<and> he_ErrorResponse h = Some a
     \<and> ShortError e = Plain (short_line h a))"
  by (auto simp: ShortError_def split: option.splits)

lemma ShortError_idem [simp]: "ShortError (ShortError e) = ShortError e"
  by (auto simp: ShortError_def split: option.splits)

lemma ShortError_no_http: "as_http e = None \<Longrightarrow> ShortError e = e"
  by (simp add: ShortError_def)

lemma ShortError_Plain [simp]: "ShortError (Plain m) = Plain m"
  by (simp add: ShortError_def)

end
