(* ===== verification/Api_Types.thy ===== *)
theory Api_Types
  imports Prelude
begin

text \<open>
  The custom resources of \<^verbatim>\<open>api/oxide/v1alpha1\<close>: the structs of the \<^verbatim>\<open>*_types.go\<close> files as
  records, with the same fields. An embedded struct is a field of the record, a
  \<^verbatim>\<open>corev1.LocalObjectReference\<close> is the name it holds, a pointer that may be nil is an
  \<open>option\<close>, and a \<^verbatim>\<open>resource.Quantity\<close> is what the source reads of it, its value and its text.
  The admission rules the kubebuilder markers put on these types are predicates at the end.
\<close>

section \<open>Kubernetes metadata\<close>

type_synonym time = nat

record owner_ref =
  or_Kind :: string
  or_Name :: string
  or_UID :: string
  or_Controller :: bool

record object_meta =
  om_Name :: string
  om_Namespace :: string
  om_UID :: string
  om_Generation :: int
  om_ResourceVersion :: string
  om_Annotations :: "string \<rightharpoonup> string"
  om_Labels :: "string \<rightharpoonup> string"
  om_Finalizers :: "string list"
  om_OwnerReferences :: "owner_ref list"
  om_DeletionTimestamp :: "time option"

record object_key =
  ok_Namespace :: string
  ok_Name :: string

datatype condition_status = ConditionTrue | ConditionFalse | ConditionUnknown

record condition =
  cond_Type :: string
  cond_Status :: condition_status
  cond_Reason :: string
  cond_Message :: string

record quantity =
  q_Value :: int
  q_String :: string

text \<open>Every resource is an object with metadata, a spec and a status.\<close>

record ('spec, 'status) kobj =
  o_meta :: object_meta
  o_spec :: 'spec
  o_status :: 'status

definition object_key_of :: "('spec, 'status) kobj \<Rightarrow> object_key" where
  "object_key_of obj = \<lparr>ok_Namespace = om_Namespace (o_meta obj), ok_Name = om_Name (o_meta obj)\<rparr>"

section \<open>common\_types.go\<close>

definition ReconcileModeAnnotation :: string where
  "ReconcileModeAnnotation = ''oxide.100vms.com/reconcile-mode''"

definition ReconcileModeDisable :: string where
  "ReconcileModeDisable = ''Disable''"

definition RunStateRunning :: string where
  "RunStateRunning = ''Running''"

definition RunStateStopped :: string where
  "RunStateStopped = ''Stopped''"

definition ExternalIPEphemeral :: string where
  "ExternalIPEphemeral = ''Ephemeral''"

definition ExternalIPFloating :: string where
  "ExternalIPFloating = ''Floating''"

record resource_spec =
  rs_ConnectionRef :: string
  rs_DeletionProtection :: bool

record resource_status =
  rst_ID :: string
  rst_Project :: string
  rst_Conditions :: "condition list"
  rst_ObservedGeneration :: int

record project_ref_spec =
  prs_Project :: string
  prs_ProjectRef :: "string option"

definition ProjectName :: "project_ref_spec \<Rightarrow> string" where
  "ProjectName s = (case prs_ProjectRef s of Some ref \<Rightarrow> ref | None \<Rightarrow> prs_Project s)"

record oxide_name_spec =
  ons_Name :: string

definition OxideName :: "oxide_name_spec \<Rightarrow> object_meta \<Rightarrow> string" where
  "OxideName s obj = cmpOr (ons_Name s) (om_Name obj)"

section \<open>project\_types.go\<close>

record project_spec =
  ps_Resource :: resource_spec
  ps_Description :: string

type_synonym project = "(project_spec, resource_status) kobj"

section \<open>vpc\_types.go\<close>

record firewall_target =
  ft_Type :: string
  ft_Value :: string

record firewall_filter =
  ff_Hosts :: "firewall_target list"
  ff_Ports :: "string list"
  ff_Protocols :: "string list"

record firewall_rule =
  fr_Name :: string
  fr_Description :: string
  fr_Action :: string
  fr_Direction :: string
  fr_Priority :: int
  fr_Status :: string
  fr_Targets :: "firewall_target list"
  fr_Filters :: firewall_filter

record vpc_spec =
  vs_Resource :: resource_spec
  vs_ProjectRef :: project_ref_spec
  vs_OxideName :: oxide_name_spec
  vs_Description :: string
  vs_DNSName :: string
  vs_IPv6Prefix :: string
  vs_FirewallRules :: "firewall_rule list option"

type_synonym vpc = "(vpc_spec, resource_status) kobj"

section \<open>vpcsubnet\_types.go\<close>

record vpcsubnet_spec =
  ss_Resource :: resource_spec
  ss_ProjectRef :: project_ref_spec
  ss_OxideName :: oxide_name_spec
  ss_Vpc :: string
  ss_VpcRef :: "string option"
  ss_Description :: string
  ss_IPv4Block :: string
  ss_IPv6Block :: string

type_synonym vpcsubnet = "(vpcsubnet_spec, resource_status) kobj"

section \<open>disk\_types.go\<close>

record disk_spec =
  ds_Resource :: resource_spec
  ds_ProjectRef :: project_ref_spec
  ds_OxideName :: oxide_name_spec
  ds_Description :: string
  ds_Size :: quantity
  ds_Image :: string
  ds_Snapshot :: string
  ds_BlockSize :: int

record disk_status =
  dst_Resource :: resource_status
  dst_State :: string

type_synonym disk = "(disk_spec, disk_status) kobj"

section \<open>snapshot\_types.go\<close>

record snapshot_spec =
  sns_Resource :: resource_spec
  sns_ProjectRef :: project_ref_spec
  sns_OxideName :: oxide_name_spec
  sns_Disk :: string
  sns_Description :: string

record snapshot_status =
  snst_Resource :: resource_status
  snst_State :: string
  snst_Size :: "quantity option"

type_synonym snapshot = "(snapshot_spec, snapshot_status) kobj"

section \<open>image\_types.go\<close>

record image_spec =
  is_Resource :: resource_spec
  is_ProjectRef :: project_ref_spec
  is_OxideName :: oxide_name_spec
  is_Description :: string
  is_OS :: string
  is_Version :: string
  is_URL :: string
  is_SHA256 :: string
  is_Snapshot :: string
  is_BlockSize :: int
  is_Promote :: bool

record image_status =
  ist_Resource :: resource_status
  ist_Size :: "quantity option"

type_synonym image = "(image_spec, image_status) kobj"

section \<open>instance\_types.go\<close>

record boot_disk =
  bd_Size :: "quantity option"
  bd_Image :: string
  bd_Disk :: string

record network_interface =
  ni_Name :: string
  ni_Description :: string
  ni_Vpc :: string
  ni_Subnet :: string

record external_ip =
  eip_Type :: string
  eip_Pool :: string
  eip_FloatingIP :: string

record instance_spec =
  ins_Resource :: resource_spec
  ins_ProjectRef :: project_ref_spec
  ins_OxideName :: oxide_name_spec
  ins_Description :: string
  ins_Hostname :: string
  ins_NCPUs :: int
  ins_Memory :: quantity
  ins_RunState :: string
  ins_BootDisk :: "boot_disk option"
  ins_Disks :: "string list"
  ins_NetworkInterfaces :: "network_interface list"
  ins_ExternalIPs :: "external_ip list"
  ins_SSHPublicKeys :: "string list"
  ins_UserData :: string

record instance_status =
  inst_Resource :: resource_status
  inst_State :: string
  inst_ExternalIPs :: "string list"
  inst_LastObserved :: "time option"

type_synonym instance_obj = "(instance_spec, instance_status) kobj"

section \<open>instanceset\_types.go\<close>

record instance_template =
  it_Labels :: "string \<rightharpoonup> string"
  it_Spec :: instance_spec

record instanceset_spec =
  iss_Replicas :: int
  iss_Template :: instance_template

record instanceset_status =
  isst_Replicas :: int
  isst_ReadyReplicas :: int
  isst_Conditions :: "condition list"
  isst_ObservedGeneration :: int

type_synonym instanceset = "(instanceset_spec, instanceset_status) kobj"

section \<open>oxideconnection\_types.go\<close>

record secret_key_reference =
  skr_Name :: string
  skr_Namespace :: string
  skr_Key :: string

record oxideconnection_spec =
  ocs_Host :: string
  ocs_TokenSecretRef :: secret_key_reference
  ocs_InsecureSkipVerify :: bool

record oxideconnection_status =
  ocst_Silo :: string
  ocst_User :: string
  ocst_ObservedSecretResourceVersion :: string
  ocst_Conditions :: "condition list"

type_synonym oxideconnection = "(oxideconnection_spec, oxideconnection_status) kobj"

text \<open>A Secret, of which the source reads the data and the resource version.\<close>

record secret =
  sec_ResourceVersion :: string
  sec_Data :: "string \<rightharpoonup> string"

section \<open>Admission rules\<close>

text \<open>The pattern of Oxide names, \<^verbatim>\<open>^[a-z]([-a-z0-9]{0,k}[a-z0-9])?$\<close>.\<close>

definition lower_char :: "char \<Rightarrow> bool" where
  "lower_char c \<longleftrightarrow> 97 \<le> (of_char c :: nat) \<and> (of_char c :: nat) \<le> 122"

definition alnum_char :: "char \<Rightarrow> bool" where
  "alnum_char c \<longleftrightarrow> lower_char c \<or> is_digit c"

definition name_char :: "char \<Rightarrow> bool" where
  "name_char c \<longleftrightarrow> alnum_char c \<or> c = CHR ''-''"

definition name_pattern :: "nat \<Rightarrow> string \<Rightarrow> bool" where
  "name_pattern k s =
     (case s of
        [] \<Rightarrow> False
      | c # cs \<Rightarrow> lower_char c
          \<and> (cs = [] \<or> length cs \<le> Suc k \<and> list_all name_char cs \<and> alnum_char (last cs)))"

definition oxide_name :: "string \<Rightarrow> bool" where
  "oxide_name s = name_pattern 61 s"

definition set_name_prefix :: "string \<Rightarrow> bool" where
  "set_name_prefix s = name_pattern 55 s"

text \<open>The rules on a boot disk: exactly one of disk and size, and an image only with a size.\<close>

definition boot_disk_admitted :: "boot_disk \<Rightarrow> bool" where
  "boot_disk_admitted bd \<longleftrightarrow>
     (bd_Disk bd \<noteq> '''') \<noteq> (bd_Size bd \<noteq> None)
     \<and> (bd_Image bd = '''' \<or> bd_Size bd \<noteq> None)"

definition instance_name_admitted :: "instance_obj \<Rightarrow> bool" where
  "instance_name_admitted i \<longleftrightarrow>
     (if ons_Name (ins_OxideName (o_spec i)) \<noteq> '''' then oxide_name (ons_Name (ins_OxideName (o_spec i)))
      else oxide_name (om_Name (o_meta i)))"

lemma name_pattern_length: "name_pattern k s \<Longrightarrow> length s \<le> k + 2"
  by (auto simp: name_pattern_def split: list.splits)

lemma name_pattern_not_Nil: "name_pattern k s \<Longrightarrow> s \<noteq> []"
  by (auto simp: name_pattern_def)

lemma name_pattern_chars: "name_pattern k s \<Longrightarrow> list_all name_char s"
  by (auto simp: name_pattern_def name_char_def alnum_char_def split: list.splits)

lemma name_pattern_first: "name_pattern k s \<Longrightarrow> lower_char (hd s)"
  by (auto simp: name_pattern_def split: list.splits)

text \<open>Appending a suffix that ends in a letter or digit keeps a name a name, if it fits.\<close>

lemma name_pattern_append:
  assumes p: "list_all name_char p" "p \<noteq> []" "lower_char (hd p)"
    and q: "list_all name_char q" "q \<noteq> []" "alnum_char (last q)"
    and len: "length p + length q \<le> k + 2"
  shows "name_pattern k (p @ q)"
proof -
  obtain c cs where c: "p = c # cs" using p(2) by (cases p) auto
  have "alnum_char (last (cs @ q))" using q(2,3) by simp
  with p q len show ?thesis by (simp add: name_pattern_def c)
qed

lemma digits_name_char: "list_all name_char (digits n)"
  using digits_are_digits [of n]
  by (auto simp: list_all_iff name_char_def alnum_char_def)

lemma alnum_last_digits: "alnum_char (last (digits n))"
  using digits_are_digits [of n] digits_not_empty [of n]
  by (auto simp: list_all_iff alnum_char_def)

end
