(* ===== verification/World.thy ===== *)
theory World
  imports Go_Errors Api_Types
begin

text \<open>
  What the program runs against, and how it reaches it.

  The Kubernetes API, the Oxide SDK, the web server an image is downloaded from, the clock and the
  library functions of apimachinery and controller-runtime are not part of the repository. They are
  the fields of an environment record \<open>env\<close> that every operation of the model takes: a call is a
  function of the state of the outside world (a type variable), and may answer anything. What a
  theorem needs of them beyond that is the named hypothesis \<open>lib_ok\<close>.

  The state of a run, \<open>sys\<close>, is the outside world, the operator's cache of Oxide clients, and the
  trace: every call and every event, in order, with the error it returned. The trace is what the
  safety properties are about; no operation of the program reads it.
\<close>

section \<open>The Oxide API as the source uses it\<close>

subsection \<open>Responses\<close>

datatype disk_state =
    DiskStateFaulted | DiskStateCreating | DiskStateImportReady
  | DiskStateImportingFromBulkWrites | DiskStateDetached | DiskStateFinalizing
  | DiskStateOther string

datatype snapshot_state = SnapshotStateFaulted | SnapshotStateCreating | SnapshotStateOther string

datatype instance_state =
    InstanceStateRunning | InstanceStateStarting | InstanceStateRebooting | InstanceStateMigrating
  | InstanceStateStopped | InstanceStateStopping | InstanceStateFailed | InstanceStateOther string

record ox_user =
  ou_SiloName :: string
  ou_DisplayName :: string

record ox_project =
  op_Id :: string
  op_Description :: string

record ox_vpc =
  ov_Id :: string
  ov_DnsName :: string
  ov_Description :: string

record ox_subnet =
  osn_Id :: string
  osn_Description :: string

record ox_disk =
  od_Id :: string
  od_State :: disk_state
  od_Size :: int

record ox_snapshot =
  os_Id :: string
  os_State :: snapshot_state
  os_Size :: int

record ox_image =
  oi_Id :: string
  oi_ProjectId :: string
  oi_Size :: int

record ox_instance =
  oin_Id :: string
  oin_RunState :: instance_state
  oin_Ncpus :: int
  oin_Memory :: int
  oin_EnableJumboFrames :: bool
  oin_BootDiskId :: string
  oin_AutoRestartPolicy :: string
  oin_CpuPlatform :: string

datatype ox_external_ip = ExternalIpEphemeral string | ExternalIpFloating string | ExternalIpOther

subsection \<open>Requests\<close>

datatype disk_source =
    DiskSourceBlank int
  | DiskSourceImage string
  | DiskSourceSnapshot string
  | DiskSourceImportingBlocks int

datatype disk_backend = DiskBackendDistributed disk_source

record disk_create =
  dc_Name :: string
  dc_Description :: string
  dc_Size :: int
  dc_DiskBackend :: disk_backend

datatype instance_disk_attachment =
    InstanceDiskAttachmentAttach string
  | InstanceDiskAttachmentCreate disk_create

record nic_create =
  nc_Name :: string
  nc_Description :: string
  nc_VpcName :: string
  nc_SubnetName :: string

datatype external_ip_create =
    ExternalIpCreateFloating string
  | ExternalIpCreateEphemeral "string option"  \<comment> \<open>the explicit pool, if any\<close>

record instance_create =
  ic_Name :: string
  ic_Description :: string
  ic_Hostname :: string
  ic_Ncpus :: int
  ic_Memory :: int
  ic_Start :: bool
  ic_UserData :: string
  ic_BootDisk :: "instance_disk_attachment option"
  ic_Disks :: "instance_disk_attachment list"
  ic_NetworkInterfaces :: "nic_create list option"
  ic_ExternalIps :: "external_ip_create list"
  ic_SshPublicKeys :: "string list"

record instance_update =
  iu_Ncpus :: int
  iu_Memory :: int
  iu_EnableJumboFrames :: bool
  iu_BootDisk :: "string option"
  iu_AutoRestartPolicy :: "string option"
  iu_CpuPlatform :: "string option"

record vpc_create =
  vc_Name :: string
  vc_Description :: string
  vc_DnsName :: string
  vc_Ipv6Prefix :: string

record subnet_create =
  sc_Name :: string
  sc_Description :: string
  sc_Ipv4Block :: string
  sc_Ipv6Block :: string

record snapshot_create =
  snc_Name :: string
  snc_Description :: string
  snc_Disk :: string

record image_create =
  imc_Name :: string
  imc_Description :: string
  imc_Os :: string
  imc_Version :: string
  imc_SourceSnapshot :: string

datatype ip_net = Ipv4Net string | Ipv6Net string

datatype fw_target =
    TargetVpc string | TargetSubnet string | TargetInstance string | TargetIp string | TargetIpNet ip_net

datatype fw_host =
    HostVpc string | HostSubnet string | HostInstance string | HostIp string | HostIpNet ip_net

datatype fw_protocol = ProtocolTcp | ProtocolUdp | ProtocolIcmp | ProtocolIcmp6

record firewall_rule_update =
  fu_Name :: string
  fu_Description :: string
  fu_Action :: string
  fu_Direction :: string
  fu_Priority :: int
  fu_Status :: string
  fu_Targets :: "fw_target list"
  fu_Hosts :: "fw_host list"
  fu_Ports :: "string list"
  fu_Protocols :: "fw_protocol list"

text \<open>A call of the SDK with its parameters. A name or ID that the source leaves out of the
  parameters is the empty string, as in the Go struct.\<close>

datatype (plugins only: code size) request =
    CurrentUserView
  | ProjectView string | ProjectCreate string string | ProjectUpdate string string | ProjectDelete string
  | VpcView string string | VpcCreate string vpc_create | VpcUpdate string string string string
  | VpcDelete string string | VpcFirewallRulesUpdate string string "firewall_rule_update list"
  | VpcSubnetView string string string | VpcSubnetCreate string string subnet_create
  | VpcSubnetUpdate string string string string | VpcSubnetDelete string string string
  | DiskView string string | DiskCreate string disk_create | DiskDelete string string
  | DiskBulkWriteImportStart string string | DiskBulkWriteImport string string string nat
  | DiskBulkWriteImportStop string string | DiskFinalizeImport string string string
  | SnapshotView string string | SnapshotCreate string snapshot_create | SnapshotDelete string string
  | ImageView string string | ImageCreate string image_create | ImagePromote string
  | ImageDemote string string | ImageDelete string
  | InstanceView string string | InstanceCreate string instance_create
  | InstanceUpdate string instance_update | InstanceStart string | InstanceStop string
  | InstanceDelete string | InstanceExternalIpList string

text \<open>The requests that only read.\<close>

fun is_view :: "request \<Rightarrow> bool" where
  "is_view CurrentUserView = True"
| "is_view (ProjectView _) = True"
| "is_view (VpcView _ _) = True"
| "is_view (VpcSubnetView _ _ _) = True"
| "is_view (DiskView _ _) = True"
| "is_view (SnapshotView _ _) = True"
| "is_view (ImageView _ _) = True"
| "is_view (InstanceView _ _) = True"
| "is_view (InstanceExternalIpList _) = True"
| "is_view _ = False"

text \<open>The requests that make a new Oxide resource.\<close>

fun is_create :: "request \<Rightarrow> bool" where
  "is_create (ProjectCreate _ _) = True"
| "is_create (VpcCreate _ _) = True"
| "is_create (VpcSubnetCreate _ _ _) = True"
| "is_create (DiskCreate _ _) = True"
| "is_create (SnapshotCreate _ _) = True"
| "is_create (ImageCreate _ _) = True"
| "is_create (InstanceCreate _ _) = True"
| "is_create _ = False"

section \<open>The environment\<close>

text \<open>The client of one kind of object: the controller-runtime client, and the status client's
  patch, which is given the object as it was and as it is.\<close>

record ('o, 'w) kube_ops =
  k_get :: "object_key \<Rightarrow> 'w \<Rightarrow> (error + 'o) \<times> 'w"
  k_list :: "'w \<Rightarrow> (error + 'o list) \<times> 'w"
  k_update :: "'o \<Rightarrow> 'w \<Rightarrow> (error + 'o) \<times> 'w"
  k_patch_status :: "'o \<Rightarrow> 'o \<Rightarrow> 'w \<Rightarrow> (error + 'o) \<times> 'w"

text \<open>The SDK, one function for each type of result; \<open>'c\<close> is the type of its clients.\<close>

record ('c, 'w) oxide_ops =
  ox_user :: "'c \<Rightarrow> request \<Rightarrow> 'w \<Rightarrow> (error + ox_user) \<times> 'w"
  ox_project :: "'c \<Rightarrow> request \<Rightarrow> 'w \<Rightarrow> (error + ox_project) \<times> 'w"
  ox_vpc :: "'c \<Rightarrow> request \<Rightarrow> 'w \<Rightarrow> (error + ox_vpc) \<times> 'w"
  ox_subnet :: "'c \<Rightarrow> request \<Rightarrow> 'w \<Rightarrow> (error + ox_subnet) \<times> 'w"
  ox_disk :: "'c \<Rightarrow> request \<Rightarrow> 'w \<Rightarrow> (error + ox_disk) \<times> 'w"
  ox_snapshot :: "'c \<Rightarrow> request \<Rightarrow> 'w \<Rightarrow> (error + ox_snapshot) \<times> 'w"
  ox_image :: "'c \<Rightarrow> request \<Rightarrow> 'w \<Rightarrow> (error + ox_image) \<times> 'w"
  ox_instance :: "'c \<Rightarrow> request \<Rightarrow> 'w \<Rightarrow> (error + ox_instance) \<times> 'w"
  ox_ips :: "'c \<Rightarrow> request \<Rightarrow> 'w \<Rightarrow> (error + ox_external_ip list) \<times> 'w"
  ox_done :: "'c \<Rightarrow> request \<Rightarrow> 'w \<Rightarrow> error option \<times> 'w"

datatype client_option =
    WithHost string | WithToken string | WithUserAgent string | WithInsecureHTTPClient

text \<open>A downloaded response; its body is the bytes that arrive before the reader stops, and the
  error it stops with (\<open>IoEOF\<close> at the end of the body).\<close>

record reader =
  rd_bytes :: "char list"
  rd_end :: error

record http_response =
  hr_StatusCode :: int
  hr_Status :: string
  hr_ContentLength :: int
  hr_Body :: reader

text \<open>Library functions on values.\<close>

record lib =
  SetStatusCondition :: "condition list \<Rightarrow> condition \<Rightarrow> condition list"
  IsStatusConditionTrue :: "condition list \<Rightarrow> string \<Rightarrow> bool"
  AddFinalizer :: "object_meta \<Rightarrow> string \<Rightarrow> object_meta \<times> bool"
  ContainsFinalizer :: "object_meta \<Rightarrow> string \<Rightarrow> bool"
  RemoveFinalizer :: "object_meta \<Rightarrow> string \<Rightarrow> object_meta"
  IgnoreNotFound :: "error option \<Rightarrow> error option"
  IsConflict :: "error \<Rightarrow> bool"
  NewQuantity :: "int \<Rightarrow> quantity"
  DiskStateText :: "disk_state \<Rightarrow> string"
  SnapshotStateText :: "snapshot_state \<Rightarrow> string"
  InstanceStateText :: "instance_state \<Rightarrow> string"
  Sha256Sum :: "char list \<Rightarrow> char list"
  SetControllerReference :: "instanceset \<Rightarrow> object_meta \<Rightarrow> error + object_meta"

record ('c, 'w) env =
  e_lib :: lib
  e_oxide :: "('c, 'w) oxide_ops"
  e_new_client :: "client_option list \<Rightarrow> error + 'c"
  e_project :: "(project, 'w) kube_ops"
  e_vpc :: "(vpc, 'w) kube_ops"
  e_subnet :: "(vpcsubnet, 'w) kube_ops"
  e_disk :: "(disk, 'w) kube_ops"
  e_snapshot :: "(snapshot, 'w) kube_ops"
  e_image :: "(image, 'w) kube_ops"
  e_instance :: "(instance_obj, 'w) kube_ops"
  e_set :: "(instanceset, 'w) kube_ops"
  e_conn :: "(oxideconnection, 'w) kube_ops"
  e_secret :: "object_key \<Rightarrow> 'w \<Rightarrow> (error + secret) \<times> 'w"
  e_secret_meta :: "object_key \<Rightarrow> 'w \<Rightarrow> (error + string) \<times> 'w"
  e_instance_create_or_patch ::
    "instance_obj \<Rightarrow> (instance_obj \<Rightarrow> error + instance_obj) \<Rightarrow> 'w \<Rightarrow> (error + instance_obj) \<times> 'w"
  e_instance_list_by_label :: "string \<Rightarrow> string \<Rightarrow> string \<Rightarrow> 'w \<Rightarrow> (error + instance_obj list) \<times> 'w"
  e_instance_delete :: "instance_obj \<Rightarrow> 'w \<Rightarrow> error option \<times> 'w"
  e_new_http_request :: "string \<Rightarrow> error option"
  e_http_do :: "string \<Rightarrow> 'w \<Rightarrow> (error + http_response) \<times> 'w"
  e_now :: "'w \<Rightarrow> time"

text \<open>
  The documented behaviour of the library functions that theorems rely on: a set condition has its
  status, a finalizer is a member of the list, adding reports a change, removing removes it,
  \<^verbatim>\<open>IgnoreNotFound\<close> keeps an error or drops it, and an error made by \<^verbatim>\<open>errors.New\<close> is no
  update conflict.
\<close>

definition lib_ok :: "lib \<Rightarrow> bool" where
  "lib_ok l \<longleftrightarrow>
     (\<forall>cs c. IsStatusConditionTrue l (SetStatusCondition l cs c) (cond_Type c)
        = (cond_Status c = ConditionTrue))
   \<and> (\<forall>m f. ContainsFinalizer l m f = (f \<in> set (om_Finalizers m)))
   \<and> (\<forall>m f. AddFinalizer l m f =
        (if f \<in> set (om_Finalizers m) then (m, False)
         else (m\<lparr>om_Finalizers := om_Finalizers m @ [f]\<rparr>, True)))
   \<and> (\<forall>m f. RemoveFinalizer l m f = m\<lparr>om_Finalizers := filter (\<lambda>x. x \<noteq> f) (om_Finalizers m)\<rparr>)
   \<and> (\<forall>e. IgnoreNotFound l e = None \<or> IgnoreNotFound l e = e)
   \<and> (\<forall>m. \<not> IsConflict l (Plain m))"

lemma lib_okD:
  assumes "lib_ok l"
  shows "IsStatusConditionTrue l (SetStatusCondition l cs c) (cond_Type c)
      \<longleftrightarrow> cond_Status c = ConditionTrue"
    and "ContainsFinalizer l m f \<longleftrightarrow> f \<in> set (om_Finalizers m)"
    and "AddFinalizer l m f = (if f \<in> set (om_Finalizers m) then (m, False)
         else (m\<lparr>om_Finalizers := om_Finalizers m @ [f]\<rparr>, True))"
    and "RemoveFinalizer l m f = m\<lparr>om_Finalizers := filter (\<lambda>x. x \<noteq> f) (om_Finalizers m)\<rparr>"
    and "IgnoreNotFound l e = None \<or> IgnoreNotFound l e = e"
    and "\<not> IsConflict l (Plain t)"
  using assms unfolding lib_ok_def by blast+

section \<open>The state of a run and its trace\<close>

datatype (plugins only: code size) kobject =
    ProjectObj project | VpcObj vpc | SubnetObj vpcsubnet | DiskObj disk | SnapshotObj snapshot
  | ImageObj image | InstanceObj instance_obj | SetObj instanceset | ConnObj oxideconnection

datatype (plugins only: code size) kind =
    ProjectKind | VpcKind | VpcSubnetKind | DiskKind | SnapshotKind | ImageKind | InstanceKind
  | InstanceSetKind | OxideConnectionKind | SecretKind

datatype (plugins only: code size) kube_call =
    KGet kind object_key
  | KGetMetadata kind object_key
  | KList kind
  | KListByLabel kind string string string
  | KUpdate kobject
  | KPatchStatus kobject
  | KCreateOrPatch object_key
  | KDelete kobject

record event =
  ev_Regarding :: object_key
  ev_Type :: string
  ev_Reason :: string
  ev_Action :: string
  ev_Note :: string

datatype (plugins only: code size) 'c effect =
    Kube kube_call "error option"
  | Oxide 'c request "error option"
  | Http string "error option"
  | Event event
  | Unregister object_key

record ('c, 'w) sys =
  world :: 'w
  clients :: "string \<rightharpoonup> string \<times> 'c"
  trace :: "'c effect list"

section \<open>Calls\<close>

definition logged :: "('c, 'w) sys \<Rightarrow> 'w \<Rightarrow> 'c effect \<Rightarrow> ('c, 'w) sys" where
  "logged s w e = s\<lparr>world := w, trace := trace s @ [e]\<rparr>"

lemma logged_simps [simp]:
  "world (logged s w e) = w"
  "clients (logged s w e) = clients s"
  "trace (logged s w e) = trace s @ [e]"
  by (simp_all add: logged_def)

text \<open>A call: the world answers and moves on, and the call is on the trace with its error.\<close>

definition perform ::
  "(error option \<Rightarrow> 'c effect) \<Rightarrow> ('r \<Rightarrow> error option) \<Rightarrow> ('w \<Rightarrow> 'r \<times> 'w)
   \<Rightarrow> (('c, 'w) sys, 'r) go" where
  "perform eff err act s =
     (let r = fst (act (world s)) in Some (r, logged s (snd (act (world s))) (eff (err r))))"

definition err_of :: "error + 'a \<Rightarrow> error option" where
  "err_of r = (case r of Inl e \<Rightarrow> Some e | Inr _ \<Rightarrow> None)"

lemma err_of_simps [simp]: "err_of (Inl e) = Some e" "err_of (Inr a) = None"
  by (simp_all add: err_of_def)

definition kube_get :: "kind \<Rightarrow> ('o, 'w) kube_ops \<Rightarrow> object_key \<Rightarrow> (('c, 'w) sys, error + 'o) go" where
  "kube_get k ops key = perform (Kube (KGet k key)) err_of (k_get ops key)"

definition kube_list :: "kind \<Rightarrow> ('o, 'w) kube_ops \<Rightarrow> (('c, 'w) sys, error + 'o list) go" where
  "kube_list k ops = perform (Kube (KList k)) err_of (k_list ops)"

definition kube_update ::
  "('o \<Rightarrow> kobject) \<Rightarrow> ('o, 'w) kube_ops \<Rightarrow> 'o \<Rightarrow> (('c, 'w) sys, error + 'o) go" where
  "kube_update mk ops obj = perform (Kube (KUpdate (mk obj))) err_of (k_update ops obj)"

definition kube_patch_status ::
  "('o \<Rightarrow> kobject) \<Rightarrow> ('o, 'w) kube_ops \<Rightarrow> 'o \<Rightarrow> 'o \<Rightarrow> (('c, 'w) sys, error + 'o) go" where
  "kube_patch_status mk ops base obj =
     perform (Kube (KPatchStatus (mk obj))) err_of (k_patch_status ops base obj)"

definition oxide ::
  "('c \<Rightarrow> request \<Rightarrow> 'w \<Rightarrow> (error + 'r) \<times> 'w) \<Rightarrow> 'c \<Rightarrow> request \<Rightarrow> (('c, 'w) sys, error + 'r) go" where
  "oxide f oc q = perform (Oxide oc q) err_of (f oc q)"

definition oxide_do ::
  "('c, 'w) env \<Rightarrow> 'c \<Rightarrow> request \<Rightarrow> (('c, 'w) sys, error option) go" where
  "oxide_do E oc q = perform (Oxide oc q) id (ox_done (e_oxide E) oc q)"

definition emit_event :: "event \<Rightarrow> ('c, 'w) sys \<Rightarrow> ('c, 'w) sys" where
  "emit_event ev s = logged s (world s) (Event ev)"

lemma emit_event_simps [simp]:
  "world (emit_event ev s) = world s"
  "clients (emit_event ev s) = clients s"
  "trace (emit_event ev s) = trace s @ [Event ev]"
  by (simp_all add: emit_event_def)

text \<open>The external watcher is told to forget an Instance.\<close>

definition unregister :: "object_key \<Rightarrow> ('c, 'w) sys \<Rightarrow> ('c, 'w) sys" where
  "unregister key s = logged s (world s) (Unregister key)"

lemma unregister_simps [simp]:
  "world (unregister key s) = world s"
  "clients (unregister key s) = clients s"
  "trace (unregister key s) = trace s @ [Unregister key]"
  by (simp_all add: unregister_def)

lemmas call_defs = kube_get_def kube_list_def kube_update_def kube_patch_status_def oxide_def
  oxide_do_def

lemma perform_Some:
  "perform eff err act s = Some (r, s') \<longleftrightarrow>
     r = fst (act (world s)) \<and> s' = logged s (snd (act (world s))) (eff (err r))"
  by (auto simp: perform_def Let_def)

section \<open>What a call adds to the trace\<close>

text \<open>
  \<open>adds m s P\<close>: if \<open>m\<close>, run from \<open>s\<close>, does not panic, then it extends the trace by a list of
  effects that \<open>P\<close> relates to its result. The rules below follow the shape of the program, and make
  no assumption on what the world answers.
\<close>

definition adds ::
  "('a \<times> ('c, 'w) sys) option \<Rightarrow> ('c, 'w) sys \<Rightarrow> ('a \<Rightarrow> 'c effect list \<Rightarrow> bool) \<Rightarrow> bool" where
  "adds m s P \<longleftrightarrow> wlp m (\<lambda>a s'. \<exists>tr. trace s' = trace s @ tr \<and> P a tr)"

named_theorems adds_rules \<open>introduction rules for adds\<close>

lemma adds_ret [adds_rules]: "P a [] \<Longrightarrow> adds (Some (a, s)) s P"
  by (simp add: adds_def)

lemma adds_panic [adds_rules]: "adds None s P"
  by (simp add: adds_def)

lemma adds_bind:
  assumes "adds m s R"
    and "\<And>a s' tr. R a tr \<Longrightarrow> adds (f (a, s')) s' (\<lambda>b tr'. P b (tr @ tr'))"
  shows "adds (Option.bind m f) s P"
  unfolding adds_def wlp_bind
proof (rule wlp_mono [OF assms(1) [unfolded adds_def]])
  fix a and s' :: "('b, 'c) sys"
  assume "\<exists>tr. trace s' = trace s @ tr \<and> R a tr"
  then obtain tr where tr: "trace s' = trace s @ tr" and "R a tr" by blast
  from assms(2) [OF \<open>R a tr\<close>, of s']
  show "wlp (f (a, s')) (\<lambda>b s''. \<exists>tr'. trace s'' = trace s @ tr' \<and> P b tr')"
    unfolding adds_def by (rule wlp_mono) (auto simp: tr)
qed

lemma adds_weaken: "adds m s P \<Longrightarrow> (\<And>a tr. P a tr \<Longrightarrow> Q a tr) \<Longrightarrow> adds m s Q"
  unfolding adds_def by (erule wlp_mono) blast

lemma adds_perform: "(\<And>r. P r [eff (err r)]) \<Longrightarrow> adds (perform eff err act s) s P"
  by (simp add: adds_def perform_def Let_def)

lemma adds_perform_bind:
  "(\<And>r s'. adds (f (r, s')) s' (\<lambda>b tr. P b (eff (err r) # tr)))
   \<Longrightarrow> adds (Option.bind (perform eff err act s) f) s P"
  by (rule adds_bind [where R = "\<lambda>r tr. tr = [eff (err r)]"]) (auto intro: adds_perform)

lemma adds_event:
  "adds m (emit_event ev s) (\<lambda>a tr. P a (Event ev # tr)) \<Longrightarrow> adds m s P"
  by (auto simp: adds_def elim!: wlp_mono)

lemma adds_unregister:
  "adds m (unregister key s) (\<lambda>a tr. P a (Unregister key # tr)) \<Longrightarrow> adds m s P"
  by (auto simp: adds_def elim!: wlp_mono)

lemma addsD: "adds m s P \<Longrightarrow> m = Some (a, s') \<Longrightarrow> \<exists>tr. trace s' = trace s @ tr \<and> P a tr"
  by (auto simp: adds_def dest: wlpD)

text \<open>\<open>runs m\<close>: no panic. \<open>ensures m s P\<close> is \<open>adds m s P\<close> without one.\<close>

definition runs :: "('a \<times> 's) option \<Rightarrow> bool" where
  "runs m \<longleftrightarrow> m \<noteq> None"

definition ensures ::
  "('a \<times> ('c, 'w) sys) option \<Rightarrow> ('c, 'w) sys \<Rightarrow> ('a \<Rightarrow> 'c effect list \<Rightarrow> bool) \<Rightarrow> bool" where
  "ensures m s P \<longleftrightarrow> (\<exists>a s' tr. m = Some (a, s') \<and> trace s' = trace s @ tr \<and> P a tr)"

named_theorems runs_rules \<open>programs that do not panic\<close>

lemma runs_Some [runs_rules]: "runs (Some x)"
  by (simp add: runs_def)

lemma runs_bind [runs_rules]: "runs m \<Longrightarrow> (\<And>a s. runs (f (a, s))) \<Longrightarrow> runs (Option.bind m f)"
  by (cases m) (auto simp: runs_def)

lemma runs_perform [runs_rules]: "runs (perform eff err act s)"
  by (simp add: runs_def perform_def Let_def)

lemma runs_calls [runs_rules]:
  "runs (kube_get k ops key s)" "runs (kube_list k ops s)" "runs (kube_update mk ops obj s)"
  "runs (kube_patch_status mk ops base obj s)" "runs (oxide f oc q s)" "runs (oxide_do E oc q s)"
  by (simp_all add: call_defs runs_perform)

lemma ensuresI: "runs m \<Longrightarrow> adds m s P \<Longrightarrow> ensures m s P"
  by (cases m) (auto simp: runs_def ensures_def adds_def)

lemma ensures_weaken: "ensures m s P \<Longrightarrow> (\<And>a tr. P a tr \<Longrightarrow> Q a tr) \<Longrightarrow> ensures m s Q"
  unfolding ensures_def by blast

lemma adds_conj: "adds m s P \<Longrightarrow> adds m s Q \<Longrightarrow> adds m s (\<lambda>a tr. P a tr \<and> Q a tr)"
  by (cases m) (auto simp: adds_def)

end
