(* ===== verification/Helpers.thy ===== *)
theory Helpers
  imports World
begin

text \<open>
  \<^verbatim>\<open>internal/controller/oxide/helpers.go\<close>: the finalizer and the requeue periods, the events, the
  opt-out annotation, and \<^verbatim>\<open>setReady\<close>, which turns the outcome of a reconcile into the Ready
  condition and the decision when to run again.
\<close>

definition finalizerName :: string where
  "finalizerName = ''oxide.100vms.com/finalizer''"

definition typeReady :: string where
  "typeReady = ''Ready''"

text \<open>Durations are in seconds.\<close>

definition resyncPeriod :: nat where
  "resyncPeriod = 10 * 60"

definition progressPeriod :: nat where
  "progressPeriod = 10"

record ctrl_result =
  RequeueAfter :: nat

definition no_requeue :: ctrl_result where
  "no_requeue = \<lparr>RequeueAfter = 0\<rparr>"

text \<open>\<^verbatim>\<open>record\<close> and \<^verbatim>\<open>warn\<close>: events on an object. The model's \<open>warn\<close> gives the state after the
  event; the error it returns is its argument.\<close>

definition record_event ::
  "object_key \<Rightarrow> error option \<Rightarrow> string \<Rightarrow> string \<Rightarrow> ('c, 'w) sys \<Rightarrow> ('c, 'w) sys" where
  "record_event obj err reason note s =
     (case err of
        None \<Rightarrow> emit_event \<lparr>ev_Regarding = obj, ev_Type = ''Normal'', ev_Reason = reason,
                  ev_Action = reason, ev_Note = note\<rparr> s
      | Some _ \<Rightarrow> s)"

definition warn ::
  "('c, 'w) env \<Rightarrow> object_key \<Rightarrow> string \<Rightarrow> error option \<Rightarrow> ('c, 'w) sys \<Rightarrow> ('c, 'w) sys" where
  "warn E obj reason err s =
     (case err of
        None \<Rightarrow> s
      | Some e \<Rightarrow>
          if \<not> IsConflict (e_lib E) e
          then emit_event \<lparr>ev_Regarding = obj, ev_Type = ''Warning'', ev_Reason = reason,
                 ev_Action = ''Reconcile'', ev_Note = Error e\<rparr> s
          else s)"

definition map_get :: "(string \<rightharpoonup> string) \<Rightarrow> string \<Rightarrow> string" where
  "map_get m k = (case m k of None \<Rightarrow> '''' | Some v \<Rightarrow> v)"

definition reconcileDisabled :: "object_meta \<Rightarrow> bool" where
  "reconcileDisabled obj \<longleftrightarrow>
     map_get (om_Annotations obj) ReconcileModeAnnotation = ReconcileModeDisable"

text \<open>The switch of \<^verbatim>\<open>setReady\<close>: the condition, the result and the error that comes back.\<close>

definition ready_condition :: "condition_status \<Rightarrow> string \<Rightarrow> string \<Rightarrow> condition" where
  "ready_condition st reason msg =
     \<lparr>cond_Type = typeReady, cond_Status = st, cond_Reason = reason, cond_Message = msg\<rparr>"

definition setReady_outcome :: "error option \<Rightarrow> condition \<times> ctrl_result \<times> error option" where
  "setReady_outcome err =
     (case err of
        None \<Rightarrow>
          (ready_condition ConditionTrue ''Reconciled'' ''In sync with Omicron'',
           \<lparr>RequeueAfter = resyncPeriod\<rparr>, None)
      | Some e \<Rightarrow>
          if is_failed e then
            (let e' = ShortError e
             in (ready_condition ConditionFalse ''Failed'' (Error e'), no_requeue, Some (Terminal e')))
          else if is_progressing e then
            (ready_condition ConditionFalse ''Progressing'' (Error e),
             \<lparr>RequeueAfter = progressPeriod\<rparr>, None)
          else
            (let e' = ShortError e
             in (ready_condition ConditionFalse ''Error'' (Error e'), no_requeue, Some e')))"

definition setReady ::
  "('c, 'w) env \<Rightarrow> object_key \<Rightarrow> condition list \<Rightarrow> error option
   \<Rightarrow> (('c, 'w) sys, (ctrl_result \<times> error option) \<times> condition list) go" where
  "setReady E obj conditions err s =
     (case setReady_outcome err of
        (cond, res, err) \<Rightarrow>
          Some (((res, err), SetStatusCondition (e_lib E) conditions cond),
                (if err \<noteq> None then warn E obj (cond_Reason cond) (Some (Plain (cond_Message cond))) s
                 else s)))"

section \<open>Facts\<close>

lemma setReady_outcome_type: "cond_Type (fst (setReady_outcome err)) = typeReady"
  by (simp add: setReady_outcome_def ready_condition_def Let_def split: option.split)

lemma setReady_outcome_status:
  "cond_Status (fst (setReady_outcome err)) = ConditionTrue \<longleftrightarrow> err = None"
  by (simp add: setReady_outcome_def ready_condition_def Let_def split: option.split)

lemma is_failed_ShortError_Terminal [simp]: "is_failed (Terminal e) = is_failed e"
  by simp

text \<open>What \<open>record_event\<close> and \<open>warn\<close> do to the state: at most one event on the trace.\<close>

lemma record_event_simps [simp]:
  "world (record_event obj err reason note s) = world s"
  "clients (record_event obj err reason note s) = clients s"
  "record_event obj (Some e) reason note s = s"
  by (simp_all add: record_event_def split: option.split)

lemma warn_simps [simp]:
  "world (warn E obj reason err s) = world s"
  "clients (warn E obj reason err s) = clients s"
  "warn E obj reason None s = s"
  by (simp_all add: warn_def split: option.split)

text \<open>An effect that only tells the outside world something.\<close>

fun is_event :: "'c effect \<Rightarrow> bool" where
  "is_event (Event _) = True"
| "is_event _ = False"

lemma record_event_trace: "\<exists>tr. trace (record_event obj err reason note s) = trace s @ tr \<and> list_all is_event tr"
  by (cases err) (simp_all add: record_event_def)

lemma warn_trace: "\<exists>tr. trace (warn E obj reason err s) = trace s @ tr \<and> list_all is_event tr"
  by (cases err) (simp_all add: warn_def)

lemma adds_record_event:
  assumes "\<And>tr. list_all is_event tr \<Longrightarrow>
    adds m (record_event obj err reason note s) (\<lambda>a tr'. P a (tr @ tr'))"
  shows "adds m s P"
proof -
  obtain tr where tr: "trace (record_event obj err reason note s) = trace s @ tr" "list_all is_event tr"
    using record_event_trace by blast
  from assms [OF tr(2)] show ?thesis
    unfolding adds_def by (rule wlp_mono) (auto simp: tr(1))
qed

lemma adds_warn:
  assumes "\<And>tr. list_all is_event tr \<Longrightarrow>
    adds m (warn E obj reason err s) (\<lambda>a tr'. P a (tr @ tr'))"
  shows "adds m s P"
proof -
  obtain tr where tr: "trace (warn E obj reason err s) = trace s @ tr" "list_all is_event tr"
    using warn_trace by blast
  from assms [OF tr(2)] show ?thesis
    unfolding adds_def by (rule wlp_mono) (auto simp: tr(1))
qed

lemma adds_ret_warn:
  "(\<And>tr. list_all is_event tr \<Longrightarrow> P a tr) \<Longrightarrow> adds (Some (a, warn E obj reason err s)) s P"
  by (rule adds_warn) (auto intro: adds_ret)

lemma setReady_Some:
  "\<exists>s'. setReady E obj conds err s =
      Some (((fst (snd (setReady_outcome err)), snd (snd (setReady_outcome err))),
             SetStatusCondition (e_lib E) conds (fst (setReady_outcome err))), s')
    \<and> world s' = world s \<and> clients s' = clients s
    \<and> (\<exists>tr. trace s' = trace s @ tr \<and> list_all is_event tr)"
  using warn_trace [of E obj _ _ s]
  by (auto simp: setReady_def split: prod.split)

lemma adds_setReady:
  "(\<And>tr. list_all is_event tr \<Longrightarrow>
      P ((fst (snd (setReady_outcome err)), snd (snd (setReady_outcome err))),
         SetStatusCondition (e_lib E) conds (fst (setReady_outcome err))) tr)
   \<Longrightarrow> adds (setReady E obj conds err s) s P"
  using setReady_Some [of E obj conds err s] by (auto simp: adds_def)

section \<open>Programs whose every effect is of one kind\<close>

text \<open>\<open>adds_all m s p\<close>: whatever the world answers, \<open>m\<close> only adds effects that satisfy \<open>p\<close>.\<close>

definition adds_all ::
  "('a \<times> ('c, 'w) sys) option \<Rightarrow> ('c, 'w) sys \<Rightarrow> ('c effect \<Rightarrow> bool) \<Rightarrow> bool" where
  "adds_all m s p = adds m s (\<lambda>_ tr. list_all p tr)"

lemma adds_all_ret: "adds_all (Some (a, s)) s p"
  by (simp add: adds_all_def adds_ret)

lemma adds_all_panic: "adds_all None s p"
  by (simp add: adds_all_def adds_panic)

lemma adds_all_bind:
  "adds_all m s p \<Longrightarrow> (\<And>a s'. adds_all (f (a, s')) s' p) \<Longrightarrow> adds_all (Option.bind m f) s p"
  unfolding adds_all_def
  by (rule adds_bind [where R = "\<lambda>_ tr. list_all p tr"]) (auto elim!: adds_weaken)

lemma adds_all_bind_if:
  assumes "adds_all m s p" and "wlp m R" and "\<And>a s'. R a s' \<Longrightarrow> adds_all (f (a, s')) s' p"
  shows "adds_all (Option.bind m f) s p"
proof (cases m)
  case None
  then show ?thesis by (simp add: adds_all_panic)
next
  case (Some x)
  then obtain a s' where x: "m = Some (a, s')" by (cases x) auto
  from wlpD [OF assms(2) x] have "adds_all (f (a, s')) s' p" by (rule assms(3))
  with assms(1) x show ?thesis
    by (auto simp: adds_all_def adds_def elim!: wlp_mono)
qed

lemma adds_all_perform: "(\<And>u. p (eff u)) \<Longrightarrow> adds_all (perform eff err act s) s p"
  by (simp add: adds_all_def adds_perform)

lemma adds_all_oxide: "(\<And>u. p (Oxide oc q u)) \<Longrightarrow> adds_all (oxide f oc q s) s p"
  by (simp add: oxide_def adds_all_perform)

lemma adds_all_oxide_do: "(\<And>u. p (Oxide oc q u)) \<Longrightarrow> adds_all (oxide_do E oc q s) s p"
  by (simp add: oxide_do_def adds_all_perform)

lemma adds_all_kube_get: "(\<And>u. p (Kube (KGet k key) u)) \<Longrightarrow> adds_all (kube_get k ops key s) s p"
  by (simp add: kube_get_def adds_all_perform)

lemma adds_all_kube_list: "(\<And>u. p (Kube (KList k) u)) \<Longrightarrow> adds_all (kube_list k ops s) s p"
  by (simp add: kube_list_def adds_all_perform)

lemma adds_all_kube_update:
  "(\<And>u. p (Kube (KUpdate (mk obj)) u)) \<Longrightarrow> adds_all (kube_update mk ops obj s) s p"
  by (simp add: kube_update_def adds_all_perform)

lemma adds_all_record:
  assumes "\<And>ev. p (Event ev)" and "adds_all m (record_event obj err reason note s) p"
  shows "adds_all m s p"
proof -
  have "list_all p tr" if "list_all is_event tr" for tr
    using that assms(1) by (auto simp: list_all_iff elim!: is_event.elims)
  then show ?thesis
    unfolding adds_all_def
    using assms(2) [unfolded adds_all_def]
    by (intro adds_record_event [of m obj err reason "note" s]) (erule adds_weaken, simp)
qed

lemma adds_all_ret_record:
  "(\<And>ev. p (Event ev)) \<Longrightarrow> adds_all (Some (a, record_event obj err reason note s)) s p"
  by (rule adds_all_record [OF _ adds_all_ret])

lemma adds_all_weaken: "adds_all m s p \<Longrightarrow> (\<And>e. p e \<Longrightarrow> q e) \<Longrightarrow> adds_all m s q"
  unfolding adds_all_def by (erule adds_weaken) (auto simp: list_all_iff)

lemma adds_allD: "adds_all m s p \<Longrightarrow> adds m s (\<lambda>_ tr. list_all p tr)"
  by (simp add: adds_all_def)

lemma adds_all_trivial: "adds_all m s p \<Longrightarrow> adds m s (\<lambda>_ _. True)"
  unfolding adds_all_def by (erule adds_weaken) simp

lemma adds_allI: "adds m s (\<lambda>_ tr. list_all p tr) \<Longrightarrow> adds_all m s p"
  by (simp add: adds_all_def)

lemmas adds_all_intros = adds_all_ret adds_all_panic adds_all_bind adds_all_perform adds_all_oxide
  adds_all_oxide_do adds_all_kube_get adds_all_kube_list adds_all_kube_update adds_all_ret_record

end
