(* ===== verification/Controller_Contract.thy ===== *)
theory Controller_Contract
  imports Helpers
begin

text \<open>
  The protocol that the controllers of Oxide resources share. Each \<^verbatim>\<open>Reconcile\<close> of
  \<^verbatim>\<open>internal/controller/oxide\<close> is written out in its own theory, as in the source; the locales
  here state what they have in common and what follows from it once and for all:
  \<^item> \<open>publisher\<close>: the operations run and the status is patched with what \<^verbatim>\<open>setReady\<close> says of their
    outcome;
  \<^item> \<open>reconciler\<close>: a \<^verbatim>\<open>Reconcile\<close> fetches its object, stops if the object is gone or opted out,
    goes to \<^verbatim>\<open>handleDelete\<close> if it is being deleted, and otherwise puts the finalizer on it, runs
    its operations, and patches the status with what \<^verbatim>\<open>setReady\<close> says;
  \<^item> \<open>deleter\<close>: a \<^verbatim>\<open>handleDelete\<close> updates the object (which drops the finalizer) only if the
    object is protected or its Oxide resource is gone;
  \<^item> \<open>managed\<close>: both.
\<close>

section \<open>Orders of effects\<close>

text \<open>\<open>preceded B A tr\<close>: no effect of kind \<open>A\<close> comes before the first effect of kind \<open>B\<close>.\<close>

fun preceded :: "('e \<Rightarrow> bool) \<Rightarrow> ('e \<Rightarrow> bool) \<Rightarrow> 'e list \<Rightarrow> bool" where
  "preceded B A [] = True"
| "preceded B A (x # xs) = (\<not> A x \<and> (B x \<or> preceded B A xs))"

lemma preceded_no_A: "list_all (\<lambda>e. \<not> A e) tr \<Longrightarrow> preceded B A tr"
  by (induction tr) auto

lemma preceded_append:
  "preceded B A (xs @ ys) \<longleftrightarrow>
     preceded B A xs \<and> ((\<exists>x \<in> set xs. B x) \<or> preceded B A ys)"
  by (induction xs) auto

lemma preceded_append_no_A:
  "preceded B A xs \<Longrightarrow> list_all (\<lambda>e. \<not> A e) ys \<Longrightarrow> preceded B A (xs @ ys)"
  by (simp add: preceded_append preceded_no_A)

lemma preceded_split:
  "preceded B A (xs @ x # ys) \<Longrightarrow> A x \<Longrightarrow> \<exists>y \<in> set xs. B y"
  by (induction xs) auto

fun is_kube_update :: "'c effect \<Rightarrow> bool" where
  "is_kube_update (Kube (KUpdate _) _) = True"
| "is_kube_update _ = False"

text \<open>Every write to the API server.\<close>

fun is_kube_write :: "'c effect \<Rightarrow> bool" where
  "is_kube_write (Kube (KUpdate _) _) = True"
| "is_kube_write (Kube (KPatchStatus _) _) = True"
| "is_kube_write (Kube (KCreateOrPatch _) _) = True"
| "is_kube_write (Kube (KDelete _) _) = True"
| "is_kube_write _ = False"

lemma update_is_write: "is_kube_update e \<Longrightarrow> is_kube_write e"
  by (auto elim!: is_kube_update.elims)

lemma event_no_write: "is_event e \<Longrightarrow> \<not> is_kube_write e"
  by (auto elim!: is_event.elims)

fun is_oxide_call :: "'c effect \<Rightarrow> bool" where
  "is_oxide_call (Oxide _ _ _) = True"
| "is_oxide_call _ = False"

fun is_oxide_create :: "'c effect \<Rightarrow> bool" where
  "is_oxide_create (Oxide _ q _) = is_create q"
| "is_oxide_create _ = False"

fun is_oxide_write :: "'c effect \<Rightarrow> bool" where
  "is_oxide_write (Oxide _ q _) = (\<not> is_view q)"
| "is_oxide_write _ = False"

text \<open>The request was answered without an error, or with ``not found''.\<close>

definition ok_or_gone :: "error option \<Rightarrow> bool" where
  "ok_or_gone err \<longleftrightarrow> err = None \<or> not_found_err err"

lemma ok_or_gone_simps [simp]:
  "ok_or_gone None"
  "ok_or_gone (Some e) = is_object_not_found e"
  by (simp_all add: ok_or_gone_def)

lemma events_harmless:
  "list_all is_event tr \<Longrightarrow> list_all (\<lambda>e. \<not> is_kube_update e) tr"
  "list_all is_event tr \<Longrightarrow> list_all (\<lambda>e. \<not> is_oxide_call e) tr"
  "list_all is_event tr \<Longrightarrow> list_all (\<lambda>e. \<not> is_oxide_create e) tr"
  "list_all is_event tr \<Longrightarrow> list_all (\<lambda>e. \<not> is_oxide_write e) tr"
  by (auto simp: list_all_iff elim!: is_event.elims)

lemma no_oxide_no_create:
  "list_all (\<lambda>e. \<not> is_oxide_call e) tr \<Longrightarrow> list_all (\<lambda>e. \<not> is_oxide_create e) tr"
  by (auto simp: list_all_iff elim!: is_oxide_create.elims)

section \<open>The shared shape of Reconcile\<close>

definition finalizer_step ::
  "('c, 'w) env \<Rightarrow> (('sp, 'st) kobj \<Rightarrow> kobject) \<Rightarrow> (('sp, 'st) kobj, 'w) kube_ops \<Rightarrow> ('sp, 'st) kobj
   \<Rightarrow> (('c, 'w) sys, error option \<times> ('sp, 'st) kobj) go" where
  "finalizer_step E mk ops obj s =
     (case AddFinalizer (e_lib E) (o_meta obj) finalizerName of
        (m, added) \<Rightarrow>
          let obj = obj\<lparr>o_meta := m\<rparr> in
          if added then do {
            (r, s) \<leftarrow> kube_update mk ops obj s;
            (case r of
               Inl e \<Rightarrow> Some ((Some e, obj), s)
             | Inr obj \<Rightarrow> Some ((None, obj), s))
          }
          else Some ((None, obj), s))"

definition publish ::
  "('c, 'w) env \<Rightarrow> (('sp, 'st) kobj \<Rightarrow> kobject) \<Rightarrow> (('sp, 'st) kobj, 'w) kube_ops
   \<Rightarrow> ('st \<Rightarrow> condition list) \<Rightarrow> (condition list \<Rightarrow> 'st \<Rightarrow> 'st) \<Rightarrow> (int \<Rightarrow> 'st \<Rightarrow> 'st)
   \<Rightarrow> (('sp, 'st) kobj \<Rightarrow> (('c, 'w) sys, error option \<times> ('sp, 'st) kobj) go)
   \<Rightarrow> ('sp, 'st) kobj \<Rightarrow> (('c, 'w) sys, ctrl_result \<times> error option) go" where
  "publish E mk ops conditions with_conditions with_observed handleOps base s = do {
     ((err, obj), s) \<leftarrow> handleOps base s;
     (((res, err), cs), s) \<leftarrow> setReady E (object_key_of obj) (conditions (o_status obj)) err s;
     let st = with_conditions cs (o_status obj);
     let st = (if IsStatusConditionTrue (e_lib E) (conditions st) typeReady
               then with_observed (om_Generation (o_meta obj)) st else st);
     (perr, s) \<leftarrow> kube_patch_status mk ops base (obj\<lparr>o_status := st\<rparr>) s;
     (case perr of
        Inl pe \<Rightarrow>
          if err = None then Some ((no_requeue, IgnoreNotFound (e_lib E) (Some pe)), s)
          else Some ((res, err), s)
      | Inr _ \<Rightarrow> Some ((res, err), s))
   }"

definition reconcile_with ::
  "('c, 'w) env \<Rightarrow> kind \<Rightarrow> (('sp, 'st) kobj \<Rightarrow> kobject) \<Rightarrow> (('sp, 'st) kobj, 'w) kube_ops
   \<Rightarrow> ('st \<Rightarrow> condition list) \<Rightarrow> (condition list \<Rightarrow> 'st \<Rightarrow> 'st) \<Rightarrow> (int \<Rightarrow> 'st \<Rightarrow> 'st)
   \<Rightarrow> (('sp, 'st) kobj \<Rightarrow> (('c, 'w) sys, ctrl_result \<times> error option) go)
   \<Rightarrow> (('sp, 'st) kobj \<Rightarrow> (('c, 'w) sys, error option \<times> ('sp, 'st) kobj) go)
   \<Rightarrow> object_key \<Rightarrow> (('c, 'w) sys, ctrl_result \<times> error option) go" where
  "reconcile_with E kd mk ops conditions with_conditions with_observed handleDelete handleOps req s = do {
     (r, s) \<leftarrow> kube_get kd ops req s;
     (case r of
        Inl err \<Rightarrow> Some ((no_requeue, IgnoreNotFound (e_lib E) (Some err)), s)
      | Inr obj \<Rightarrow>
          if reconcileDisabled (o_meta obj) then Some ((no_requeue, None), s)
          else if om_DeletionTimestamp (o_meta obj) \<noteq> None then do {
            ((res, err), s) \<leftarrow> handleDelete obj s;
            Some ((res, err), warn E (object_key_of obj) ''DeleteFailed'' err s)
          }
          else do {
            ((err, obj), s) \<leftarrow> finalizer_step E mk ops obj s;
            (case err of
               Some e \<Rightarrow> Some ((no_requeue, Some e), s)
             | None \<Rightarrow> publish E mk ops conditions with_conditions with_observed handleOps obj s)
          })
   }"

text \<open>A \<^verbatim>\<open>handleDelete\<close> that returns only an error is called with the empty result.\<close>

definition with_no_requeue ::
  "('o \<Rightarrow> (('c, 'w) sys, error option) go) \<Rightarrow> 'o \<Rightarrow> (('c, 'w) sys, ctrl_result \<times> error option) go" where
  "with_no_requeue del obj s = do {
     (err, s) \<leftarrow> del obj s;
     Some ((no_requeue, err), s)
   }"

lemma adds_with_no_requeue:
  "adds (del obj s) s (\<lambda>r tr. P tr) \<Longrightarrow> adds (with_no_requeue del obj s) s (\<lambda>r tr. P tr)"
  unfolding with_no_requeue_def by (erule adds_bind) (auto intro: adds_ret)

text \<open>What shows that a written-out \<^verbatim>\<open>Reconcile\<close> has the shape.\<close>

lemmas reconcile_shape_defs = reconcile_with_def with_no_requeue_def publish_def finalizer_step_def
  bind_assoc Option.bind.simps Let_def case_prod_unfold fst_conv snd_conv

section \<open>The contract\<close>

text \<open>
  What a published status says: the last effect is the patch, its object is the one that was
  reconciled, with the condition that \<^verbatim>\<open>setReady\<close> makes of the outcome, so that it is Ready exactly if the
  operations succeeded, and only then with its generation as the observed one; and if the patch is acknowledged, the reconcile returns what \<^verbatim>\<open>setReady\<close> makes of
  the outcome.
\<close>

definition reports_status ::
  "lib \<Rightarrow> (('sp, 'st) kobj \<Rightarrow> kobject) \<Rightarrow> ('st \<Rightarrow> condition list) \<Rightarrow> (int \<Rightarrow> 'st \<Rightarrow> 'st)
   \<Rightarrow> ('sp, 'st) kobj \<Rightarrow> error option \<Rightarrow> ctrl_result \<times> error option \<Rightarrow> 'c effect list \<Rightarrow> bool" where
  "reports_status l mk conditions with_observed base oerr r tr \<longleftrightarrow>
     (\<exists>tr' obj u. tr = tr' @ [Kube (KPatchStatus (mk obj)) u]
        \<and> o_meta obj = o_meta base \<and> o_spec obj = o_spec base
        \<and> (\<exists>cs. conditions (o_status obj) = SetStatusCondition l cs (fst (setReady_outcome oerr)))
        \<and> IsStatusConditionTrue l (conditions (o_status obj)) typeReady = (oerr = None)
        \<and> (oerr = None \<longrightarrow> (\<exists>st. o_status obj = with_observed (om_Generation (o_meta base)) st))
        \<and> (u = None \<longrightarrow> r = snd (setReady_outcome oerr)))"

lemma reports_status_Cons:
  "reports_status l mk conditions with_observed base oerr r tr \<Longrightarrow>
   reports_status l mk conditions with_observed base oerr r (x # tr)"
  unfolding reports_status_def by (metis append_Cons)

text \<open>The operations return, and \<open>oerr\<close> is what they return.\<close>

definition ends_with :: "((error option \<times> 'o) \<times> 's) option \<Rightarrow> error option \<Rightarrow> bool" where
  "ends_with m oerr \<longleftrightarrow> (\<exists>obj s'. m = Some ((oerr, obj), s'))"

text \<open>The acknowledged update that puts the finalizer on an object.\<close>

definition finalizer_saved ::
  "lib \<Rightarrow> (('sp, 'st) kobj \<Rightarrow> kobject) \<Rightarrow> ('sp, 'st) kobj \<Rightarrow> 'c effect \<Rightarrow> bool" where
  "finalizer_saved l mk obj e \<longleftrightarrow>
     e = Kube (KUpdate (mk (obj\<lparr>o_meta := fst (AddFinalizer l (o_meta obj) finalizerName)\<rparr>))) None"

text \<open>Nothing is written but the object without the finalizer.\<close>

definition only_releases :: "lib \<Rightarrow> (('sp, 'st) kobj \<Rightarrow> kobject) \<Rightarrow> ('sp, 'st) kobj \<Rightarrow> 'c effect \<Rightarrow> bool" where
  "only_releases l mk obj e \<longleftrightarrow>
     (is_kube_write e \<longrightarrow>
       (\<exists>u. e = Kube (KUpdate (mk (obj\<lparr>o_meta := RemoveFinalizer l (o_meta obj) finalizerName\<rparr>))) u))"

lemma only_releases_simps [simp]:
  "\<not> is_kube_write e \<Longrightarrow> only_releases l mk obj e"
  "only_releases l mk obj (Kube (KUpdate (mk (obj\<lparr>o_meta := RemoveFinalizer l (o_meta obj) finalizerName\<rparr>))) u)"
  by (auto simp: only_releases_def)

text \<open>
  Nothing is written but the object with or without the finalizer, and its status. An object keeps
  its name when the API server takes an update.
\<close>

definition keeps_key :: "(('sp, 'st) kobj, 'w) kube_ops \<Rightarrow> bool" where
  "keeps_key ops \<longleftrightarrow>
     (\<forall>obj w obj'. fst (k_update ops obj w) = Inr obj' \<longrightarrow> object_key_of obj' = object_key_of obj)"

definition own_write :: "lib \<Rightarrow> (('sp, 'st) kobj \<Rightarrow> kobject) \<Rightarrow> ('sp, 'st) kobj \<Rightarrow> 'c effect \<Rightarrow> bool" where
  "own_write l mk obj e \<longleftrightarrow>
     (\<exists>u. e = Kube (KUpdate (mk (obj\<lparr>o_meta := fst (AddFinalizer l (o_meta obj) finalizerName)\<rparr>))) u)
     \<or> only_releases l mk obj e \<or> (\<exists>obj' u. object_key_of obj' = object_key_of obj \<and> e = Kube (KPatchStatus (mk obj')) u)"

locale publisher =
  fixes E :: "('c, 'w) env"
    and mk :: "('sp, 'st) kobj \<Rightarrow> kobject"
    and ops :: "(('sp, 'st) kobj, 'w) kube_ops"
    and conditions :: "'st \<Rightarrow> condition list"
    and with_conditions :: "condition list \<Rightarrow> 'st \<Rightarrow> 'st"
    and with_observed :: "int \<Rightarrow> 'st \<Rightarrow> 'st"
    and handleOps :: "('sp, 'st) kobj \<Rightarrow> (('c, 'w) sys, error option \<times> ('sp, 'st) kobj) go"
  assumes conditions_with_conditions: "conditions (with_conditions cs st) = cs"
    and conditions_with_observed: "conditions (with_observed g st) = conditions st"
    and ops_frame:
      "wlp (handleOps obj s) (\<lambda>(err, obj') s'. o_meta obj' = o_meta obj \<and> o_spec obj' = o_spec obj)"
    and ops_adds: "adds (handleOps obj s) s (\<lambda>r tr. True)"
begin

lemma publish_reports:
  assumes lib: "lib_ok (e_lib E)"
  shows "wlp (handleOps base s) (\<lambda>(oerr, obj) s1.
     adds (publish E mk ops conditions with_conditions with_observed handleOps base s) s
       (\<lambda>r tr. reports_status (e_lib E) mk conditions with_observed base oerr r tr))"
proof (rule wlpI, clarify)
  fix oerr obj s1
  assume run: "handleOps base s = Some ((oerr, obj), s1)"
  from run ops_frame [of base s] have meta: "o_meta obj = o_meta base" "o_spec obj = o_spec base"
    by (auto simp: wlp_def)
  from addsD [OF ops_adds run] obtain tr0 where tr0: "trace s1 = trace s @ tr0" by blast
  obtain cond res rerr where oc: "setReady_outcome oerr = (cond, res, rerr)"
    by (cases "setReady_outcome oerr") auto
  obtain s2 tr1 where
    sr: "setReady E (object_key_of obj) (conditions (o_status obj)) oerr s1 =
      Some (((res, rerr), SetStatusCondition (e_lib E) (conditions (o_status obj)) cond), s2)"
    and tr1: "trace s2 = trace s1 @ tr1"
    using setReady_Some [of E "object_key_of obj" "conditions (o_status obj)" oerr s1]
    by (auto simp: oc)
  have ready: "IsStatusConditionTrue (e_lib E) (SetStatusCondition (e_lib E) cs cond) typeReady
      \<longleftrightarrow> oerr = None" for cs
    using lib_okD(1) [OF lib, of cs cond] setReady_outcome_type [of oerr]
      setReady_outcome_status [of oerr]
    by (simp add: oc)
  let ?st = "with_conditions (SetStatusCondition (e_lib E) (conditions (o_status obj)) cond) (o_status obj)"
  define obj' where "obj' = obj\<lparr>o_status := if oerr = None
       then with_observed (om_Generation (o_meta obj)) ?st else ?st\<rparr>"
  have rep: "reports_status (e_lib E) mk conditions with_observed base oerr r (xs @ [Kube (KPatchStatus (mk obj')) u])"
    if "u = None \<longrightarrow> r = (res, rerr)" for xs u r
    unfolding reports_status_def
    by (rule exI [of _ xs], rule exI [of _ obj'], rule exI [of _ u])
      (use that in \<open>auto simp: obj'_def meta ready oc conditions_with_conditions conditions_with_observed\<close>)
  have pub: "publish E mk ops conditions with_conditions with_observed handleOps base s = do {
      (perr, s) \<leftarrow> kube_patch_status mk ops base obj' s2;
      (case perr of
         Inl pe \<Rightarrow>
           if rerr = None then Some ((no_requeue, IgnoreNotFound (e_lib E) (Some pe)), s)
           else Some ((res, rerr), s)
       | Inr _ \<Rightarrow> Some ((res, rerr), s)) }"
    by (simp add: obj'_def publish_def run sr ready conditions_with_conditions Let_def)
  show "adds (publish E mk ops conditions with_conditions with_observed handleOps base s) s
       (\<lambda>r tr. reports_status (e_lib E) mk conditions with_observed base oerr r tr)"
    using rep [of _ _ "tr0 @ tr1"]
    by (auto simp: pub adds_def tr0 tr1 kube_patch_status_def perform_def Let_def split: sum.split)
qed

text \<open>The same, of the result of the whole.\<close>

lemma publish_published:
  assumes "lib_ok (e_lib E)"
  shows "adds (publish E mk ops conditions with_conditions with_observed handleOps base s) s
    (\<lambda>r tr. \<exists>oerr. ends_with (handleOps base s) oerr
       \<and> reports_status (e_lib E) mk conditions with_observed base oerr r tr)"
proof (cases "handleOps base s")
  case None
  then show ?thesis by (simp add: publish_def adds_panic)
next
  case (Some x)
  obtain oerr obj s1 where x: "x = ((oerr, obj), s1)" by (cases x) auto
  from wlpD [OF publish_reports [OF assms] Some [unfolded x]]
  show ?thesis by (auto simp: ends_with_def Some x elim!: adds_weaken)
qed

lemma publish_writes:
  assumes "\<And>s. adds_all (handleOps base s) s p" and event: "\<And>ev. is_event ev \<Longrightarrow> p ev"
    and patch: "\<And>obj u. object_key_of obj = object_key_of base \<Longrightarrow> p (Kube (KPatchStatus (mk obj)) u)"
  shows "adds_all (publish E mk ops conditions with_conditions with_observed handleOps base s) s p"
proof -
  have ready: "adds_all (setReady E k cs err s) s p" for k cs err and s :: "('c, 'w) sys"
    using setReady_Some [of E k cs err s] event by (auto simp: adds_all_def adds_def list_all_iff)
  show ?thesis
    unfolding publish_def Let_def
    by (rule adds_all_bind_if [OF assms(1) ops_frame])
      (auto intro!: adds_all_bind [OF ready] adds_all_bind adds_all_ret adds_all_perform patch
        simp: kube_patch_status_def object_key_of_def split: sum.split)
qed

lemma publish_adds:
  "adds (publish E mk ops conditions with_conditions with_observed handleOps base s) s (\<lambda>_ _. True)"
  unfolding publish_def
  by (rule adds_bind [OF ops_adds], clarsimp)
    (auto simp: adds_def kube_patch_status_def perform_def Let_def setReady_def warn_def
      split: prod.splits sum.splits if_splits option.splits)

end

locale reconciler =
  publisher E mk ops conditions with_conditions with_observed handleOps
  for E :: "('c, 'w) env"
    and mk :: "('sp, 'st) kobj \<Rightarrow> kobject" and ops and conditions and with_conditions and with_observed
    and handleOps +
  fixes kd :: kind
    and handleDelete :: "('sp, 'st) kobj \<Rightarrow> (('c, 'w) sys, ctrl_result \<times> error option) go"
    and reconcile :: "object_key \<Rightarrow> (('c, 'w) sys, ctrl_result \<times> error option) go"
  assumes reconcile_eq:
      "reconcile req s =
         reconcile_with E kd mk ops conditions with_conditions with_observed handleDelete handleOps req s"
    and ops_write_nothing: "adds_all (handleOps obj s) s (\<lambda>e. \<not> is_kube_write e)"
    and delete_releases: "adds_all (handleDelete obj s) s (only_releases (e_lib E) mk obj)"
begin

definition fetched :: "object_key \<Rightarrow> ('c, 'w) sys \<Rightarrow> ('c, 'w) sys" where
  "fetched req s = logged s (snd (k_get ops req (world s)))
     (Kube (KGet kd req) (err_of (fst (k_get ops req (world s)))))"

lemma kube_get_fetched: "kube_get kd ops req s = Some (fst (k_get ops req (world s)), fetched req s)"
  by (simp add: kube_get_def perform_def fetched_def Let_def)

text \<open>An object that is gone or cannot be read: nothing but the read happens.\<close>

lemma reconcile_get_error:
  "fst (k_get ops req (world s)) = Inl e \<Longrightarrow>
   reconcile req s = Some ((no_requeue, IgnoreNotFound (e_lib E) (Some e)), fetched req s)"
  by (simp add: reconcile_eq reconcile_with_def kube_get_fetched)

lemma reconcile_disabled:
  "fst (k_get ops req (world s)) = Inr obj \<Longrightarrow> reconcileDisabled (o_meta obj) \<Longrightarrow>
   reconcile req s = Some ((no_requeue, None), fetched req s)"
  by (simp add: reconcile_eq reconcile_with_def kube_get_fetched)

lemma reconcile_deleting:
  "fst (k_get ops req (world s)) = Inr obj \<Longrightarrow> \<not> reconcileDisabled (o_meta obj) \<Longrightarrow>
   om_DeletionTimestamp (o_meta obj) \<noteq> None \<Longrightarrow>
   reconcile req s = do {
     ((res, err), s) \<leftarrow> handleDelete obj (fetched req s);
     Some ((res, err), warn E (object_key_of obj) ''DeleteFailed'' err s)
   }"
  by (simp add: reconcile_eq reconcile_with_def kube_get_fetched)

lemma reconcile_active:
  "fst (k_get ops req (world s)) = Inr obj \<Longrightarrow> \<not> reconcileDisabled (o_meta obj) \<Longrightarrow>
   om_DeletionTimestamp (o_meta obj) = None \<Longrightarrow>
   reconcile req s = do {
     ((err, obj), s) \<leftarrow> finalizer_step E mk ops obj (fetched req s);
     (case err of
        Some e \<Rightarrow> Some ((no_requeue, Some e), s)
      | None \<Rightarrow> publish E mk ops conditions with_conditions with_observed handleOps obj s)
   }"
  by (simp add: reconcile_eq reconcile_with_def kube_get_fetched)

lemma reconcile_finalizer_first:
  assumes get: "fst (k_get ops req (world s)) = Inr obj"
    and active: "om_DeletionTimestamp (o_meta obj) = None"
    and missing: "snd (AddFinalizer (e_lib E) (o_meta obj) finalizerName)"
  shows "adds (reconcile req s) s (\<lambda>r tr. preceded (finalizer_saved (e_lib E) mk obj) is_oxide_call tr)"
proof (cases "reconcileDisabled (o_meta obj)")
  case True
  with get show ?thesis
    by (simp add: reconcile_disabled adds_def fetched_def)
next
  case False
  let ?obj = "obj\<lparr>o_meta := fst (AddFinalizer (e_lib E) (o_meta obj) finalizerName)\<rparr>"
  let ?s = "fetched req s"
  have "adds (do { ((err, obj), s) \<leftarrow> finalizer_step E mk ops obj ?s;
           (case err of
              Some e \<Rightarrow> Some ((no_requeue, Some e), s)
            | None \<Rightarrow> publish E mk ops conditions with_conditions with_observed handleOps obj s) })
        ?s (\<lambda>r tr. preceded (finalizer_saved (e_lib E) mk obj) is_oxide_call tr)"
  proof (rule adds_bind [where R = "\<lambda>(err, o') tr.
      tr = [Kube (KUpdate (mk ?obj)) err]"])
    show "adds (finalizer_step E mk ops obj ?s) ?s (\<lambda>(err, o') tr. tr = [Kube (KUpdate (mk ?obj)) err])"
      using missing
      by (auto simp: finalizer_step_def adds_def kube_update_def perform_def Let_def
          split: prod.splits sum.splits)
  qed (auto simp: finalizer_saved_def split: option.splits intro!: adds_ret adds_weaken [OF publish_adds])
  with get active False show ?thesis
    by (auto simp: reconcile_active adds_def fetched_def elim!: wlp_mono)
qed

end

context reconciler
begin

text \<open>A reconcile does not panic if its operations do not, on the objects the API server hands out.\<close>

lemma reconcile_runs:
  assumes get: "\<And>obj. fst (k_get ops req (world s)) = Inr obj \<Longrightarrow> good obj"
    and update: "\<And>obj w obj'. good obj \<Longrightarrow> fst (k_update ops obj w) = Inr obj' \<Longrightarrow> good obj'"
    and fin: "\<And>obj. good obj \<Longrightarrow> good (obj\<lparr>o_meta := fst (AddFinalizer (e_lib E) (o_meta obj) finalizerName)\<rparr>)"
    and handleOps: "\<And>obj s. good obj \<Longrightarrow> runs (handleOps obj s)"
    and handleDelete: "\<And>obj s. good obj \<Longrightarrow> runs (handleDelete obj s)"
  shows "runs (reconcile req s)"
proof -
  have pub: "runs (publish E mk ops conditions with_conditions with_observed handleOps base s)"
    if "good base" for base s
    unfolding publish_def Let_def
    by (auto intro!: runs_rules handleOps that simp: setReady_def split: sum.split prod.split)
  have fstep: "wp (finalizer_step E mk ops obj s) (\<lambda>(err, obj') s'. err = None \<longrightarrow> good obj')"
    if "good obj" for obj s
    using that fin [OF that] update [OF fin [OF that]]
    by (auto simp: finalizer_step_def kube_update_def perform_def Let_def wp_def split: prod.split sum.split)
  show ?thesis
  proof (cases "fst (k_get ops req (world s))")
    case (Inl e)
    then show ?thesis by (simp add: reconcile_get_error runs_Some)
  next
    case (Inr obj)
    note obj = get [OF Inr]
    obtain err obj' s' where st: "finalizer_step E mk ops obj (fetched req s) = Some ((err, obj'), s')"
      and obj': "err = None \<longrightarrow> good obj'"
      using fstep [OF obj, of "fetched req s"] by (auto simp: wp_iff)
    have active: "runs (do {
        ((err, obj), s) \<leftarrow> finalizer_step E mk ops obj (fetched req s);
        (case err of
           Some e \<Rightarrow> Some ((no_requeue, Some e), s)
         | None \<Rightarrow> publish E mk ops conditions with_conditions with_observed handleOps obj s) })"
      using pub obj' by (auto simp: st runs_Some split: option.split)
    show ?thesis
      using Inr active
      by (cases "reconcileDisabled (o_meta obj)"; cases "om_DeletionTimestamp (o_meta obj)")
        (auto simp: reconcile_disabled reconcile_deleting reconcile_active intro!: runs_rules handleDelete obj)
  qed
qed

lemma reconcile_deleting_runs:
  assumes "fst (k_get ops req (world s)) = Inr obj" and "om_DeletionTimestamp (o_meta obj) \<noteq> None"
    and "\<And>s. runs (handleDelete obj s)"
  shows "runs (reconcile req s)"
  using assms
  by (cases "reconcileDisabled (o_meta obj)")
    (auto simp: reconcile_disabled reconcile_deleting simp del: not_None_eq intro!: runs_rules)

text \<open>What a deletion adds is what \<^verbatim>\<open>handleDelete\<close> adds, between a read and events.\<close>

lemma adds_deleting:
  assumes get: "fst (k_get ops req (world s)) = Inr obj"
    and deleting: "om_DeletionTimestamp (o_meta obj) \<noteq> None"
    and del: "\<And>s. adds (handleDelete obj s) s (\<lambda>r tr. P tr)"
    and P: "\<And>u tr ev. P tr \<Longrightarrow> list_all is_event ev \<Longrightarrow> P (Kube (KGet kd req) u # tr @ ev)"
    and nil: "P []"
  shows "adds (reconcile req s) s (\<lambda>r tr. P tr)"
proof (cases "reconcileDisabled (o_meta obj)")
  case True
  have "P [Kube (KGet kd req) None]" using P [OF nil, of "[]"] by simp
  with True get show ?thesis
    by (simp add: reconcile_disabled adds_def fetched_def)
next
  case False
  have "adds (do { ((res, err), s) \<leftarrow> handleDelete obj (fetched req s);
             Some ((res, err), warn E (object_key_of obj) ''DeleteFailed'' err s) })
          (fetched req s) (\<lambda>r tr. \<exists>tr' ev. tr = tr' @ ev \<and> P tr' \<and> list_all is_event ev)"
  proof (rule adds_bind [OF del], clarsimp)
    fix res err tr and s' :: "('c, 'w) sys"
    assume "P tr"
    then show "adds (Some ((res, err), warn E (object_key_of obj) ''DeleteFailed'' err s')) s'
        (\<lambda>b tr'. \<exists>tr'' ev. tr @ tr' = tr'' @ ev \<and> P tr'' \<and> list_all is_event ev)"
      using warn_trace [of E "object_key_of obj" "''DeleteFailed''" err s']
      by (fastforce simp: adds_def)
  qed
  with get deleting False show ?thesis
    by (auto simp: reconcile_deleting adds_def fetched_def elim!: wlp_mono intro!: P)
qed

text \<open>What a reconcile writes to the API server.\<close>

lemma finalizer_step_key:
  assumes "lib_ok (e_lib E)" and "keeps_key ops"
  shows "wlp (finalizer_step E mk ops obj s) (\<lambda>(err, obj') s'. object_key_of obj' = object_key_of obj)"
  using assms(2)
  by (auto simp: finalizer_step_def lib_okD(3) [OF assms(1)] kube_update_def perform_def keeps_key_def Let_def
      wlp_def object_key_of_def split: sum.split)

lemma reconcile_own_writes:
  assumes lib: "lib_ok (e_lib E)" and key: "keeps_key ops"
    and get: "fst (k_get ops req (world s)) = Inr obj"
  shows "adds (reconcile req s) s (\<lambda>r tr. list_all (own_write (e_lib E) mk obj) tr)"
proof -
  have quiet: "own_write (e_lib E) mk obj e" if "\<not> is_kube_write e" for e :: "'c effect"
    using that by (simp add: own_write_def)
  have pub: "adds_all (publish E mk ops conditions with_conditions with_observed handleOps base s) s (own_write (e_lib E) mk obj)"
    if "object_key_of base = object_key_of obj" for base s
    by (rule publish_writes, rule adds_all_weaken [OF ops_write_nothing])
      (auto simp: own_write_def that dest: event_no_write)
  have fin: "adds_all (finalizer_step E mk ops obj s) s (own_write (e_lib E) mk obj)" for s
    unfolding finalizer_step_def Let_def
    by (auto intro!: adds_all_intros simp: own_write_def split: prod.split sum.split)
  consider "reconcileDisabled (o_meta obj)"
    | "\<not> reconcileDisabled (o_meta obj)" "om_DeletionTimestamp (o_meta obj) \<noteq> None"
    | "\<not> reconcileDisabled (o_meta obj)" "om_DeletionTimestamp (o_meta obj) = None" by blast
  then show ?thesis
  proof cases
    case 1
    then show ?thesis using get by (simp add: reconcile_disabled adds_def fetched_def quiet)
  next
    case 2
    have "adds (handleDelete obj s) s (\<lambda>r tr. list_all (own_write (e_lib E) mk obj) tr)" for s
      by (rule adds_allD, rule adds_all_weaken [OF delete_releases]) (simp add: own_write_def)
    with get 2(2) show ?thesis
      by (rule adds_deleting) (auto simp: quiet list_all_iff dest!: event_no_write)
  next
    case 3
    have "adds_all (do {
        ((err, obj), s) \<leftarrow> finalizer_step E mk ops obj (fetched req s);
        (case err of
           Some e \<Rightarrow> Some ((no_requeue, Some e), s)
         | None \<Rightarrow> publish E mk ops conditions with_conditions with_observed handleOps obj s) })
      (fetched req s) (own_write (e_lib E) mk obj)"
      by (rule adds_all_bind_if [OF fin finalizer_step_key [OF lib key]]) (auto intro!: pub adds_all_ret split: option.split)
    with get 3 show ?thesis
      by (auto simp: reconcile_active adds_all_def adds_def fetched_def quiet elim!: wlp_mono)
  qed
qed

text \<open>With the finalizer in place, a reconcile publishes what its operations found.\<close>

lemma reconcile_published:
  assumes lib: "lib_ok (e_lib E)"
    and get: "fst (k_get ops req (world s)) = Inr obj"
    and active: "\<not> reconcileDisabled (o_meta obj)" "om_DeletionTimestamp (o_meta obj) = None"
    and fin: "finalizerName \<in> set (om_Finalizers (o_meta obj))"
  shows "adds (reconcile req s) s (\<lambda>r tr. \<exists>oerr. ends_with (handleOps obj (fetched req s)) oerr
     \<and> reports_status (e_lib E) mk conditions with_observed obj oerr r tr)"
proof -
  have "AddFinalizer (e_lib E) (o_meta obj) finalizerName = (o_meta obj, False)"
    using lib_okD(3) [OF lib] fin by simp
  then have "reconcile req s
      = publish E mk ops conditions with_conditions with_observed handleOps obj (fetched req s)"
    using get active by (simp add: reconcile_active finalizer_step_def)
  with publish_published [OF lib, of obj "fetched req s"] show ?thesis
    by (auto simp: adds_def fetched_def elim!: wlp_mono intro: reports_status_Cons)
qed

text \<open>An object that has opted out, or that is gone, causes one read and nothing else.\<close>

lemma reconcile_only_reads:
  assumes "reconcileDisabled (o_meta obj)" and "fst (k_get ops req (world s)) = Inr obj"
  shows "adds (reconcile req s) s (\<lambda>r tr. r = (no_requeue, None) \<and> tr = [Kube (KGet kd req) None])"
  using assms by (simp add: reconcile_disabled adds_def fetched_def)

end

locale deleter =
  fixes E :: "('c, 'w) env"
    and handleDelete :: "('sp, 'st) kobj \<Rightarrow> (('c, 'w) sys, ctrl_result \<times> error option) go"
    and protection :: "('sp, 'st) kobj \<Rightarrow> bool"
    and gone :: "('sp, 'st) kobj \<Rightarrow> 'c effect \<Rightarrow> bool"
  assumes delete_released:
      "\<not> ContainsFinalizer (e_lib E) (o_meta obj) finalizerName \<Longrightarrow>
       handleDelete obj s = Some ((no_requeue, None), s)"
    and delete_guarded:
      "\<not> protection obj \<Longrightarrow>
       adds (handleDelete obj s) s (\<lambda>r tr. preceded (gone obj) is_kube_update tr)"
    and delete_protected:
      "protection obj \<Longrightarrow>
       adds (handleDelete obj s) s (\<lambda>r tr. list_all (\<lambda>e. \<not> is_oxide_call e) tr)"
    and delete_makes_nothing:
      "adds (handleDelete obj s) s (\<lambda>r tr. list_all (\<lambda>e. \<not> is_oxide_create e) tr)"

text \<open>
  Most controllers delete in the same way: an object without the finalizer is done with; an object
  that is not protected goes through a block that deletes its Oxide resource and returns early with
  an error; then the finalizer is dropped. The block's law is that it has seen the resource gone
  when it does not return early.
\<close>

definition delete_with ::
  "('c, 'w) env \<Rightarrow> (('sp, 'st) kobj \<Rightarrow> kobject) \<Rightarrow> (('sp, 'st) kobj, 'w) kube_ops
   \<Rightarrow> (('sp, 'st) kobj \<Rightarrow> bool) \<Rightarrow> (('sp, 'st) kobj \<Rightarrow> (('c, 'w) sys, error option) go)
   \<Rightarrow> ('sp, 'st) kobj \<Rightarrow> (('c, 'w) sys, error option) go" where
  "delete_with E mk ops protection block obj s =
     (if \<not> ContainsFinalizer (e_lib E) (o_meta obj) finalizerName then Some (None, s)
      else do {
        (early, s) \<leftarrow> (if \<not> protection obj then block obj s else Some (None, s));
        (case early of
           Some err \<Rightarrow> Some (Some err, s)
         | None \<Rightarrow> do {
             let obj = obj\<lparr>o_meta := RemoveFinalizer (e_lib E) (o_meta obj) finalizerName\<rparr>;
             (r, s) \<leftarrow> kube_update mk ops obj s;
             Some (IgnoreNotFound (e_lib E) (err_of r), s)
           })
      })"

lemma runs_with_no_requeue: "runs (del obj s) \<Longrightarrow> runs (with_no_requeue del obj s)"
  unfolding with_no_requeue_def by (auto intro!: runs_rules)

lemma runs_delete_with:
  "(\<And>s. runs (block obj s)) \<Longrightarrow> runs (delete_with E mk ops protection block obj s)"
  unfolding delete_with_def Let_def by (auto intro!: runs_rules split: option.split)

definition harmless :: "'c effect \<Rightarrow> bool" where
  "harmless e \<longleftrightarrow> \<not> is_kube_write e \<and> \<not> is_oxide_create e"

definition gone_unless_early ::
  "('c effect \<Rightarrow> bool) \<Rightarrow> error option \<Rightarrow> 'c effect list \<Rightarrow> bool" where
  "gone_unless_early gone early tr \<longleftrightarrow>
     list_all harmless tr \<and> (early = None \<longrightarrow> (\<exists>x \<in> set tr. gone x))"

lemma harmlessD:
  "list_all harmless tr \<Longrightarrow> list_all (\<lambda>e. \<not> is_kube_update e) tr"
  "list_all harmless tr \<Longrightarrow> list_all (\<lambda>e. \<not> is_oxide_create e) tr"
  "list_all harmless tr \<Longrightarrow> list_all (\<lambda>e. \<not> is_kube_write e) tr"
  by (auto simp: list_all_iff harmless_def dest: update_is_write)

lemma harmless_no_write: "harmless e \<Longrightarrow> \<not> is_kube_write e"
  by (simp add: harmless_def)

lemma harmless_simps [simp]:
  "harmless (Event ev)"
  "harmless (Unregister k)"
  "harmless (Http u er)"
  "harmless (Kube (KGet kd key) er)"
  "harmless (Kube (KList kd) er)"
  "harmless (Oxide oc q er) = (\<not> is_create q)"
  by (simp_all add: harmless_def)

lemma list_all_events_harmless: "list_all is_event tr \<Longrightarrow> list_all harmless tr"
  by (auto simp: list_all_iff elim!: is_event.elims)

locale block_deleter =
  fixes E :: "('c, 'w) env"
    and mk :: "('sp, 'st) kobj \<Rightarrow> kobject"
    and ops :: "(('sp, 'st) kobj, 'w) kube_ops"
    and protection :: "('sp, 'st) kobj \<Rightarrow> bool"
    and block :: "('sp, 'st) kobj \<Rightarrow> (('c, 'w) sys, error option) go"
    and gone :: "('sp, 'st) kobj \<Rightarrow> 'c effect \<Rightarrow> bool"
    and handleDelete :: "('sp, 'st) kobj \<Rightarrow> (('c, 'w) sys, error option) go"
  assumes handleDelete_eq: "handleDelete obj s = delete_with E mk ops protection block obj s"
    and block_law: "adds (block obj s) s (gone_unless_early (gone obj))"

sublocale block_deleter \<subseteq> deleter E "with_no_requeue handleDelete" protection gone
proof unfold_locales
  fix obj :: "('sp, 'st) kobj" and s
  assume "\<not> ContainsFinalizer (e_lib E) (o_meta obj) finalizerName"
  then show "with_no_requeue handleDelete obj s = Some ((no_requeue, None), s)"
    by (simp add: with_no_requeue_def handleDelete_eq delete_with_def)
next
  fix obj :: "('sp, 'st) kobj" and s
  assume "\<not> protection obj"
  then show "adds (with_no_requeue handleDelete obj s) s (\<lambda>r. preceded (gone obj) is_kube_update)"
    unfolding handleDelete_eq delete_with_def Let_def kube_update_def
    by (intro adds_with_no_requeue)
      (auto simp: handleDelete_eq delete_with_def gone_unless_early_def preceded_append preceded_no_A
        dest!: harmlessD(1) split: option.split
        intro!: adds_ret adds_bind [OF block_law] adds_perform_bind)
next
  fix obj :: "('sp, 'st) kobj" and s
  assume "protection obj"
  then show "adds (with_no_requeue handleDelete obj s) s (\<lambda>r. list_all (\<lambda>e. \<not> is_oxide_call e))"
    by (intro adds_with_no_requeue)
      (auto simp: handleDelete_eq delete_with_def kube_update_def Let_def intro!: adds_ret adds_perform_bind)
next
  fix obj :: "('sp, 'st) kobj" and s
  show "adds (with_no_requeue handleDelete obj s) s (\<lambda>r. list_all (\<lambda>e. \<not> is_oxide_create e))"
    by (intro adds_with_no_requeue)
      (auto simp: handleDelete_eq delete_with_def gone_unless_early_def kube_update_def Let_def
        dest!: harmlessD(2) split: option.split
        intro!: adds_ret adds_bind [OF block_law] adds_perform_bind)
qed

context block_deleter
begin

lemma handleDelete_releases: "adds_all (with_no_requeue handleDelete obj s) s (only_releases (e_lib E) mk obj)"
proof -
  have block: "adds_all (block obj s) s (\<lambda>e. \<not> is_kube_write e)" for s
    unfolding adds_all_def by (rule adds_weaken [OF block_law]) (auto simp: gone_unless_early_def harmlessD)
  have "adds_all (handleDelete obj s) s (only_releases (e_lib E) mk obj)" for s
    unfolding handleDelete_eq delete_with_def Let_def
    by (auto intro!: adds_all_ret adds_all_bind adds_all_kube_update adds_all_weaken [OF block] split: option.split)
  then show ?thesis
    unfolding with_no_requeue_def by (auto intro!: adds_all_bind adds_all_ret)
qed

end

locale managed =
  reconciler E mk ops conditions with_conditions with_observed handleOps kd handleDelete reconcile
  + deleter E handleDelete protection gone
  for E :: "('c, 'w) env"
    and mk :: "('sp, 'st) kobj \<Rightarrow> kobject" and ops and conditions and with_conditions
    and with_observed and handleOps and kd and handleDelete and reconcile and protection and gone
begin

text \<open>The finalizer of a deleted object goes only once its Oxide resource is gone, or if the object
  is protected; and a protected object's Oxide resource is never touched.\<close>

lemma reconcile_delete_guarded:
  assumes "fst (k_get ops req (world s)) = Inr obj"
    and "om_DeletionTimestamp (o_meta obj) \<noteq> None"
    and "\<not> protection obj"
  shows "adds (reconcile req s) s (\<lambda>r tr. preceded (gone obj) is_kube_update tr)"
  using assms(1,2) delete_guarded [OF assms(3)]
  by (rule adds_deleting) (auto intro: preceded_append_no_A events_harmless)

lemma reconcile_delete_protected:
  assumes "fst (k_get ops req (world s)) = Inr obj"
    and "om_DeletionTimestamp (o_meta obj) \<noteq> None"
    and "protection obj"
  shows "adds (reconcile req s) s (\<lambda>r tr. list_all (\<lambda>e. \<not> is_oxide_call e) tr)"
  using assms(1,2) delete_protected [OF assms(3)]
  by (rule adds_deleting) (auto intro: events_harmless)

lemma reconcile_delete_makes_nothing:
  assumes "fst (k_get ops req (world s)) = Inr obj"
    and "om_DeletionTimestamp (o_meta obj) \<noteq> None"
  shows "adds (reconcile req s) s (\<lambda>r tr. list_all (\<lambda>e. \<not> is_oxide_create e) tr)"
  using assms delete_makes_nothing
  by (rule adds_deleting) (auto intro: events_harmless)

text \<open>The three together.\<close>

lemma reconcile_delete_protocol:
  assumes "fst (k_get ops req (world s)) = Inr obj"
    and "om_DeletionTimestamp (o_meta obj) \<noteq> None"
  shows "adds (reconcile req s) s (\<lambda>r tr.
     list_all (\<lambda>e. \<not> is_oxide_create e) tr
     \<and> (if protection obj then list_all (\<lambda>e. \<not> is_oxide_call e) tr
        else preceded (gone obj) is_kube_update tr))"
proof (cases "protection obj")
  case True
  with adds_conj [OF reconcile_delete_makes_nothing [OF assms] reconcile_delete_protected [OF assms True]]
  show ?thesis by simp
next
  case False
  with adds_conj [OF reconcile_delete_makes_nothing [OF assms] reconcile_delete_guarded [OF assms False]]
  show ?thesis by simp
qed

end

end
