(* ===== verification/Reference_Env.thy ===== *)
theory Reference_Env
  imports Helpers
begin

text \<open>
  A concrete outside world: library functions that behave as \<open>lib_ok\<close> asks, an API server that holds
  nothing, and an Oxide that knows nothing and accepts everything. Theorems with hypotheses on the
  environment are applied to variations of it, which shows that the hypotheses can hold.
\<close>

definition set_condition :: "condition list \<Rightarrow> condition \<Rightarrow> condition list" where
  "set_condition cs c = c # filter (\<lambda>x. cond_Type x \<noteq> cond_Type c) cs"

definition condition_true :: "condition list \<Rightarrow> string \<Rightarrow> bool" where
  "condition_true cs t =
     (case List.find (\<lambda>x. cond_Type x = t) cs of None \<Rightarrow> False | Some c \<Rightarrow> cond_Status c = ConditionTrue)"

definition add_finalizer :: "object_meta \<Rightarrow> string \<Rightarrow> object_meta \<times> bool" where
  "add_finalizer m f =
     (if f \<in> set (om_Finalizers m) then (m, False)
      else (m\<lparr>om_Finalizers := om_Finalizers m @ [f]\<rparr>, True))"

definition ignore_not_found :: "error option \<Rightarrow> error option" where
  "ignore_not_found e =
     (case e of Some (KubeErr r m) \<Rightarrow> if r = ''NotFound'' then None else e | _ \<Rightarrow> e)"

definition is_conflict :: "error \<Rightarrow> bool" where
  "is_conflict e = (case e of KubeErr r m \<Rightarrow> r = ''Conflict'' | _ \<Rightarrow> False)"

definition state_text :: "instance_state \<Rightarrow> string" where
  "state_text st =
     (case st of
        InstanceStateRunning \<Rightarrow> ''running'' | InstanceStateStarting \<Rightarrow> ''starting''
      | InstanceStateRebooting \<Rightarrow> ''rebooting'' | InstanceStateMigrating \<Rightarrow> ''migrating''
      | InstanceStateStopped \<Rightarrow> ''stopped'' | InstanceStateStopping \<Rightarrow> ''stopping''
      | InstanceStateFailed \<Rightarrow> ''failed'' | InstanceStateOther t \<Rightarrow> t)"

definition lib0 :: lib where
  "lib0 =
     \<lparr>SetStatusCondition = set_condition, IsStatusConditionTrue = condition_true,
      AddFinalizer = add_finalizer,
      ContainsFinalizer = (\<lambda>m f. f \<in> set (om_Finalizers m)),
      RemoveFinalizer = (\<lambda>m f. m\<lparr>om_Finalizers := filter (\<lambda>x. x \<noteq> f) (om_Finalizers m)\<rparr>),
      IgnoreNotFound = ignore_not_found, IsConflict = is_conflict,
      NewQuantity = (\<lambda>n. \<lparr>q_Value = n, q_String = itoa n\<rparr>),
      DiskStateText = (\<lambda>_. ''state''), SnapshotStateText = (\<lambda>_. ''state''),
      InstanceStateText = state_text,
      Sha256Sum = (\<lambda>_. ''digest''),
      SetControllerReference = (\<lambda>_ m. Inr m)\<rparr>"

lemma lib0_ok: "lib_ok lib0"
  by (auto simp: lib_ok_def lib0_def set_condition_def condition_true_def add_finalizer_def
      ignore_not_found_def is_conflict_def split: option.split error.split)

definition not_found :: error where
  "not_found = KubeErr ''NotFound'' ''not found''"

definition ops0 :: "('o, 'w) kube_ops" where
  "ops0 = \<lparr>k_get = (\<lambda>_ w. (Inl not_found, w)), k_list = (\<lambda>w. (Inr [], w)),
     k_update = (\<lambda>o' w. (Inr o', w)), k_patch_status = (\<lambda>_ o' w. (Inr o', w))\<rparr>"

definition oxide_not_found :: error where
  "oxide_not_found = HTTPErr \<lparr>he_Method = ''GET'', he_RequestURI = ''/v1'', he_StatusCode = 404,
     he_ErrorResponse = Some \<lparr>ae_ErrorCode = ''ObjectNotFound'', ae_Message = ''gone'', ae_RequestId = ''1''\<rparr>,
     he_ObjectNotFound = True, he_HTTP400 = False, he_Text = ''not found''\<rparr>"

definition oxide0 :: "(nat, 'w) oxide_ops" where
  "oxide0 = \<lparr>ox_user = (\<lambda>_ _ w. (Inl oxide_not_found, w)), ox_project = (\<lambda>_ _ w. (Inl oxide_not_found, w)),
     ox_vpc = (\<lambda>_ _ w. (Inl oxide_not_found, w)), ox_subnet = (\<lambda>_ _ w. (Inl oxide_not_found, w)),
     ox_disk = (\<lambda>_ _ w. (Inl oxide_not_found, w)), ox_snapshot = (\<lambda>_ _ w. (Inl oxide_not_found, w)),
     ox_image = (\<lambda>_ _ w. (Inl oxide_not_found, w)), ox_instance = (\<lambda>_ _ w. (Inl oxide_not_found, w)),
     ox_ips = (\<lambda>_ _ w. (Inr [], w)), ox_done = (\<lambda>_ _ w. (None, w))\<rparr>"

definition env0 :: "(nat, 'w) env" where
  "env0 = \<lparr>e_lib = lib0, e_oxide = oxide0, e_new_client = (\<lambda>_. Inr 0),
     e_project = ops0, e_vpc = ops0, e_subnet = ops0, e_disk = ops0, e_snapshot = ops0, e_image = ops0,
     e_instance = ops0, e_set = ops0, e_conn = ops0,
     e_secret = (\<lambda>_ w. (Inl not_found, w)), e_secret_meta = (\<lambda>_ w. (Inr ''1'', w)),
     e_instance_create_or_patch = (\<lambda>o' f w. (f o', w)),
     e_instance_list_by_label = (\<lambda>_ _ _ w. (Inr [], w)),
     e_instance_delete = (\<lambda>_ w. (None, w)),
     e_new_http_request = (\<lambda>_. None),
     e_http_do = (\<lambda>_ w. (Inl (Plain ''no network''), w)),
     e_now = (\<lambda>_. 0)\<rparr>"

definition sys0 :: "(nat, unit) sys" where
  "sys0 = \<lparr>world = (), clients = (\<lambda>_. None), trace = []\<rparr>"

definition meta0 :: object_meta where
  "meta0 = \<lparr>om_Name = ''demo'', om_Namespace = ''default'', om_UID = ''0a1b2c3d-0000'', om_Generation = 1,
     om_ResourceVersion = ''1'', om_Annotations = (\<lambda>_. None), om_Labels = (\<lambda>_. None),
     om_Finalizers = [], om_OwnerReferences = [], om_DeletionTimestamp = None\<rparr>"

definition deleting :: object_meta where
  "deleting = meta0\<lparr>om_Finalizers := [finalizerName], om_DeletionTimestamp := Some 7\<rparr>"

definition resource0 :: resource_spec where
  "resource0 = \<lparr>rs_ConnectionRef = ''conn'', rs_DeletionProtection = False\<rparr>"

definition project_ref0 :: project_ref_spec where
  "project_ref0 = \<lparr>prs_Project = ''proj'', prs_ProjectRef = None\<rparr>"

definition status0 :: resource_status where
  "status0 = \<lparr>rst_ID = '''', rst_Project = '''', rst_Conditions = [], rst_ObservedGeneration = 0\<rparr>"

definition holding :: "'o \<Rightarrow> ('o, 'w) kube_ops" where
  "holding obj = ops0\<lparr>k_get := (\<lambda>_ w. (Inr obj, w))\<rparr>"

definition key0 :: object_key where
  "key0 = \<lparr>ok_Namespace = ''default'', ok_Name = ''demo''\<rparr>"

lemma env0_lib [simp]: "e_lib env0 = lib0"
  by (simp add: env0_def)

lemma env0_lib_ok: "lib_ok (e_lib env0)"
  by (simp add: lib0_ok)

lemma holding_get [simp]: "fst (k_get (holding obj) key w) = Inr obj"
  by (simp add: holding_def)

lemma meta0_simps [simp]:
  "om_DeletionTimestamp meta0 = None" "om_DeletionTimestamp deleting \<noteq> None"
  "om_Finalizers meta0 = []" "om_Finalizers deleting = [finalizerName]"
  "\<not> reconcileDisabled meta0" "\<not> reconcileDisabled deleting"
  by (simp_all add: meta0_def deleting_def reconcileDisabled_def map_get_def ReconcileModeDisable_def)

lemma lib0_AddFinalizer_meta0 [simp]: "snd (AddFinalizer lib0 meta0 finalizerName)"
  by (simp add: lib0_def add_finalizer_def)

end
