(* ===== verification/Closed_Loop.thy ===== *)
theory Closed_Loop
  imports Controller_Contract Reference_Env
begin

text \<open>
  Controllers in closed loop with the API server and Oxide: reconciles one after the other, with time
  passing in between. The theory states what such a run settles to, with a measure that shows it does
  (locale \<open>closed_loop\<close>), what the API server does for the object (\<open>serves_object\<close>), and what one
  reconcile of any controller amounts to then.
\<close>

section \<open>Runs that settle\<close>

text \<open>At most \<open>n\<close> passes: each is retried, until one is the last.\<close>

primrec settles ::
  "('s \<Rightarrow> ('r \<times> 's) option) \<Rightarrow> ('s \<Rightarrow> 's) \<Rightarrow> ('r \<Rightarrow> bool) \<Rightarrow> ('r \<Rightarrow> 's \<Rightarrow> bool) \<Rightarrow> nat \<Rightarrow> 's \<Rightarrow> bool" where
  "settles pass tick again final 0 s = False"
| "settles pass tick again final (Suc n) s =
     (case pass s of
        None \<Rightarrow> False
      | Some (r, s') \<Rightarrow> final r s' \<or> again r \<and> settles pass tick again final n (tick s'))"

locale closed_loop =
  fixes pass :: "'s \<Rightarrow> ('r \<times> 's) option"
    and tick :: "'s \<Rightarrow> 's"
    and again :: "'r \<Rightarrow> bool"
    and final :: "'r \<Rightarrow> 's \<Rightarrow> bool"
    and good :: "'s \<Rightarrow> bool"
    and left :: "'s \<Rightarrow> nat"
  assumes pass_advances:
    "good s \<Longrightarrow> \<exists>r s'. pass s = Some (r, s')
       \<and> (final r s' \<or> again r \<and> good (tick s') \<and> 0 < left (tick s') \<and> left (tick s') < left s)"
begin

lemma settles_within: "good s \<Longrightarrow> 0 < left s \<Longrightarrow> left s \<le> n \<Longrightarrow> settles pass tick again final n s"
proof (induction n arbitrary: s)
  case 0
  then show ?case by simp
next
  case (Suc n)
  from pass_advances [OF Suc.prems(1)] obtain r s' where r: "pass s = Some (r, s')"
      "final r s' \<or> again r \<and> good (tick s') \<and> 0 < left (tick s') \<and> left (tick s') < left s" by blast
  with Suc.IH [of "tick s'"] Suc.prems(3) show ?case by auto
qed

end

text \<open>The results of a reconcile: look again soon, without backoff; in sync; nothing more to do.\<close>

definition look_again :: "ctrl_result \<times> error option \<Rightarrow> bool" where
  "look_again r \<longleftrightarrow> r = (\<lparr>RequeueAfter = progressPeriod\<rparr>, None)"

definition in_sync_now :: "ctrl_result \<times> error option \<Rightarrow> bool" where
  "in_sync_now r \<longleftrightarrow> r = (\<lparr>RequeueAfter = resyncPeriod\<rparr>, None)"

definition over :: "ctrl_result \<times> error option \<Rightarrow> bool" where
  "over r \<longleftrightarrow> r = (no_requeue, None)"

lemma outcome_results:
  "in_sync_now (snd (setReady_outcome None))"
  "is_progressing e \<Longrightarrow> \<not> is_failed e \<Longrightarrow> look_again (snd (setReady_outcome (Some e)))"
  by (simp_all add: in_sync_now_def look_again_def setReady_outcome_def)

section \<open>The API server\<close>

text \<open>An object is stored with a new resource version.\<close>

definition stored_as :: "('sp, 'st) kobj \<Rightarrow> ('sp, 'st) kobj \<Rightarrow> bool" where
  "stored_as obj obj' \<longleftrightarrow> (\<exists>v. obj' = obj\<lparr>o_meta := (o_meta obj)\<lparr>om_ResourceVersion := v\<rparr>\<rparr>)"

text \<open>What the API server documents for one object that nobody else writes to: \<open>held\<close> reads the object
  off the outside world, and \<open>rest\<close> what else matters in it. The object is handed out as it is; an
  update of its present version is accepted, and one that leaves a deleted object without finalizers
  removes it; a status patch replaces the status.\<close>

definition serves_object ::
  "(('sp, 'st) kobj, 'w) kube_ops \<Rightarrow> object_key \<Rightarrow> ('w \<Rightarrow> ('sp, 'st) kobj option) \<Rightarrow> ('w \<Rightarrow> 'v) \<Rightarrow> bool" where
  "serves_object ops req held rest \<longleftrightarrow>
     (\<forall>w cur. held w = Some cur \<longrightarrow>
        (\<exists>w'. k_get ops req w = (Inr cur, w') \<and> held w' = held w \<and> rest w' = rest w))
   \<and> (\<forall>w cur obj. held w = Some cur \<longrightarrow> om_ResourceVersion (o_meta obj) = om_ResourceVersion (o_meta cur) \<longrightarrow>
        (\<exists>obj' w'. k_update ops obj w = (Inr obj', w') \<and> stored_as obj obj' \<and> rest w' = rest w
           \<and> held w' = (if om_DeletionTimestamp (o_meta obj) \<noteq> None \<and> om_Finalizers (o_meta obj) = [] then None
                        else Some obj')))
   \<and> (\<forall>w cur base obj. held w = Some cur \<longrightarrow>
        (\<exists>obj' w'. k_patch_status ops base obj w = (Inr obj', w') \<and> stored_as (cur\<lparr>o_status := o_status obj\<rparr>) obj'
           \<and> rest w' = rest w \<and> held w' = Some obj'))"

lemma serves_objectD:
  assumes "serves_object ops req held rest" and "held w = Some cur"
  shows "\<exists>w'. k_get ops req w = (Inr cur, w') \<and> held w' = held w \<and> rest w' = rest w"
    and "om_ResourceVersion (o_meta obj) = om_ResourceVersion (o_meta cur) \<Longrightarrow>
      \<exists>obj' w'. k_update ops obj w = (Inr obj', w') \<and> stored_as obj obj' \<and> rest w' = rest w
        \<and> held w' = (if om_DeletionTimestamp (o_meta obj) \<noteq> None \<and> om_Finalizers (o_meta obj) = [] then None
                     else Some obj')"
    and "\<exists>obj' w'. k_patch_status ops base obj w = (Inr obj', w') \<and> stored_as (cur\<lparr>o_status := o_status obj\<rparr>) obj'
        \<and> rest w' = rest w \<and> held w' = Some obj'"
  using assms unfolding serves_object_def by blast+

text \<open>A call that leaves the object alone: its answer and what it makes of the rest are as \<open>P\<close> says.\<close>

definition answers ::
  "('w \<Rightarrow> 'r \<times> 'w) \<Rightarrow> ('w \<Rightarrow> 'o) \<Rightarrow> ('w \<Rightarrow> 'v) \<Rightarrow> 'w \<Rightarrow> ('r \<Rightarrow> 'v \<Rightarrow> bool) \<Rightarrow> bool" where
  "answers call held rest w P \<longleftrightarrow> (case call w of (r, w') \<Rightarrow> held w' = held w \<and> P r (rest w'))"

lemma oxide_answers:
  assumes "answers (f oc q) held rest (world s) P"
  shows "\<exists>r s'. oxide f oc q s = Some (r, s') \<and> held (world s') = held (world s) \<and> P r (rest (world s'))"
  using assms by (cases "f oc q (world s)") (auto simp: answers_def oxide_def perform_def Let_def)

lemmas instance_answers = oxide_answers [where f = "ox_instance (e_oxide E)" for E]
lemmas ips_answers = oxide_answers [where f = "ox_ips (e_oxide E)" for E]
lemmas image_answers = oxide_answers [where f = "ox_image (e_oxide E)" for E]
lemmas disk_answers = oxide_answers [where f = "ox_disk (e_oxide E)" for E]
lemmas snapshot_answers = oxide_answers [where f = "ox_snapshot (e_oxide E)" for E]

lemma oxide_do_answers:
  assumes "answers (ox_done (e_oxide E) oc q) held rest (world s) P"
  shows "\<exists>r s'. oxide_do E oc q s = Some (r, s') \<and> held (world s') = held (world s) \<and> P r (rest (world s'))"
  using assms by (cases "ox_done (e_oxide E) oc q (world s)") (auto simp: answers_def oxide_do_def perform_def Let_def)

text \<open>A program that returns, leaves the object alone and ends with \<open>P\<close>.\<close>

definition goes ::
  "('a \<times> ('c, 'w) sys) option \<Rightarrow> ('w \<Rightarrow> 'o) \<Rightarrow> ('w \<Rightarrow> 'v) \<Rightarrow> ('c, 'w) sys \<Rightarrow> ('a \<Rightarrow> 'v \<Rightarrow> bool) \<Rightarrow> bool" where
  "goes m held rest s P \<longleftrightarrow> wp m (\<lambda>a s'. held (world s') = held (world s) \<and> P a (rest (world s')))"

lemma goes_ret: "P a (rest (world s)) \<Longrightarrow> world s' = world s \<Longrightarrow> goes (Some (a, s')) held rest s P"
  by (simp add: goes_def)

lemma goes_bind_held:
  assumes "goes m held rest s P"
    and "\<And>a s'. m = Some (a, s') \<Longrightarrow> held (world s') = held (world s) \<Longrightarrow> P a (rest (world s')) \<Longrightarrow>
      goes (f (a, s')) held rest s' Q"
  shows "goes (Option.bind m f) held rest s Q"
proof -
  from assms(1) obtain a s' where m: "m = Some (a, s')" "held (world s') = held (world s)" "P a (rest (world s'))"
    by (auto simp: goes_def wp_iff)
  from assms(2) [OF m] m show ?thesis by (simp add: goes_def)
qed

lemma goes_bind:
  assumes "goes m held rest s P"
    and "\<And>a s'. m = Some (a, s') \<Longrightarrow> P a (rest (world s')) \<Longrightarrow> goes (f (a, s')) held rest s' Q"
  shows "goes (Option.bind m f) held rest s Q"
  using assms by (rule goes_bind_held)

lemma goes_weaken: "goes m held rest s P \<Longrightarrow> (\<And>a v. P a v \<Longrightarrow> Q a v) \<Longrightarrow> goes m held rest s Q"
  by (auto simp: goes_def wp_iff)

lemma goesD: "goes m held rest s P \<Longrightarrow> \<exists>a s'. m = Some (a, s') \<and> held (world s') = held (world s) \<and> P a (rest (world s'))"
  by (simp add: goes_def wp_iff)

lemma goes_calls:
  "answers (ox_instance (e_oxide E) oc q) held rest (world s) P \<Longrightarrow> goes (oxide (ox_instance (e_oxide E)) oc q s) held rest s P"
  "answers (ox_image (e_oxide E) oc q) held rest (world s) P2 \<Longrightarrow> goes (oxide (ox_image (e_oxide E)) oc q s) held rest s P2"
  "answers (ox_disk (e_oxide E) oc q) held rest (world s) P3 \<Longrightarrow> goes (oxide (ox_disk (e_oxide E)) oc q s) held rest s P3"
  "answers (ox_snapshot (e_oxide E) oc q) held rest (world s) P4 \<Longrightarrow> goes (oxide (ox_snapshot (e_oxide E)) oc q s) held rest s P4"
  "answers (ox_done (e_oxide E) oc q) held rest (world s) P5 \<Longrightarrow> goes (oxide_do E oc q s) held rest s P5"
  "answers act held rest (world s) P6 \<Longrightarrow> goes (perform eff err act s) held rest s P6"
  by (auto simp: goes_def answers_def oxide_def oxide_do_def perform_def Let_def split: prod.splits)

text \<open>A connection whose client can always be had.\<close>

definition connects ::
  "(('c, 'w) sys \<Rightarrow> ((error + 'c) \<times> ('c, 'w) sys) option) \<Rightarrow> ('w \<Rightarrow> 'o) \<Rightarrow> ('w \<Rightarrow> 'v) \<Rightarrow> bool" where
  "connects client held rest \<longleftrightarrow>
     (\<forall>s. \<exists>oc s'. client s = Some (Inr oc, s') \<and> held (world s') = held (world s) \<and> rest (world s') = rest (world s))"

text \<open>The same resource: what its owner wrote, whatever the operator and the server added.\<close>

definition identity :: "object_meta \<Rightarrow> object_meta" where
  "identity m = m\<lparr>om_Finalizers := [], om_ResourceVersion := ''''\<rparr>"

definition same_resource :: "('sp, 'st) kobj \<Rightarrow> ('sp, 'st) kobj \<Rightarrow> bool" where
  "same_resource a b \<longleftrightarrow> o_spec a = o_spec b \<and> identity (o_meta a) = identity (o_meta b)"

lemma same_resource_refl [simp]: "same_resource a a"
  by (simp add: same_resource_def)

lemma same_resource_trans: "same_resource a b \<Longrightarrow> same_resource b c \<Longrightarrow> same_resource a c"
  by (simp add: same_resource_def)

lemma identity_eq:
  assumes "identity m = identity n"
  shows "om_Name m = om_Name n" "om_Namespace m = om_Namespace n" "om_UID m = om_UID n"
    "om_Generation m = om_Generation n" "om_Annotations m = om_Annotations n"
    "om_DeletionTimestamp m = om_DeletionTimestamp n"
  using assms by (auto simp: identity_def) (metis object_meta.ext_inject object_meta.surjective object_meta.update_convs)+

lemma same_resourceD:
  assumes "same_resource a b"
  shows "o_spec a = o_spec b" "om_Name (o_meta a) = om_Name (o_meta b)" "om_UID (o_meta a) = om_UID (o_meta b)"
    "om_Generation (o_meta a) = om_Generation (o_meta b)"
    "reconcileDisabled (o_meta a) = reconcileDisabled (o_meta b)"
    "om_DeletionTimestamp (o_meta a) = om_DeletionTimestamp (o_meta b)"
    "OxideName n (o_meta a) = OxideName n (o_meta b)"
  using assms identity_eq [of "o_meta a" "o_meta b"]
  by (simp_all add: same_resource_def reconcileDisabled_def OxideName_def)

section \<open>One reconcile\<close>

text \<open>The object with the status that is published after \<open>err\<close>.\<close>

definition published_as ::
  "lib \<Rightarrow> ('st \<Rightarrow> condition list) \<Rightarrow> (condition list \<Rightarrow> 'st \<Rightarrow> 'st) \<Rightarrow> (int \<Rightarrow> 'st \<Rightarrow> 'st)
   \<Rightarrow> error option \<Rightarrow> 'st \<Rightarrow> ('sp, 'st) kobj \<Rightarrow> bool" where
  "published_as l conditions with_conditions with_observed err st obj \<longleftrightarrow>
     IsStatusConditionTrue l (conditions (o_status obj)) typeReady = (err = None)
     \<and> (\<exists>cs. o_status obj = (if err = None then with_observed (om_Generation (o_meta obj)) (with_conditions cs st)
                            else with_conditions cs st))"

lemma stored_as_same:
  "stored_as a b \<Longrightarrow> same_resource a b \<and> o_status b = o_status a \<and> om_Finalizers (o_meta b) = om_Finalizers (o_meta a)"
  by (auto simp: stored_as_def same_resource_def identity_def)

context publisher
begin

lemma publish_pass:
  assumes lib: "lib_ok (e_lib E)" and serves: "serves_object ops req held rest"
    and ops: "handleOps base s = Some ((err, obj), s2)" and held: "held (world s2) = Some base"
  shows "\<exists>obj' s'. publish E mk ops conditions with_conditions with_observed handleOps base s
      = Some (snd (setReady_outcome err), s')
    \<and> rest (world s') = rest (world s2) \<and> held (world s') = Some obj' \<and> same_resource base obj'
    \<and> om_Finalizers (o_meta obj') = om_Finalizers (o_meta base)
    \<and> published_as (e_lib E) conditions with_conditions with_observed err (o_status obj) obj'"
proof -
  from ops ops_frame [of base s] have meta: "o_meta obj = o_meta base" "o_spec obj = o_spec base"
    by (auto simp: wlp_def)
  obtain cond res rerr where oc: "setReady_outcome err = (cond, res, rerr)"
    by (cases "setReady_outcome err") auto
  obtain s3 where
    sr: "setReady E (object_key_of obj) (conditions (o_status obj)) err s2 =
      Some (((res, rerr), SetStatusCondition (e_lib E) (conditions (o_status obj)) cond), s3)"
    and s3: "world s3 = world s2"
    using setReady_Some [of E "object_key_of obj" "conditions (o_status obj)" err s2]
    by (auto simp: oc)
  have ready: "IsStatusConditionTrue (e_lib E) (SetStatusCondition (e_lib E) cs cond) typeReady
      \<longleftrightarrow> err = None" for cs
    using lib_okD(1) [OF lib, of cs cond] setReady_outcome_type [of err]
      setReady_outcome_status [of err]
    by (simp add: oc)
  let ?cs = "SetStatusCondition (e_lib E) (conditions (o_status obj)) cond"
  let ?st = "with_conditions ?cs (o_status obj)"
  define st where "st = (if err = None then with_observed (om_Generation (o_meta base)) ?st else ?st)"
  have held3: "held (world s3) = Some base" by (simp add: s3 held)
  obtain obj' w' where patch: "k_patch_status ops base (obj\<lparr>o_status := st\<rparr>) (world s3) = (Inr obj', w')"
      "stored_as (base\<lparr>o_status := st\<rparr>) obj'" "rest w' = rest (world s3)" "held w' = Some obj'"
    using serves_objectD(3) [OF serves held3, of base "obj\<lparr>o_status := st\<rparr>"] by auto
  have same: "same_resource base obj'" "o_status obj' = st" "om_Finalizers (o_meta obj') = om_Finalizers (o_meta base)"
    using stored_as_same [OF patch(2)] by (auto simp: same_resource_def)
  have pub: "publish E mk ops conditions with_conditions with_observed handleOps base s = do {
      (perr, s) \<leftarrow> kube_patch_status mk ops base (obj\<lparr>o_status := st\<rparr>) s3;
      (case perr of
         Inl pe \<Rightarrow>
           if rerr = None then Some ((no_requeue, IgnoreNotFound (e_lib E) (Some pe)), s)
           else Some ((res, rerr), s)
       | Inr _ \<Rightarrow> Some ((res, rerr), s)) }"
    by (simp add: publish_def ops sr st_def ready conditions_with_conditions meta Let_def)
  have pub: "publish E mk ops conditions with_conditions with_observed handleOps base s
      = Some ((res, rerr), logged s3 w' (Kube (KPatchStatus (mk (obj\<lparr>o_status := st\<rparr>))) None))"
    using patch(1) by (simp add: pub kube_patch_status_def perform_def Let_def)
  have "published_as (e_lib E) conditions with_conditions with_observed err (o_status obj) obj'"
    using same_resourceD(4) [OF same(1)]
    by (auto simp: published_as_def same(2) st_def ready conditions_with_conditions conditions_with_observed)
  with pub patch(3,4) same(1,3) s3 show ?thesis
    by (simp add: oc)
qed

end

text \<open>A reconcile of an active object runs its operations on the object with the finalizer and
  publishes what they found.\<close>

context reconciler
begin

lemma fetched_world:
  "k_get ops req (world s) = (r, w') \<Longrightarrow> world (fetched req s) = w'"
  by (simp add: fetched_def)

lemma reconcile_pass:
  assumes lib: "lib_ok (e_lib E)" and serves: "serves_object ops req held rest"
    and held: "held (world s) = Some obj"
    and active: "\<not> reconcileDisabled (o_meta obj)" "om_DeletionTimestamp (o_meta obj) = None"
    and ops: "\<And>base s1. same_resource obj base \<Longrightarrow> o_status base = o_status obj \<Longrightarrow>
      rest (world s1) = rest (world s) \<Longrightarrow> held (world s1) = Some base \<Longrightarrow>
      \<exists>err obj2 s2. handleOps base s1 = Some ((err, obj2), s2) \<and> held (world s2) = Some base
        \<and> P err (o_status obj2) (rest (world s2))"
  shows "\<exists>err st obj' s'. reconcile req s = Some (snd (setReady_outcome err), s')
    \<and> P err st (rest (world s')) \<and> held (world s') = Some obj' \<and> same_resource obj obj'
    \<and> finalizerName \<in> set (om_Finalizers (o_meta obj'))
    \<and> published_as (e_lib E) conditions with_conditions with_observed err st obj'"
proof -
  obtain w1 where get: "k_get ops req (world s) = (Inr obj, w1)" "held w1 = Some obj" "rest w1 = rest (world s)"
    using serves_objectD(1) [OF serves held] held by metis
  let ?s1 = "fetched req s" and ?m = "fst (AddFinalizer (e_lib E) (o_meta obj) finalizerName)"
  have w1: "world ?s1 = w1" by (rule fetched_world [OF get(1)])
  have rec: "reconcile req s = do {
     ((err, obj), s) \<leftarrow> finalizer_step E mk ops obj ?s1;
     (case err of
        Some e \<Rightarrow> Some ((no_requeue, Some e), s)
      | None \<Rightarrow> publish E mk ops conditions with_conditions with_observed handleOps obj s)
   }"
    using get(1) active by (intro reconcile_active) simp_all
  have "\<exists>base s2. finalizer_step E mk ops obj ?s1 = Some ((None, base), s2) \<and> held (world s2) = Some base
      \<and> rest (world s2) = rest (world s) \<and> same_resource obj base \<and> o_status base = o_status obj
      \<and> finalizerName \<in> set (om_Finalizers (o_meta base))"
  proof (cases "finalizerName \<in> set (om_Finalizers (o_meta obj))")
    case True
    then show ?thesis
      using get(2,3) by (simp add: finalizer_step_def lib_okD(3) [OF lib] w1)
  next
    case False
    let ?obj = "obj\<lparr>o_meta := (o_meta obj)\<lparr>om_Finalizers := om_Finalizers (o_meta obj) @ [finalizerName]\<rparr>\<rparr>"
    obtain base w2 where upd: "k_update ops ?obj w1 = (Inr base, w2)" "stored_as ?obj base" "rest w2 = rest w1"
        "held w2 = Some base"
      using serves_objectD(2) [OF serves get(2), of ?obj] active(2) by auto
    have "same_resource obj base \<and> o_status base = o_status obj
        \<and> om_Finalizers (o_meta base) = om_Finalizers (o_meta obj) @ [finalizerName]"
      using stored_as_same [OF upd(2)] by (auto simp: same_resource_def identity_def)
    with False upd get(3) show ?thesis
      by (auto simp: finalizer_step_def lib_okD(3) [OF lib] kube_update_def perform_def w1 Let_def)
  qed
  then obtain base s2 where base: "finalizer_step E mk ops obj ?s1 = Some ((None, base), s2)" "held (world s2) = Some base"
      "rest (world s2) = rest (world s)" "same_resource obj base" "o_status base = o_status obj"
      "finalizerName \<in> set (om_Finalizers (o_meta base))"
    by blast
  obtain err obj2 s3 where ops: "handleOps base s2 = Some ((err, obj2), s3)" "held (world s3) = Some base"
      "P err (o_status obj2) (rest (world s3))"
    using ops [OF base(4,5,3,2)] by blast
  from publish_pass [OF lib serves ops(1,2)] obtain obj' s' where
    pub: "publish E mk ops conditions with_conditions with_observed handleOps base s2 = Some (snd (setReady_outcome err), s')"
      "rest (world s') = rest (world s3)" "held (world s') = Some obj'" "same_resource base obj'"
      "om_Finalizers (o_meta obj') = om_Finalizers (o_meta base)"
      "published_as (e_lib E) conditions with_conditions with_observed err (o_status obj2) obj'"
    by blast
  have "reconcile req s = Some (snd (setReady_outcome err), s')"
    by (simp add: rec base(1) pub(1))
  with ops(3) pub base(6) same_resource_trans [OF base(4) pub(4)] show ?thesis
    by (intro exI [of _ err] exI [of _ "o_status obj2"] exI [of _ obj'] exI [of _ s']) simp
qed

end

section \<open>Time, and a world with one object\<close>

text \<open>Time passes between two reconciles.\<close>

definition later :: "('w \<Rightarrow> 'w) \<Rightarrow> ('c, 'w) sys \<Rightarrow> ('c, 'w) sys" where
  "later tick s = s\<lparr>world := tick (world s)\<rparr>"

lemma later_world [simp]: "world (later tick s) = tick (world s)"
  by (simp add: later_def)

text \<open>A world that is one object and what Oxide has for it, and an API server for the object.\<close>

record ('o, 'r) one_world =
  ow_object :: "'o option"
  ow_rack :: 'r

definition api :: "(('sp, 'st) kobj, (('sp, 'st) kobj, 'r) one_world) kube_ops" where
  "api =
     \<lparr>k_get = (\<lambda>_ w. (case ow_object w of None \<Rightarrow> Inl not_found | Some obj \<Rightarrow> Inr obj, w)),
      k_list = (\<lambda>w. (Inr [], w)),
      k_update = (\<lambda>obj w. (Inr obj, w\<lparr>ow_object :=
        if om_DeletionTimestamp (o_meta obj) \<noteq> None \<and> om_Finalizers (o_meta obj) = [] then None else Some obj\<rparr>)),
      k_patch_status = (\<lambda>base obj w.
        (case ow_object w of
           None \<Rightarrow> (Inl not_found, w)
         | Some cur \<Rightarrow> (let new = cur\<lparr>o_status := o_status obj\<rparr> in (Inr new, w\<lparr>ow_object := Some new\<rparr>))))\<rparr>"

lemma stored_as_refl [simp]: "stored_as x x"
  by (simp add: stored_as_def exI [of _ "om_ResourceVersion (o_meta x)"])

lemma api_serves: "serves_object api req ow_object ow_rack"
  by (simp add: serves_object_def api_def Let_def)

lemma api_serves_view: "serves_object api req ow_object (\<lambda>w. f (ow_rack w))"
  by (simp add: serves_object_def api_def Let_def)

end
