(* ===== verification/Oxide_Client.thy ===== *)
theory Oxide_Client
  imports Closed_Loop
begin

text \<open>
  \<^verbatim>\<open>pkg/oxideclient/client.go\<close>: an Oxide client for each OxideConnection, cached under the
  connection's name and tagged with the UID, the generation and the resource version of the token
  Secret it was built from. The cache is the \<open>clients\<close> map of the state; a call is
  one step here, which the mutex that guards the map makes right: see theory \<open>Client_Lock\<close>.
\<close>

section \<open>The operations\<close>

definition client_spec :: "oxideconnection \<Rightarrow> string" where
  "client_spec conn =
     om_UID (o_meta conn) @ ''/'' @ itoa (om_Generation (o_meta conn)) @ ''/''
     @ ocst_ObservedSecretResourceVersion (o_status conn)"

definition client_options :: "oxideconnection \<Rightarrow> string \<Rightarrow> client_option list" where
  "client_options conn token =
     [WithHost (ocs_Host (o_spec conn)), WithToken token, WithUserAgent ''oxide-operator'']
     @ (if ocs_InsecureSkipVerify (o_spec conn) then [WithInsecureHTTPClient] else [])"

definition secret_key :: "oxideconnection \<Rightarrow> object_key" where
  "secret_key conn =
     \<lparr>ok_Namespace = skr_Namespace (ocs_TokenSecretRef (o_spec conn)),
      ok_Name = skr_Name (ocs_TokenSecretRef (o_spec conn))\<rparr>"

definition newClient ::
  "('c, 'w) env \<Rightarrow> oxideconnection \<Rightarrow> (('c, 'w) sys, error + 'c) go" where
  "newClient E conn s = do {
     let ref = ocs_TokenSecretRef (o_spec conn);
     (r, s) \<leftarrow> perform (Kube (KGet SecretKind (secret_key conn))) err_of (e_secret E (secret_key conn)) s;
     (case r of
        Inl err \<Rightarrow>
          Some (Inl (Wrapf (''getting token Secret '' @ skr_Namespace ref @ ''/'' @ skr_Name ref @ '': '') err), s)
      | Inr secret \<Rightarrow>
          let token = TrimSpace (map_get (sec_Data secret) (skr_Key ref)) in
          if token = '''' then
            Some (Inl (Plain (''key '' @ quote (skr_Key ref) @ '' of Secret '' @ skr_Namespace ref @ ''/''
              @ skr_Name ref @ '' is empty'')), s)
          else Some (e_new_client E (client_options conn token), s))
   }"

definition ClientFor ::
  "('c, 'w) env \<Rightarrow> oxideconnection \<Rightarrow> (('c, 'w) sys, error + 'c) go" where
  "ClientFor E conn s =
     (let spec = client_spec conn; build = do {
        (r, s) \<leftarrow> newClient E conn s;
        (case r of
           Inl err \<Rightarrow> Some (Inl err, s)
         | Inr oc \<Rightarrow> Some (Inr oc, s\<lparr>clients := (clients s)(om_Name (o_meta conn) \<mapsto> (spec, oc))\<rparr>))
      }
      in case clients s (om_Name (o_meta conn)) of
           Some (cached_spec, cached) \<Rightarrow>
             if cached_spec = spec then Some (Inr cached, s) else build
         | None \<Rightarrow> build)"

definition NewClientFromRef ::
  "('c, 'w) env \<Rightarrow> string \<Rightarrow> (('c, 'w) sys, error + 'c) go" where
  "NewClientFromRef E name s = do {
     (r, s) \<leftarrow> kube_get OxideConnectionKind (e_conn E) \<lparr>ok_Namespace = '''', ok_Name = name\<rparr> s;
     (case r of
        Inl err \<Rightarrow> Some (Inl (Wrapf (''getting OxideConnection '' @ quote name @ '': '') err), s)
      | Inr conn \<Rightarrow> ClientFor E conn s)
   }"

section \<open>The cache as an interface\<close>

text \<open>
  What the operator's packages may rely on: a fresh entry is served as it is, with no effect; what
  was built is served again as long as the tag stays; and a failed build changes no entry.
\<close>

locale client_cache =
  fixes tag :: "'k \<Rightarrow> string" and name :: "'k \<Rightarrow> string"
    and fetch :: "'k \<Rightarrow> (('c, 'w) sys, error + 'c) go"
  assumes fetch_fresh:
      "clients s (name k) = Some (tag k, oc) \<Longrightarrow> fetch k s = Some (Inr oc, s)"
    and fetch_stores:
      "fetch k s = Some (Inr oc, s') \<Longrightarrow> clients s' = (clients s)(name k \<mapsto> (tag k, oc))"
    and fetch_fails:
      "fetch k s = Some (Inl err, s') \<Longrightarrow> clients s' = clients s"
begin

lemma fetch_again:
  assumes "fetch k s = Some (Inr oc, s')" and "name k' = name k" and "tag k' = tag k"
  shows "fetch k' s' = Some (Inr oc, s')"
  using fetch_stores [OF assms(1)] assms(2,3) by (intro fetch_fresh) simp

lemma fetch_other:
  assumes "fetch k s = Some (r, s')" and "n \<noteq> name k"
  shows "clients s' n = clients s n"
  using assms fetch_stores [of k s _ s'] fetch_fails [of k s _ s'] by (cases r) auto

text \<open>Only the tag it is asked for is ever served: a client comes out under its own tag.\<close>

lemma fetch_tag:
  assumes "fetch k s = Some (Inr oc, s')"
  shows "clients s' (name k) = Some (tag k, oc)"
  using fetch_stores [OF assms] by simp

end

lemma newClient_clients: "newClient E conn s = Some (r, s') \<Longrightarrow> clients s' = clients s"
  by (auto simp: newClient_def perform_def Let_def split: sum.splits if_splits)

lemma store_Some:
  fixes m :: "((error + 'c) \<times> 's) option"
  shows "(do { (r, s) \<leftarrow> m;
       (case r of Inl err \<Rightarrow> Some (Inl err, s) | Inr oc \<Rightarrow> Some (Inr oc, f s oc)) }) = Some (Inr c, s')
     \<longleftrightarrow> (\<exists>s1. m = Some (Inr c, s1) \<and> s' = f s1 c)"
    and "(do { (r, s) \<leftarrow> m;
       (case r of Inl err \<Rightarrow> Some (Inl err, s) | Inr oc \<Rightarrow> Some (Inr oc, f s oc)) }) = Some (Inl e, s')
     \<longleftrightarrow> m = Some (Inl e, s')"
  by (cases m; auto split: sum.splits)+

interpretation oxide_cache: client_cache client_spec "\<lambda>conn. om_Name (o_meta conn)" "ClientFor E"
  for E :: "('c, 'w) env"
proof unfold_locales
  fix s :: "('c, 'w) sys" and k oc
  assume "clients s (om_Name (o_meta k)) = Some (client_spec k, oc)"
  then show "ClientFor E k s = Some (Inr oc, s)"
    by (simp add: ClientFor_def)
next
  fix s s' :: "('c, 'w) sys" and k oc
  assume "ClientFor E k s = Some (Inr oc, s')"
  then show "clients s' = (clients s)(om_Name (o_meta k) \<mapsto> (client_spec k, oc))"
    by (auto simp: ClientFor_def Let_def fun_upd_idem store_Some
        split: option.split_asm if_split_asm dest!: newClient_clients)
next
  fix s s' :: "('c, 'w) sys" and k err
  assume "ClientFor E k s = Some (Inl err, s')"
  then show "clients s' = clients s"
    by (auto simp: ClientFor_def Let_def store_Some
        split: option.split_asm if_split_asm dest!: newClient_clients)
qed

section \<open>What a client is built from\<close>

text \<open>The tag determines the UID, the generation and the Secret version, as UIDs have no slash.\<close>

lemma append_slash_inject:
  "CHR ''/'' \<notin> set a \<Longrightarrow> CHR ''/'' \<notin> set b \<Longrightarrow>
   a @ CHR ''/'' # x = b @ CHR ''/'' # y \<longleftrightarrow> a = b \<and> x = y"
proof (induction a arbitrary: b)
  case Nil
  then show ?case by (cases b) auto
next
  case (Cons c a)
  then show ?case by (cases b) auto
qed

lemma itoa_no_slash: "CHR ''/'' \<notin> set (itoa i)"
  using digits_no_slash by (auto simp: itoa_def)

lemma itoa_eq_iff: "itoa i = itoa j \<longleftrightarrow> i = j"
proof -
  have neg: "itoa i \<noteq> itoa j" if "i < 0" "\<not> j < 0" for i j
    using that hd_digits_is_digit [of "nat j"] not_digit_chars(1)
    by (auto simp: itoa_def dest: sym)
  show ?thesis
    using neg [of i j] neg [of j i]
    by (cases "i < 0"; cases "j < 0") (auto simp: itoa_def)
qed

lemma client_spec_eq_iff:
  assumes "CHR ''/'' \<notin> set (om_UID (o_meta c))" and "CHR ''/'' \<notin> set (om_UID (o_meta d))"
  shows "client_spec c = client_spec d \<longleftrightarrow>
    om_UID (o_meta c) = om_UID (o_meta d) \<and> om_Generation (o_meta c) = om_Generation (o_meta d)
    \<and> ocst_ObservedSecretResourceVersion (o_status c) = ocst_ObservedSecretResourceVersion (o_status d)"
  using assms by (simp add: client_spec_def append_slash_inject itoa_no_slash itoa_eq_iff)

text \<open>A client that is not in the cache under its tag is built from the token Secret of this very
  moment, with the connection's host and, only if it asks for that, without TLS verification.\<close>

lemma ClientFor_rebuilds:
  assumes "ClientFor E conn s = Some (Inr oc, s')"
    and "\<And>c. clients s (om_Name (o_meta conn)) \<noteq> Some (client_spec conn, c)"
  shows "\<exists>secret w token. e_secret E (secret_key conn) (world s) = (Inr secret, w)
    \<and> token = TrimSpace (map_get (sec_Data secret) (skr_Key (ocs_TokenSecretRef (o_spec conn))))
    \<and> token \<noteq> '''' \<and> e_new_client E (client_options conn token) = Inr oc"
  using assms
  by (cases "e_secret E (secret_key conn) (world s)")
    (auto simp: ClientFor_def newClient_def perform_def Let_def
      split: option.splits if_splits sum.splits prod.splits)

text \<open>Effects: reads of the Kubernetes API only.\<close>

fun is_kube_get :: "'c effect \<Rightarrow> bool" where
  "is_kube_get (Kube (KGet _ _) _) = True"
| "is_kube_get _ = False"

lemma newClient_adds: "adds (newClient E conn s) s (\<lambda>r tr. list_all is_kube_get tr)"
  by (auto simp: newClient_def adds_def perform_def Let_def split: sum.splits)

lemma ClientFor_adds: "adds (ClientFor E conn s) s (\<lambda>r tr. list_all is_kube_get tr)"
proof -
  have build: "adds (do { (r, s) \<leftarrow> newClient E conn s;
        (case r of
           Inl err \<Rightarrow> Some (Inl err, s)
         | Inr oc \<Rightarrow> Some (Inr oc, s\<lparr>clients := (clients s)(n \<mapsto> (t, oc))\<rparr>)) }) s
      (\<lambda>r tr. list_all is_kube_get tr)" for n t
    by (rule adds_bind [OF newClient_adds]) (auto simp: adds_def split: sum.splits)
  show ?thesis
    using build by (auto simp: ClientFor_def Let_def intro: adds_ret split: option.split)
qed

lemma NewClientFromRef_adds: "adds (NewClientFromRef E n s) s (\<lambda>r tr. list_all is_kube_get tr)"
  unfolding NewClientFromRef_def kube_get_def
  by (rule adds_perform_bind)
    (auto intro!: adds_ret adds_weaken [OF ClientFor_adds] split: sum.split)

lemma ClientFor_no_panic: "ClientFor E conn s \<noteq> None"
  by (auto simp: ClientFor_def newClient_def perform_def Let_def split: option.splits sum.splits)

lemma NewClientFromRef_no_panic: "NewClientFromRef E n s \<noteq> None"
  using ClientFor_no_panic
  by (auto simp: NewClientFromRef_def kube_get_def perform_def Let_def split: sum.splits)

lemma is_kube_getD: "is_kube_get e \<Longrightarrow> \<not> is_kube_update e \<and> \<not> is_event e"
  by (cases e rule: is_kube_get.cases) auto

lemma kube_gets_harmless:
  "list_all is_kube_get tr \<Longrightarrow> list_all (\<lambda>e. \<not> is_kube_update e) tr"
  "list_all is_kube_get tr \<Longrightarrow> list_all (\<lambda>e. \<not> is_event e) tr"
  by (auto simp: list_all_iff dest: is_kube_getD)

section \<open>Deletion blocks\<close>

text \<open>The usual block of a \<^verbatim>\<open>handleDelete\<close>: get a client, or return early; delete the resource, or
  return early with what is worth reporting of the error, unless it is not found; then tell of it.\<close>

lemma kube_gets_are_harmless: "list_all is_kube_get tr \<Longrightarrow> list_all harmless tr"
  by (auto simp: list_all_iff elim!: is_kube_get.elims)

lemma client_block:
  assumes "\<And>oc s. adds (f oc s) s (gone_unless_early g)"
  shows "adds (do {
      (oc, s) \<leftarrow> NewClientFromRef E n s;
      (case oc of Inl err \<Rightarrow> Some (Some (h err), s) | Inr oc \<Rightarrow> f oc s)
    }) s (gone_unless_early g)"
  by (rule adds_bind [OF NewClientFromRef_adds])
    (auto simp: gone_unless_early_def dest: kube_gets_are_harmless split: sum.split
      intro!: adds_ret adds_weaken [OF assms])

definition deletes :: "('c effect \<Rightarrow> bool) \<Rightarrow> error option \<Rightarrow> 'c effect list \<Rightarrow> bool" where
  "deletes g err tr \<longleftrightarrow> list_all harmless tr \<and> (ok_or_gone err \<longrightarrow> (\<exists>x \<in> set tr. g x))"

lemma adds_ret_record:
  "(\<And>tr. list_all is_event tr \<Longrightarrow> P a tr) \<Longrightarrow> adds (Some (a, record_event obj err reason text s)) s P"
  by (rule adds_record_event) (auto intro: adds_ret)

lemma delete_block:
  assumes "adds (del s) s (deletes g)"
  shows "adds (do {
      (err, s) \<leftarrow> del s;
      if err \<noteq> None \<and> \<not> not_found_err err
      then Some (map_option h err, s)
      else Some (None, record_event obj None reason text s)
    }) s (gone_unless_early g)"
  by (rule adds_bind [OF assms])
    (auto simp: gone_unless_early_def deletes_def ok_or_gone_def
      dest: list_all_events_harmless intro!: adds_ret adds_ret_record)

lemma deletes_oxide_do:
  "\<not> is_create q \<Longrightarrow> (\<And>u. ok_or_gone u \<Longrightarrow> g (Oxide oc q u)) \<Longrightarrow> adds (oxide_do E oc q s) s (deletes g)"
  unfolding oxide_do_def by (rule adds_perform) (simp add: deletes_def)

lemma gone_early: "list_all harmless tr \<Longrightarrow> gone_unless_early g (Some e) tr"
  by (simp add: gone_unless_early_def)

lemma gone_after:
  "list_all harmless tr \<Longrightarrow> adds m s (gone_unless_early g)
   \<Longrightarrow> adds m s (\<lambda>b tr'. gone_unless_early g b (tr @ tr'))"
  by (auto simp: gone_unless_early_def elim!: adds_weaken)

lemma kube_get_no_write: "is_kube_get e \<Longrightarrow> \<not> is_kube_write e"
  by (auto elim!: is_kube_get.elims)

lemma NewClientFromRef_adds_all: "adds_all (NewClientFromRef E n s) s is_kube_get"
  by (simp add: adds_all_def NewClientFromRef_adds)

lemma ClientFor_runs [runs_rules]: "runs (ClientFor E conn s)"
  using ClientFor_no_panic by (simp add: runs_def)

lemma NewClientFromRef_runs [runs_rules]: "runs (NewClientFromRef E n s)"
  using NewClientFromRef_no_panic by (simp add: runs_def)

section \<open>A connected environment\<close>

text \<open>A connection whose client is in the cache, for the theorems that need a client.\<close>

definition conn0 :: oxideconnection where
  "conn0 =
     \<lparr>o_meta = meta0\<lparr>om_Name := ''conn''\<rparr>,
      o_spec = \<lparr>ocs_Host = ''https://oxide'',
        ocs_TokenSecretRef = \<lparr>skr_Name = ''token'', skr_Namespace = ''default'', skr_Key = ''token''\<rparr>,
        ocs_InsecureSkipVerify = False\<rparr>,
      o_status = \<lparr>ocst_Silo = '''', ocst_User = '''', ocst_ObservedSecretResourceVersion = ''1'', ocst_Conditions = []\<rparr>\<rparr>"

definition connected :: "(nat, 'w) env \<Rightarrow> (nat, 'w) env" where
  "connected E = E\<lparr>e_conn := holding conn0\<rparr>"

definition sys1 :: "(nat, unit) sys" where
  "sys1 = sys0\<lparr>clients := [''conn'' \<mapsto> (client_spec conn0, 7)]\<rparr>"

definition sys2 :: "(nat, unit) sys" where
  "sys2 = logged sys1 () (Kube (KGet OxideConnectionKind \<lparr>ok_Namespace = '''', ok_Name = ''conn''\<rparr>) None)"

lemma connected_client: "NewClientFromRef (connected E) ''conn'' sys1 = Some (Inr 7, sys2)"
  by (simp add: NewClientFromRef_def kube_get_def perform_def connected_def Let_def ClientFor_def
      sys1_def sys2_def conn0_def holding_def ops0_def)

lemma connected_simps [simp]: "e_lib (connected E) = e_lib E" "e_oxide (connected E) = e_oxide E"
  "e_vpc (connected E) = e_vpc E" "e_http_do (connected E) = e_http_do E"
  "e_instance (connected E) = e_instance E"
  by (simp_all add: connected_def)

text \<open>A connection whose client can be made, whatever the cache holds.\<close>

definition token_secret :: secret where
  "token_secret = \<lparr>sec_ResourceVersion = ''1'', sec_Data = [''token'' \<mapsto> ''t'']\<rparr>"

lemma token_connects:
  assumes "e_conn E = holding conn0" and "e_secret E = (\<lambda>_ w. (Inr token_secret, w))" and "e_new_client E = (\<lambda>_. Inr oc)"
  shows "connects (NewClientFromRef E ''conn'') held rest"
  using assms
  by (auto simp: connects_def NewClientFromRef_def kube_get_def perform_def Let_def ClientFor_def newClient_def
      conn0_def holding_def ops0_def token_secret_def map_get_def TrimSpace_def is_space_def
      split: option.split)

end
