(* ===== verification/Vpc_Controller.thy ===== *)
theory Vpc_Controller
  imports Oxide_Client
begin

text \<open>
  \<^verbatim>\<open>internal/controller/oxide/vpc_controller.go\<close>: the Vpc controller, the deletion of an Oxide VPC
  (which the Project controller uses too) and the translation of firewall rules.
\<close>

section \<open>Firewall rules\<close>

definition ipNet :: "string \<Rightarrow> ip_net" where
  "ipNet cidr = (if CHR '':'' \<in> set cidr then Ipv6Net cidr else Ipv4Net cidr)"

definition firewallTarget :: "firewall_target \<Rightarrow> fw_target" where
  "firewallTarget t =
     (if ft_Type t = ''vpc'' then TargetVpc (ft_Value t)
      else if ft_Type t = ''subnet'' then TargetSubnet (ft_Value t)
      else if ft_Type t = ''instance'' then TargetInstance (ft_Value t)
      else if ft_Type t = ''ip'' then TargetIp (ft_Value t)
      else TargetIpNet (ipNet (ft_Value t)))"

definition firewallHost :: "firewall_target \<Rightarrow> fw_host" where
  "firewallHost t =
     (if ft_Type t = ''vpc'' then HostVpc (ft_Value t)
      else if ft_Type t = ''subnet'' then HostSubnet (ft_Value t)
      else if ft_Type t = ''instance'' then HostInstance (ft_Value t)
      else if ft_Type t = ''ip'' then HostIp (ft_Value t)
      else HostIpNet (ipNet (ft_Value t)))"

definition firewallProtocol :: "string \<Rightarrow> fw_protocol" where
  "firewallProtocol p =
     (if p = ''udp'' then ProtocolUdp
      else if p = ''icmp'' then ProtocolIcmp
      else if p = ''icmp6'' then ProtocolIcmp6
      else ProtocolTcp)"

definition firewallRule :: "firewall_rule \<Rightarrow> firewall_rule_update" where
  "firewallRule r =
     \<lparr>fu_Name = fr_Name r, fu_Description = fr_Description r, fu_Action = fr_Action r,
      fu_Direction = fr_Direction r, fu_Priority = fr_Priority r, fu_Status = fr_Status r,
      fu_Targets = map firewallTarget (fr_Targets r),
      fu_Hosts = map firewallHost (ff_Hosts (fr_Filters r)),
      fu_Ports = ff_Ports (fr_Filters r),
      fu_Protocols = map firewallProtocol (ff_Protocols (fr_Filters r))\<rparr>"

fun firewallRules :: "firewall_rule list \<Rightarrow> firewall_rule_update list" where
  "firewallRules [] = []"
| "firewallRules (r # rs) = firewallRule r # firewallRules rs"

section \<open>Deleting a VPC\<close>

definition deleteVpc ::
  "('c, 'w) env \<Rightarrow> 'c \<Rightarrow> string \<Rightarrow> string \<Rightarrow> (('c, 'w) sys, error option) go" where
  "deleteVpc E oc project vpc s = do {
     (err, s) \<leftarrow> oxide_do E oc (VpcSubnetDelete project vpc ''default'') s;
     if err \<noteq> None \<and> \<not> not_found_err err then Some (err, s)
     else oxide_do E oc (VpcDelete project vpc) s
   }"

section \<open>The controller\<close>

definition handleVpcOperations ::
  "('c, 'w) env \<Rightarrow> vpc \<Rightarrow> (('c, 'w) sys, error option \<times> vpc) go" where
  "handleVpcOperations E vpc s = do {
     let spec = o_spec vpc;
     (oc, s) \<leftarrow> NewClientFromRef E (rs_ConnectionRef (vs_Resource spec)) s;
     (case oc of
        Inl err \<Rightarrow> Some ((Some err, vpc), s)
      | Inr oc \<Rightarrow> do {
          let project = ProjectName (vs_ProjectRef spec);
          let name = OxideName (vs_OxideName spec) (o_meta vpc);
          let dnsName = cmpOr (vs_DNSName spec) (OxideName (vs_OxideName spec) (o_meta vpc));
          (cur, s) \<leftarrow> oxide (ox_vpc (e_oxide E)) oc (VpcView project name) s;
          (cur, s) \<leftarrow>
            (case cur of
               Inl err \<Rightarrow>
                 if is_object_not_found err then do {
                   (cur, s) \<leftarrow> oxide (ox_vpc (e_oxide E)) oc (VpcCreate project
                     \<lparr>vc_Name = name, vc_Description = vs_Description spec, vc_DnsName = dnsName,
                      vc_Ipv6Prefix = vs_IPv6Prefix spec\<rparr>) s;
                   Some (cur, record_event (object_key_of vpc) (err_of cur) ''Created'' ''Created Oxide VPC'' s)
                 }
                 else Some (Inl err, s)
             | Inr c \<Rightarrow>
                 if ov_DnsName c \<noteq> dnsName
                    \<or> (vs_Description spec \<noteq> '''' \<and> ov_Description c \<noteq> vs_Description spec) then do {
                   (cur, s) \<leftarrow> oxide (ox_vpc (e_oxide E)) oc
                     (VpcUpdate project name (vs_Description spec) dnsName) s;
                   Some (cur, record_event (object_key_of vpc) (err_of cur) ''Updated'' ''Updated Oxide VPC'' s)
                 }
                 else Some (Inr c, s));
          (case cur of
             Inl err \<Rightarrow> Some ((Some err, vpc), s)
           | Inr cur \<Rightarrow> do {
               let vpc = vpc\<lparr>o_status := (o_status vpc)\<lparr>rst_ID := ov_Id cur,
                 rst_Project := ProjectName (vs_ProjectRef spec)\<rparr>\<rparr>;
               (case vs_FirewallRules spec of
                  None \<Rightarrow> Some ((None, vpc), s)
                | Some rules \<Rightarrow> do {
                    (err, s) \<leftarrow> oxide_do E oc (VpcFirewallRulesUpdate project name (firewallRules rules)) s;
                    Some ((err, vpc), s)
                  })
             })
        })
   }"

definition VpcReconciler_handleFinalizer ::
  "('c, 'w) env \<Rightarrow> vpc \<Rightarrow> (('c, 'w) sys, error option \<times> vpc) go" where
  "VpcReconciler_handleFinalizer E vpc s =
     (case AddFinalizer (e_lib E) (o_meta vpc) finalizerName of
        (m, added) \<Rightarrow>
          let vpc = vpc\<lparr>o_meta := m\<rparr> in
          if added then do {
            (r, s) \<leftarrow> kube_update VpcObj (e_vpc E) vpc s;
            (case r of
               Inl e \<Rightarrow> Some ((Some e, vpc), s)
             | Inr vpc \<Rightarrow> Some ((None, vpc), s))
          }
          else Some ((None, vpc), s))"

text \<open>The block of \<^verbatim>\<open>handleDelete\<close> that deletes the Oxide resource; \<open>Some err\<close> is its early return.\<close>

definition VpcReconciler_deleteOxide ::
  "('c, 'w) env \<Rightarrow> vpc \<Rightarrow> (('c, 'w) sys, error option) go" where
  "VpcReconciler_deleteOxide E vpc s = do {
     (oc, s) \<leftarrow> NewClientFromRef E (rs_ConnectionRef (vs_Resource (o_spec vpc))) s;
     (case oc of
        Inl err \<Rightarrow> Some (Some err, s)
      | Inr oc \<Rightarrow> do {
          (err, s) \<leftarrow> deleteVpc E oc (ProjectName (vs_ProjectRef (o_spec vpc)))
            (OxideName (vs_OxideName (o_spec vpc)) (o_meta vpc)) s;
          if err \<noteq> None \<and> \<not> not_found_err err
          then Some (map_option ShortError err, s)
          else Some (None, record_event (object_key_of vpc) None ''Deleted'' ''Deleted Oxide VPC'' s)
        })
   }"

definition VpcReconciler_handleDelete ::
  "('c, 'w) env \<Rightarrow> vpc \<Rightarrow> (('c, 'w) sys, error option) go" where
  "VpcReconciler_handleDelete E vpc s =
     (if \<not> ContainsFinalizer (e_lib E) (o_meta vpc) finalizerName then Some (None, s)
      else do {
        (early, s) \<leftarrow>
          (if \<not> rs_DeletionProtection (vs_Resource (o_spec vpc)) then VpcReconciler_deleteOxide E vpc s
           else Some (None, s));
        (case early of
           Some err \<Rightarrow> Some (Some err, s)
         | None \<Rightarrow> do {
             let vpc = vpc\<lparr>o_meta := RemoveFinalizer (e_lib E) (o_meta vpc) finalizerName\<rparr>;
             (r, s) \<leftarrow> kube_update VpcObj (e_vpc E) vpc s;
             Some (IgnoreNotFound (e_lib E) (err_of r), s)
           })
      })"

definition VpcReconciler_Reconcile ::
  "('c, 'w) env \<Rightarrow> object_key \<Rightarrow> (('c, 'w) sys, ctrl_result \<times> error option) go" where
  "VpcReconciler_Reconcile E req s = do {
     (r, s) \<leftarrow> kube_get VpcKind (e_vpc E) req s;
     (case r of
        Inl err \<Rightarrow> Some ((no_requeue, IgnoreNotFound (e_lib E) (Some err)), s)
      | Inr vpc \<Rightarrow>
          if reconcileDisabled (o_meta vpc) then Some ((no_requeue, None), s)
          else if om_DeletionTimestamp (o_meta vpc) \<noteq> None then do {
            (err, s) \<leftarrow> VpcReconciler_handleDelete E vpc s;
            Some ((no_requeue, err), warn E (object_key_of vpc) ''DeleteFailed'' err s)
          }
          else do {
            ((err, vpc), s) \<leftarrow> VpcReconciler_handleFinalizer E vpc s;
            (case err of
               Some e \<Rightarrow> Some ((no_requeue, Some e), s)
             | None \<Rightarrow> do {
                 let base = vpc;
                 ((err, vpc), s) \<leftarrow> handleVpcOperations E vpc s;
                 (((res, err), cs), s) \<leftarrow>
                   setReady E (object_key_of vpc) (rst_Conditions (o_status vpc)) err s;
                 let st = (o_status vpc)\<lparr>rst_Conditions := cs\<rparr>;
                 let st = (if IsStatusConditionTrue (e_lib E) (rst_Conditions st) typeReady
                           then st\<lparr>rst_ObservedGeneration := om_Generation (o_meta vpc)\<rparr> else st);
                 (perr, s) \<leftarrow> kube_patch_status VpcObj (e_vpc E) base (vpc\<lparr>o_status := st\<rparr>) s;
                 (case perr of
                    Inl pe \<Rightarrow>
                      if err = None then Some ((no_requeue, IgnoreNotFound (e_lib E) (Some pe)), s)
                      else Some ((res, err), s)
                  | Inr _ \<Rightarrow> Some ((res, err), s))
               })
          })
   }"

section \<open>The contract\<close>

lemma deleteVpc_deletes:
  "adds (deleteVpc E oc p v s) s (deletes (\<lambda>e. \<exists>u. ok_or_gone u \<and> e = Oxide oc (VpcDelete p v) u))"
  unfolding deleteVpc_def oxide_do_def
  by (rule adds_perform_bind) (auto intro!: adds_ret adds_perform simp: ok_or_gone_def deletes_def)

lemma handleVpcOperations_adds: "adds_all (handleVpcOperations E vpc s) s (\<lambda>e. \<not> is_kube_write e)"
  unfolding handleVpcOperations_def Let_def
  by (intro adds_all_bind)
    (auto dest: kube_get_no_write harmless_no_write intro!: adds_all_intros adds_all_weaken [OF adds_all_def [THEN iffD2, OF NewClientFromRef_adds]]
      split: sum.split option.split)

lemma handleVpcOperations_frame:
  "wlp (handleVpcOperations E vpc s) (\<lambda>(err, vpc') s'. o_meta vpc' = o_meta vpc \<and> o_spec vpc' = o_spec vpc)"
  unfolding handleVpcOperations_def Let_def
  by (auto intro!: wlp_any split: sum.split option.split)

definition vpc_gone :: "vpc \<Rightarrow> 'c effect \<Rightarrow> bool" where
  "vpc_gone vpc e \<longleftrightarrow>
     (\<exists>oc u. e = Oxide oc (VpcDelete (ProjectName (vs_ProjectRef (o_spec vpc)))
        (OxideName (vs_OxideName (o_spec vpc)) (o_meta vpc))) u \<and> ok_or_gone u)"

lemma VpcReconciler_Reconcile_shape:
  "VpcReconciler_Reconcile E req s =
     reconcile_with E VpcKind VpcObj (e_vpc E) rst_Conditions (\<lambda>cs st. st\<lparr>rst_Conditions := cs\<rparr>)
       (\<lambda>g st. st\<lparr>rst_ObservedGeneration := g\<rparr>) (with_no_requeue (VpcReconciler_handleDelete E))
       (handleVpcOperations E) req s"
  unfolding VpcReconciler_Reconcile_def VpcReconciler_handleFinalizer_def reconcile_shape_defs
  by (rule refl)

lemma VpcReconciler_deleteOxide_law:
  "adds (VpcReconciler_deleteOxide E vpc s) s (gone_unless_early (vpc_gone vpc))"
  unfolding VpcReconciler_deleteOxide_def
  by (intro client_block delete_block adds_weaken [OF deleteVpc_deletes]) (auto simp: deletes_def vpc_gone_def)

interpretation vpc_del: block_deleter E VpcObj "e_vpc E" "\<lambda>v. rs_DeletionProtection (vs_Resource (o_spec v))"
    "VpcReconciler_deleteOxide E" vpc_gone "VpcReconciler_handleDelete E"
  for E :: "('c, 'w) env"
  by unfold_locales
    (simp_all add: VpcReconciler_handleDelete_def delete_with_def VpcReconciler_deleteOxide_law)

interpretation vpc_ctl: managed E VpcObj "e_vpc E" rst_Conditions
    "\<lambda>cs st. st\<lparr>rst_Conditions := cs\<rparr>"
    "\<lambda>g st. st\<lparr>rst_ObservedGeneration := g\<rparr>"
    "handleVpcOperations E" VpcKind
    "with_no_requeue (VpcReconciler_handleDelete E)" "VpcReconciler_Reconcile E"
    "\<lambda>v. rs_DeletionProtection (vs_Resource (o_spec v))" vpc_gone
  for E :: "('c, 'w) env"
  by unfold_locales
    (simp_all add: VpcReconciler_Reconcile_shape handleVpcOperations_frame
      adds_all_trivial [OF handleVpcOperations_adds]
      handleVpcOperations_adds vpc_del.handleDelete_releases)

section \<open>No panics\<close>

lemma deleteVpc_runs [runs_rules]: "runs (deleteVpc E oc p v s)"
  unfolding deleteVpc_def by (auto intro!: runs_rules)

lemma handleVpcOperations_runs [runs_rules]: "runs (handleVpcOperations E vpc s)"
  unfolding handleVpcOperations_def Let_def
  by (auto intro!: runs_rules split: sum.split option.split)

lemma VpcReconciler_deleteOxide_runs [runs_rules]: "runs (VpcReconciler_deleteOxide E vpc s)"
  unfolding VpcReconciler_deleteOxide_def by (auto intro!: runs_rules split: sum.split)

lemma VpcReconciler_handleDelete_runs [runs_rules]: "runs (VpcReconciler_handleDelete E x s)"
  unfolding VpcReconciler_handleDelete_def Let_def
  by (auto intro!: runs_rules split: option.split)

lemma VpcReconciler_Reconcile_runs: "runs (VpcReconciler_Reconcile E req s)"
  by (rule vpc_ctl.reconcile_runs [where good = "\<lambda>_. True"])
    (auto intro: runs_rules runs_with_no_requeue)

section \<open>Properties\<close>

text \<open>A Vpc to apply the theorems to.\<close>

definition new_vpc :: vpc where
  "new_vpc =
     \<lparr>o_meta = meta0,
      o_spec = \<lparr>vs_Resource = resource0, vs_ProjectRef = project_ref0, vs_OxideName = \<lparr>ons_Name = ''''\<rparr>,
        vs_Description = '''', vs_DNSName = '''', vs_IPv6Prefix = '''', vs_FirewallRules = None\<rparr>,
      o_status = status0\<rparr>"

definition deleted_vpc :: "bool \<Rightarrow> vpc" where
  "deleted_vpc protected =
     new_vpc\<lparr>o_meta := deleting,
       o_spec := (o_spec new_vpc)\<lparr>vs_Resource := resource0\<lparr>rs_DeletionProtection := protected\<rparr>\<rparr>\<rparr>"

text \<open>The finalizer of a Vpc, for the property over all controllers.\<close>

lemma vpc_finalizer_first:
  assumes "fst (k_get (e_vpc E) req (world s)) = Inr vpc"
    and "om_DeletionTimestamp (o_meta vpc) = None"
    and "snd (AddFinalizer (e_lib E) (o_meta vpc) finalizerName)"
  shows "ensures (VpcReconciler_Reconcile E req s) s (\<lambda>r tr.
     preceded (finalizer_saved (e_lib E) VpcObj vpc) is_oxide_call tr)"
  by (rule ensuresI [OF VpcReconciler_Reconcile_runs vpc_ctl.reconcile_finalizer_first [OF assms]])

subsection \<open>Drift\<close>

definition vpc_in_sync :: "vpc \<Rightarrow> ox_vpc \<Rightarrow> bool" where
  "vpc_in_sync vpc cur \<longleftrightarrow>
     ov_DnsName cur = cmpOr (vs_DNSName (o_spec vpc)) (OxideName (vs_OxideName (o_spec vpc)) (o_meta vpc))
     \<and> (vs_Description (o_spec vpc) = '''' \<or> ov_Description cur = vs_Description (o_spec vpc))"

text \<open>C25: an existing VPC is written to exactly if it drifted. When Oxide has the VPC and the
  spec has no firewall rules, the reconcile's operations write nothing if the DNS name and the
  description (when one is set) are those of the spec, and else make exactly one update, with both.\<close>

theorem vpc_updates_only_drift:
  assumes "NewClientFromRef E (rs_ConnectionRef (vs_Resource (o_spec vpc))) s = Some (Inr oc, s1)"
    and "fst (ox_vpc (e_oxide E) oc (VpcView (ProjectName (vs_ProjectRef (o_spec vpc)))
      (OxideName (vs_OxideName (o_spec vpc)) (o_meta vpc))) (world s1)) = Inr cur"
    and "vs_FirewallRules (o_spec vpc) = None"
  shows "ensures (handleVpcOperations E vpc s) s1 (\<lambda>(err, vpc') tr.
     \<exists>u. filter is_oxide_write tr =
       (if vpc_in_sync vpc cur then []
        else [Oxide oc (VpcUpdate (ProjectName (vs_ProjectRef (o_spec vpc)))
               (OxideName (vs_OxideName (o_spec vpc)) (o_meta vpc)) (vs_Description (o_spec vpc))
               (cmpOr (vs_DNSName (o_spec vpc)) (OxideName (vs_OxideName (o_spec vpc)) (o_meta vpc)))) u])
     \<and> (vpc_in_sync vpc cur \<longrightarrow> err = None \<and> rst_ID (o_status vpc') = ov_Id cur))"
proof (cases "vpc_in_sync vpc cur")
  case True
  then have "ov_DnsName cur = cmpOr (vs_DNSName (o_spec vpc)) (OxideName (vs_OxideName (o_spec vpc)) (o_meta vpc))"
    "vs_Description (o_spec vpc) = '''' \<or> ov_Description cur = vs_Description (o_spec vpc)"
    by (simp_all add: vpc_in_sync_def)
  with True assms show ?thesis
    by (auto simp: handleVpcOperations_def ensures_def oxide_def perform_def Let_def)
next
  case False
  let ?q = "VpcUpdate (ProjectName (vs_ProjectRef (o_spec vpc)))
    (OxideName (vs_OxideName (o_spec vpc)) (o_meta vpc)) (vs_Description (o_spec vpc))
    (cmpOr (vs_DNSName (o_spec vpc)) (OxideName (vs_OxideName (o_spec vpc)) (o_meta vpc)))"
  let ?s2 = "logged s1 (snd (ox_vpc (e_oxide E) oc (VpcView (ProjectName (vs_ProjectRef (o_spec vpc)))
      (OxideName (vs_OxideName (o_spec vpc)) (o_meta vpc))) (world s1))) (Oxide oc (VpcView (ProjectName (vs_ProjectRef (o_spec vpc)))
      (OxideName (vs_OxideName (o_spec vpc)) (o_meta vpc))) None)"
  from False have "ov_DnsName cur \<noteq> cmpOr (vs_DNSName (o_spec vpc)) (OxideName (vs_OxideName (o_spec vpc)) (o_meta vpc))
    \<or> (vs_Description (o_spec vpc) \<noteq> '''' \<and> ov_Description cur \<noteq> vs_Description (o_spec vpc))"
    by (auto simp: vpc_in_sync_def)
  with False assms show ?thesis
    by (cases "fst (ox_vpc (e_oxide E) oc ?q (world ?s2))")
      (auto simp: handleVpcOperations_def ensures_def oxide_def perform_def Let_def record_event_def)
qed

theorem vpc_updates_only_drift_witness:
  "ensures (handleVpcOperations (connected (env0\<lparr>e_oxide := oxide0\<lparr>ox_vpc :=
       (\<lambda>_ _ w. (Inr \<lparr>ov_Id = ''v1'', ov_DnsName = ''old'', ov_Description = ''''\<rparr>, w))\<rparr>\<rparr>)) new_vpc sys1) sys2 (\<lambda>(err, vpc') tr.
     \<exists>u. filter is_oxide_write tr = [Oxide 7 (VpcUpdate ''proj'' ''demo'' '''' ''demo'') u])"
  (is "ensures (handleVpcOperations ?E new_vpc sys1) sys2 _")
  using vpc_updates_only_drift [of ?E new_vpc sys1 7 sys2 "\<lparr>ov_Id = ''v1'', ov_DnsName = ''old'', ov_Description = ''''\<rparr>"]
  by (simp add: connected_client new_vpc_def resource0_def oxide0_def vpc_in_sync_def project_ref0_def
      ProjectName_def OxideName_def cmpOr_def meta0_def)

subsection \<open>Firewall rules\<close>

text \<open>The values the CRD admits.\<close>

definition target_types :: "string list" where
  "target_types = [''vpc'', ''subnet'', ''instance'', ''ip'', ''ip_net'']"

definition protocols :: "string list" where
  "protocols = [''tcp'', ''udp'', ''icmp'', ''icmp6'']"

text \<open>The text of a network of either family: dotted decimals with a prefix length, or hexadecimal groups
  with colons.\<close>

definition ipv4_cidr :: "string \<Rightarrow> bool" where
  "ipv4_cidr v \<longleftrightarrow> v \<noteq> [] \<and> list_all (\<lambda>c. is_digit c \<or> c \<in> set ''./'') v"

definition ipv6_cidr :: "string \<Rightarrow> bool" where
  "ipv6_cidr v \<longleftrightarrow> CHR '':'' \<in> set v \<and> list_all (\<lambda>c. is_digit c \<or> c \<in> set ''abcdefABCDEF:./'') v"

text \<open>A target that the CRD admits, whose value is a CIDR if its type is \<^verbatim>\<open>ip_net\<close>, as its
  comment says.\<close>

definition target_admitted :: "firewall_target \<Rightarrow> bool" where
  "target_admitted t \<longleftrightarrow> ft_Type t \<in> set target_types
     \<and> (ft_Type t = ''ip_net'' \<longrightarrow> ipv4_cidr (ft_Value t) \<or> ipv6_cidr (ft_Value t))"

definition rule_admitted :: "firewall_rule \<Rightarrow> bool" where
  "rule_admitted r \<longleftrightarrow>
     list_all target_admitted (fr_Targets r) \<and> list_all target_admitted (ff_Hosts (fr_Filters r))
     \<and> list_all (\<lambda>p. p \<in> set protocols) (ff_Protocols (fr_Filters r))"

text \<open>How the rule that was sent reads as a rule of the spec. A network that is sent under the wrong
  family cannot be read.\<close>

fun cidr_of :: "ip_net \<Rightarrow> string option" where
  "cidr_of (Ipv4Net c) = (if ipv4_cidr c then Some c else None)"
| "cidr_of (Ipv6Net c) = (if ipv6_cidr c then Some c else None)"

fun target_of :: "fw_target \<Rightarrow> firewall_target option" where
  "target_of (TargetVpc v) = Some \<lparr>ft_Type = ''vpc'', ft_Value = v\<rparr>"
| "target_of (TargetSubnet v) = Some \<lparr>ft_Type = ''subnet'', ft_Value = v\<rparr>"
| "target_of (TargetInstance v) = Some \<lparr>ft_Type = ''instance'', ft_Value = v\<rparr>"
| "target_of (TargetIp v) = Some \<lparr>ft_Type = ''ip'', ft_Value = v\<rparr>"
| "target_of (TargetIpNet n) = map_option (\<lambda>c. \<lparr>ft_Type = ''ip_net'', ft_Value = c\<rparr>) (cidr_of n)"

fun host_of :: "fw_host \<Rightarrow> firewall_target option" where
  "host_of (HostVpc v) = Some \<lparr>ft_Type = ''vpc'', ft_Value = v\<rparr>"
| "host_of (HostSubnet v) = Some \<lparr>ft_Type = ''subnet'', ft_Value = v\<rparr>"
| "host_of (HostInstance v) = Some \<lparr>ft_Type = ''instance'', ft_Value = v\<rparr>"
| "host_of (HostIp v) = Some \<lparr>ft_Type = ''ip'', ft_Value = v\<rparr>"
| "host_of (HostIpNet n) = map_option (\<lambda>c. \<lparr>ft_Type = ''ip_net'', ft_Value = c\<rparr>) (cidr_of n)"

fun protocol_of :: "fw_protocol \<Rightarrow> string" where
  "protocol_of ProtocolTcp = ''tcp''"
| "protocol_of ProtocolUdp = ''udp''"
| "protocol_of ProtocolIcmp = ''icmp''"
| "protocol_of ProtocolIcmp6 = ''icmp6''"

definition rule_of :: "firewall_rule_update \<Rightarrow> firewall_rule option" where
  "rule_of u = do {
     targets \<leftarrow> those (map target_of (fu_Targets u));
     hosts \<leftarrow> those (map host_of (fu_Hosts u));
     Some \<lparr>fr_Name = fu_Name u, fr_Description = fu_Description u, fr_Action = fu_Action u,
       fr_Direction = fu_Direction u, fr_Priority = fu_Priority u, fr_Status = fu_Status u,
       fr_Targets = targets,
       fr_Filters = \<lparr>ff_Hosts = hosts, ff_Ports = fu_Ports u,
         ff_Protocols = map protocol_of (fu_Protocols u)\<rparr>\<rparr>
   }"

lemma those_same: "list_all (\<lambda>x. f x = Some x) xs \<Longrightarrow> those (map f xs) = Some xs"
  by (induction xs) simp_all

lemma ipv4_no_colon: "ipv4_cidr v \<Longrightarrow> CHR '':'' \<notin> set v"
  by (auto simp: ipv4_cidr_def list_all_iff is_digit_def)

lemma cidr_of_ipNet: "ipv4_cidr c \<or> ipv6_cidr c \<Longrightarrow> cidr_of (ipNet c) = Some c"
  by (auto simp: ipNet_def ipv6_cidr_def dest: ipv4_no_colon)

lemma target_admitted_cases:
  assumes "target_admitted t"
  obtains (named) ty where "ft_Type t = ty" "ty \<in> {''vpc'', ''subnet'', ''instance'', ''ip''}"
    | (net) "ft_Type t = ''ip_net''" "ipv4_cidr (ft_Value t) \<or> ipv6_cidr (ft_Value t)"
  using assms unfolding target_admitted_def target_types_def by (cases "ft_Type t = ''ip_net''") simp_all

lemma target_of_firewallTarget: "target_admitted t \<Longrightarrow> target_of (firewallTarget t) = Some t"
  by (erule target_admitted_cases) (auto simp: firewallTarget_def cidr_of_ipNet)

lemma host_of_firewallHost: "target_admitted t \<Longrightarrow> host_of (firewallHost t) = Some t"
  by (erule target_admitted_cases) (auto simp: firewallHost_def cidr_of_ipNet)

lemma protocol_of_firewallProtocol: "p \<in> set protocols \<Longrightarrow> protocol_of (firewallProtocol p) = p"
  by (auto simp: protocols_def firewallProtocol_def)

lemma rule_of_firewallRule:
  assumes "rule_admitted r"
  shows "rule_of (firewallRule r) = Some r"
proof -
  have "those (map (target_of \<circ> firewallTarget) (fr_Targets r)) = Some (fr_Targets r)"
    "those (map (host_of \<circ> firewallHost) (ff_Hosts (fr_Filters r))) = Some (ff_Hosts (fr_Filters r))"
    "map (protocol_of \<circ> firewallProtocol) (ff_Protocols (fr_Filters r)) = ff_Protocols (fr_Filters r)"
    using assms unfolding rule_admitted_def
    by (auto simp: list_all_iff target_of_firewallTarget host_of_firewallHost
        protocol_of_firewallProtocol intro!: those_same map_idI)
  then show ?thesis by (simp add: rule_of_def firewallRule_def)
qed

text \<open>C20: firewall rules reach Oxide unchanged. On rules whose targets, hosts and protocols the
  CRD admits, with a CIDR of either family as the value of each network, the rules that are sent read
  back as the rules of the spec: none is lost, merged, reordered or changed, whatever its kind of
  target, and a network is sent under the family that it is written in.\<close>

theorem firewallRules_round_trip:
  "list_all rule_admitted rs \<Longrightarrow> map rule_of (firewallRules rs) = map Some rs"
  by (induction rs rule: firewallRules.induct) (simp_all add: rule_of_firewallRule)

definition rule0 :: "string \<Rightarrow> firewall_rule" where
  "rule0 v =
     \<lparr>fr_Name = ''allow'', fr_Description = '''', fr_Action = ''allow'', fr_Direction = ''inbound'', fr_Priority = 5,
      fr_Status = ''enabled'', fr_Targets = [\<lparr>ft_Type = ''ip_net'', ft_Value = v\<rparr>],
      fr_Filters = \<lparr>ff_Hosts = [], ff_Ports = [''80''], ff_Protocols = [''udp'']\<rparr>\<rparr>"

theorem firewallRules_round_trip_witness:
  "map rule_of (firewallRules [rule0 ''10.0.0.0/8'', rule0 ''fd00::/8''])
    = [Some (rule0 ''10.0.0.0/8''), Some (rule0 ''fd00::/8'')]"
  using firewallRules_round_trip [of "[rule0 ''10.0.0.0/8'', rule0 ''fd00::/8'']"]
  by (simp add: rule0_def rule_admitted_def target_admitted_def target_types_def protocols_def ipv4_cidr_def
      ipv6_cidr_def is_digit_def)

end
