(* ===== verification/Project_Controller.thy ===== *)
theory Project_Controller
  imports Vpc_Controller
begin

text \<open>
  \<^verbatim>\<open>internal/controller/oxide/project_controller.go\<close>: the Project controller. Oxide makes a VPC
  called default with every project; deleting the project deletes that first.
\<close>

section \<open>The controller\<close>

definition handleProjectOperations ::
  "('c, 'w) env \<Rightarrow> project \<Rightarrow> (('c, 'w) sys, error option \<times> project) go" where
  "handleProjectOperations E project s = do {
     let spec = o_spec project;
     (oc, s) \<leftarrow> NewClientFromRef E (rs_ConnectionRef (ps_Resource spec)) s;
     (case oc of
        Inl err \<Rightarrow> Some ((Some err, project), s)
      | Inr oc \<Rightarrow> do {
          let name = om_Name (o_meta project);
          (cur, s) \<leftarrow> oxide (ox_project (e_oxide E)) oc (ProjectView name) s;
          (cur, s) \<leftarrow>
            (case cur of
               Inl err \<Rightarrow>
                 if is_object_not_found err then do {
                   (cur, s) \<leftarrow> oxide (ox_project (e_oxide E)) oc (ProjectCreate name (ps_Description spec)) s;
                   Some (cur, record_event (object_key_of project) (err_of cur) ''Created'' ''Created Oxide project'' s)
                 }
                 else Some (Inl err, s)
             | Inr c \<Rightarrow>
                 if ps_Description spec \<noteq> '''' \<and> op_Description c \<noteq> ps_Description spec then do {
                   (cur, s) \<leftarrow> oxide (ox_project (e_oxide E)) oc (ProjectUpdate name (ps_Description spec)) s;
                   Some (cur, record_event (object_key_of project) (err_of cur) ''Updated'' ''Updated Oxide project'' s)
                 }
                 else Some (Inr c, s));
          (case cur of
             Inl err \<Rightarrow> Some ((Some err, project), s)
           | Inr cur \<Rightarrow> Some ((None, project\<lparr>o_status := (o_status project)\<lparr>rst_ID := op_Id cur\<rparr>\<rparr>), s))
        })
   }"

definition ProjectReconciler_handleFinalizer ::
  "('c, 'w) env \<Rightarrow> project \<Rightarrow> (('c, 'w) sys, error option \<times> project) go" where
  "ProjectReconciler_handleFinalizer E project s =
     (case AddFinalizer (e_lib E) (o_meta project) finalizerName of
        (m, added) \<Rightarrow>
          let project = project\<lparr>o_meta := m\<rparr> in
          if added then do {
            (r, s) \<leftarrow> kube_update ProjectObj (e_project E) project s;
            (case r of
               Inl e \<Rightarrow> Some ((Some e, project), s)
             | Inr project \<Rightarrow> Some ((None, project), s))
          }
          else Some ((None, project), s))"

text \<open>The deletion itself: the default VPC, then the project, unless the VPC's deletion failed.\<close>

definition deleteProject ::
  "('c, 'w) env \<Rightarrow> 'c \<Rightarrow> string \<Rightarrow> (('c, 'w) sys, error option) go" where
  "deleteProject E oc name s = do {
     (err, s) \<leftarrow> deleteVpc E oc name ''default'' s;
     if err = None \<or> not_found_err err then oxide_do E oc (ProjectDelete name) s
     else Some (err, s)
   }"

definition ProjectReconciler_deleteOxide ::
  "('c, 'w) env \<Rightarrow> project \<Rightarrow> (('c, 'w) sys, error option) go" where
  "ProjectReconciler_deleteOxide E project s = do {
     (oc, s) \<leftarrow> NewClientFromRef E (rs_ConnectionRef (ps_Resource (o_spec project))) s;
     (case oc of
        Inl err \<Rightarrow> Some (Some err, s)
      | Inr oc \<Rightarrow> do {
          (err, s) \<leftarrow> deleteProject E oc (om_Name (o_meta project)) s;
          if err \<noteq> None \<and> \<not> not_found_err err
          then Some (map_option ShortError err, s)
          else Some (None, record_event (object_key_of project) None ''Deleted'' ''Deleted Oxide project'' s)
        })
   }"

definition ProjectReconciler_handleDelete ::
  "('c, 'w) env \<Rightarrow> project \<Rightarrow> (('c, 'w) sys, error option) go" where
  "ProjectReconciler_handleDelete E project s =
     (if \<not> ContainsFinalizer (e_lib E) (o_meta project) finalizerName then Some (None, s)
      else do {
        (early, s) \<leftarrow>
          (if \<not> rs_DeletionProtection (ps_Resource (o_spec project)) then ProjectReconciler_deleteOxide E project s
           else Some (None, s));
        (case early of
           Some err \<Rightarrow> Some (Some err, s)
         | None \<Rightarrow> do {
             let project = project\<lparr>o_meta := RemoveFinalizer (e_lib E) (o_meta project) finalizerName\<rparr>;
             (r, s) \<leftarrow> kube_update ProjectObj (e_project E) project s;
             Some (IgnoreNotFound (e_lib E) (err_of r), s)
           })
      })"

definition ProjectReconciler_Reconcile ::
  "('c, 'w) env \<Rightarrow> object_key \<Rightarrow> (('c, 'w) sys, ctrl_result \<times> error option) go" where
  "ProjectReconciler_Reconcile E req s = do {
     (r, s) \<leftarrow> kube_get ProjectKind (e_project E) req s;
     (case r of
        Inl err \<Rightarrow> Some ((no_requeue, IgnoreNotFound (e_lib E) (Some err)), s)
      | Inr project \<Rightarrow>
          if reconcileDisabled (o_meta project) then Some ((no_requeue, None), s)
          else if om_DeletionTimestamp (o_meta project) \<noteq> None then do {
            (err, s) \<leftarrow> ProjectReconciler_handleDelete E project s;
            Some ((no_requeue, err), warn E (object_key_of project) ''DeleteFailed'' err s)
          }
          else do {
            ((err, project), s) \<leftarrow> ProjectReconciler_handleFinalizer E project s;
            (case err of
               Some e \<Rightarrow> Some ((no_requeue, Some e), s)
             | None \<Rightarrow> do {
                 let base = project;
                 ((err, project), s) \<leftarrow> handleProjectOperations E project s;
                 (((res, err), cs), s) \<leftarrow>
                   setReady E (object_key_of project) (rst_Conditions (o_status project)) err s;
                 let st = (o_status project)\<lparr>rst_Conditions := cs\<rparr>;
                 let st = (if IsStatusConditionTrue (e_lib E) (rst_Conditions st) typeReady
                           then st\<lparr>rst_ObservedGeneration := om_Generation (o_meta project)\<rparr> else st);
                 (perr, s) \<leftarrow> kube_patch_status ProjectObj (e_project E) base (project\<lparr>o_status := st\<rparr>) s;
                 (case perr of
                    Inl pe \<Rightarrow>
                      if err = None then Some ((no_requeue, IgnoreNotFound (e_lib E) (Some pe)), s)
                      else Some ((res, err), s)
                  | Inr _ \<Rightarrow> Some ((res, err), s))
               })
          })
   }"

section \<open>The contract\<close>

lemma deleteProject_deletes:
  "adds (deleteProject E oc p s) s (deletes (\<lambda>e. \<exists>u. ok_or_gone u \<and> e = Oxide oc (ProjectDelete p) u))"
  unfolding deleteProject_def oxide_do_def
  by (rule adds_bind [OF deleteVpc_deletes])
    (auto intro!: adds_ret adds_perform simp: ok_or_gone_def deletes_def)

lemma handleProjectOperations_adds: "adds_all (handleProjectOperations E project s) s (\<lambda>e. \<not> is_kube_write e)"
  unfolding handleProjectOperations_def Let_def
  by (intro adds_all_bind)
    (auto dest: kube_get_no_write harmless_no_write intro!: adds_all_intros adds_all_weaken [OF NewClientFromRef_adds_all] split: sum.split)

lemma handleProjectOperations_frame:
  "wlp (handleProjectOperations E project s)
     (\<lambda>(err, project') s'. o_meta project' = o_meta project \<and> o_spec project' = o_spec project)"
  unfolding handleProjectOperations_def Let_def
  by (auto intro!: wlp_any split: sum.split)

definition project_gone :: "project \<Rightarrow> 'c effect \<Rightarrow> bool" where
  "project_gone project e \<longleftrightarrow>
     (\<exists>oc u. e = Oxide oc (ProjectDelete (om_Name (o_meta project))) u \<and> ok_or_gone u)"

lemma ProjectReconciler_deleteOxide_law:
  "adds (ProjectReconciler_deleteOxide E project s) s (gone_unless_early (project_gone project))"
  unfolding ProjectReconciler_deleteOxide_def
  by (intro client_block delete_block adds_weaken [OF deleteProject_deletes])
    (auto simp: deletes_def project_gone_def)

lemma ProjectReconciler_Reconcile_shape:
  "ProjectReconciler_Reconcile E req s =
     reconcile_with E ProjectKind ProjectObj (e_project E) (rst_Conditions)
       (\<lambda>cs st. st\<lparr>rst_Conditions := cs\<rparr>)
       (\<lambda>g st. st\<lparr>rst_ObservedGeneration := g\<rparr>)
       (with_no_requeue (ProjectReconciler_handleDelete E)) (handleProjectOperations E) req s"
  unfolding ProjectReconciler_Reconcile_def ProjectReconciler_handleFinalizer_def reconcile_shape_defs
  by (rule refl)

interpretation project_del: block_deleter E ProjectObj "e_project E"
    "\<lambda>x. rs_DeletionProtection (ps_Resource (o_spec x))" "ProjectReconciler_deleteOxide E" project_gone
    "ProjectReconciler_handleDelete E"
  for E :: "('c, 'w) env"
  by unfold_locales
    (simp_all add: ProjectReconciler_handleDelete_def delete_with_def ProjectReconciler_deleteOxide_law)

interpretation project_ctl: managed E ProjectObj "e_project E" "rst_Conditions"
    "\<lambda>cs st. st\<lparr>rst_Conditions := cs\<rparr>"
    "\<lambda>g st. st\<lparr>rst_ObservedGeneration := g\<rparr>"
    "handleProjectOperations E" ProjectKind
    "with_no_requeue (ProjectReconciler_handleDelete E)" "ProjectReconciler_Reconcile E"
    "\<lambda>x. rs_DeletionProtection (ps_Resource (o_spec x))" project_gone
  for E :: "('c, 'w) env"
  by unfold_locales
    (simp_all add: ProjectReconciler_Reconcile_shape handleProjectOperations_frame
      adds_all_trivial [OF handleProjectOperations_adds]
      handleProjectOperations_adds project_del.handleDelete_releases)

section \<open>No panics\<close>

lemma deleteProject_runs [runs_rules]: "runs (deleteProject E oc n s)"
  unfolding deleteProject_def by (auto intro!: runs_rules)

lemma handleProjectOperations_runs [runs_rules]: "runs (handleProjectOperations E project s)"
  unfolding handleProjectOperations_def Let_def
  by (auto intro!: runs_rules split: sum.split)

lemma ProjectReconciler_deleteOxide_runs [runs_rules]: "runs (ProjectReconciler_deleteOxide E project s)"
  unfolding ProjectReconciler_deleteOxide_def by (auto intro!: runs_rules split: sum.split)

lemma ProjectReconciler_handleDelete_runs [runs_rules]: "runs (ProjectReconciler_handleDelete E x s)"
  unfolding ProjectReconciler_handleDelete_def Let_def
  by (auto intro!: runs_rules split: option.split)

lemma ProjectReconciler_Reconcile_runs: "runs (ProjectReconciler_Reconcile E req s)"
  by (rule project_ctl.reconcile_runs [where good = "\<lambda>_. True"])
    (auto intro: runs_rules runs_with_no_requeue)

section \<open>Properties\<close>

text \<open>A Project to apply the theorems to.\<close>

definition new_project :: project where
  "new_project =
     \<lparr>o_meta = meta0, o_spec = \<lparr>ps_Resource = resource0, ps_Description = ''''\<rparr>, o_status = status0\<rparr>"

text \<open>The finalizer of a Project, for the property over all controllers.\<close>

lemma project_finalizer_first:
  assumes "fst (k_get (e_project E) req (world s)) = Inr project"
    and "om_DeletionTimestamp (o_meta project) = None"
    and "snd (AddFinalizer (e_lib E) (o_meta project) finalizerName)"
  shows "ensures (ProjectReconciler_Reconcile E req s) s (\<lambda>r tr.
     preceded (finalizer_saved (e_lib E) ProjectObj project) is_oxide_call tr)"
  by (rule ensuresI [OF ProjectReconciler_Reconcile_runs project_ctl.reconcile_finalizer_first [OF assms]])

end
