(* ===== verification/Vpc_Subnet_Controller.thy ===== *)
theory Vpc_Subnet_Controller
  imports Vpc_Controller
begin

text \<open>
  \<^verbatim>\<open>internal/controller/oxide/vpcsubnet_controller.go\<close>: the VpcSubnet controller. A subnet names its
  VPC, or references a Vpc object whose Oxide project and name are looked up, and waited for.
\<close>

section \<open>The VPC of a subnet\<close>

definition subnetVpc ::
  "('c, 'w) env \<Rightarrow> vpcsubnet \<Rightarrow> bool \<Rightarrow> (('c, 'w) sys, error + string \<times> string) go" where
  "subnetVpc E subnet waitReady s =
     (case ss_VpcRef (o_spec subnet) of
        None \<Rightarrow> Some (Inr (ProjectName (ss_ProjectRef (o_spec subnet)), ss_Vpc (o_spec subnet)), s)
      | Some name \<Rightarrow> do {
          (ref, s) \<leftarrow> kube_get VpcKind (e_vpc E)
            \<lparr>ok_Namespace = om_Namespace (o_meta subnet), ok_Name = name\<rparr> s;
          (case ref of
             Inl err \<Rightarrow> Some (Inl (Wrapf (''getting Vpc '' @ quote name @ '': '') err), s)
           | Inr ref \<Rightarrow>
               if waitReady \<and> \<not> IsStatusConditionTrue (e_lib E) (rst_Conditions (o_status ref)) typeReady
               then Some (Inl (Progressing
                 (''waiting for Vpc '' @ quote (om_Name (o_meta ref)) @ '' to be ready'')), s)
               else Some (Inr (ProjectName (vs_ProjectRef (o_spec ref)),
                 OxideName (vs_OxideName (o_spec ref)) (o_meta ref)), s))
        })"

section \<open>The controller\<close>

definition handleVpcSubnetOperations ::
  "('c, 'w) env \<Rightarrow> vpcsubnet \<Rightarrow> (('c, 'w) sys, error option \<times> vpcsubnet) go" where
  "handleVpcSubnetOperations E subnet s = do {
     let spec = o_spec subnet;
     (oc, s) \<leftarrow> NewClientFromRef E (rs_ConnectionRef (ss_Resource spec)) s;
     (case oc of
        Inl err \<Rightarrow> Some ((Some err, subnet), s)
      | Inr oc \<Rightarrow> do {
          (pv, s) \<leftarrow> subnetVpc E subnet True s;
          (case pv of
             Inl err \<Rightarrow> Some ((Some err, subnet), s)
           | Inr (project, vpc) \<Rightarrow> do {
               let name = OxideName (ss_OxideName spec) (o_meta subnet);
               (cur, s) \<leftarrow> oxide (ox_subnet (e_oxide E)) oc (VpcSubnetView project vpc name) s;
               (cur, s) \<leftarrow>
                 (case cur of
                    Inl err \<Rightarrow>
                      if is_object_not_found err then do {
                        (cur, s) \<leftarrow> oxide (ox_subnet (e_oxide E)) oc (VpcSubnetCreate project vpc
                          \<lparr>sc_Name = name, sc_Description = ss_Description spec,
                           sc_Ipv4Block = ss_IPv4Block spec, sc_Ipv6Block = ss_IPv6Block spec\<rparr>) s;
                        Some (cur, record_event (object_key_of subnet) (err_of cur) ''Created'' ''Created Oxide subnet'' s)
                      }
                      else Some (Inl err, s)
                  | Inr c \<Rightarrow>
                      if ss_Description spec \<noteq> '''' \<and> osn_Description c \<noteq> ss_Description spec then do {
                        (cur, s) \<leftarrow> oxide (ox_subnet (e_oxide E)) oc
                          (VpcSubnetUpdate project vpc name (ss_Description spec)) s;
                        Some (cur, record_event (object_key_of subnet) (err_of cur) ''Updated'' ''Updated Oxide subnet'' s)
                      }
                      else Some (Inr c, s));
               (case cur of
                  Inl err \<Rightarrow> Some ((Some err, subnet), s)
                | Inr cur \<Rightarrow> Some ((None, subnet\<lparr>o_status := (o_status subnet)\<lparr>rst_ID := osn_Id cur,
                    rst_Project := project\<rparr>\<rparr>), s))
             })
        })
   }"

definition VpcSubnetReconciler_handleFinalizer ::
  "('c, 'w) env \<Rightarrow> vpcsubnet \<Rightarrow> (('c, 'w) sys, error option \<times> vpcsubnet) go" where
  "VpcSubnetReconciler_handleFinalizer E subnet s =
     (case AddFinalizer (e_lib E) (o_meta subnet) finalizerName of
        (m, added) \<Rightarrow>
          let subnet = subnet\<lparr>o_meta := m\<rparr> in
          if added then do {
            (r, s) \<leftarrow> kube_update SubnetObj (e_subnet E) subnet s;
            (case r of
               Inl e \<Rightarrow> Some ((Some e, subnet), s)
             | Inr subnet \<Rightarrow> Some ((None, subnet), s))
          }
          else Some ((None, subnet), s))"

text \<open>The parameters of the deletion: the ID alone when it is known, since then the Vpc object may be gone.\<close>

definition subnetDeleteParams ::
  "('c, 'w) env \<Rightarrow> vpcsubnet \<Rightarrow> (('c, 'w) sys, error + request) go" where
  "subnetDeleteParams E subnet s =
     (if rst_ID (o_status subnet) = '''' then do {
        (pv, s) \<leftarrow> subnetVpc E subnet False s;
        (case pv of
           Inl err \<Rightarrow> Some (Inl err, s)
         | Inr (project, vpc) \<Rightarrow>
             Some (Inr (VpcSubnetDelete project vpc (OxideName (ss_OxideName (o_spec subnet)) (o_meta subnet))), s))
      }
      else Some (Inr (VpcSubnetDelete '''' '''' (rst_ID (o_status subnet))), s))"

definition VpcSubnetReconciler_deleteOxide ::
  "('c, 'w) env \<Rightarrow> vpcsubnet \<Rightarrow> (('c, 'w) sys, error option) go" where
  "VpcSubnetReconciler_deleteOxide E subnet s = do {
     (oc, s) \<leftarrow> NewClientFromRef E (rs_ConnectionRef (ss_Resource (o_spec subnet))) s;
     (case oc of
        Inl err \<Rightarrow> Some (Some err, s)
      | Inr oc \<Rightarrow> do {
          (params, s) \<leftarrow> subnetDeleteParams E subnet s;
          (case params of
             Inl err \<Rightarrow> Some (Some err, s)
           | Inr q \<Rightarrow> do {
               (err, s) \<leftarrow> oxide_do E oc q s;
               if err \<noteq> None \<and> \<not> not_found_err err
               then Some (map_option ShortError err, s)
               else Some (None, record_event (object_key_of subnet) None ''Deleted'' ''Deleted Oxide subnet'' s)
             })
        })
   }"

definition VpcSubnetReconciler_handleDelete ::
  "('c, 'w) env \<Rightarrow> vpcsubnet \<Rightarrow> (('c, 'w) sys, error option) go" where
  "VpcSubnetReconciler_handleDelete E subnet s =
     (if \<not> ContainsFinalizer (e_lib E) (o_meta subnet) finalizerName then Some (None, s)
      else do {
        (early, s) \<leftarrow>
          (if \<not> rs_DeletionProtection (ss_Resource (o_spec subnet)) then VpcSubnetReconciler_deleteOxide E subnet s
           else Some (None, s));
        (case early of
           Some err \<Rightarrow> Some (Some err, s)
         | None \<Rightarrow> do {
             let subnet = subnet\<lparr>o_meta := RemoveFinalizer (e_lib E) (o_meta subnet) finalizerName\<rparr>;
             (r, s) \<leftarrow> kube_update SubnetObj (e_subnet E) subnet s;
             Some (IgnoreNotFound (e_lib E) (err_of r), s)
           })
      })"

definition VpcSubnetReconciler_Reconcile ::
  "('c, 'w) env \<Rightarrow> object_key \<Rightarrow> (('c, 'w) sys, ctrl_result \<times> error option) go" where
  "VpcSubnetReconciler_Reconcile E req s = do {
     (r, s) \<leftarrow> kube_get VpcSubnetKind (e_subnet E) req s;
     (case r of
        Inl err \<Rightarrow> Some ((no_requeue, IgnoreNotFound (e_lib E) (Some err)), s)
      | Inr subnet \<Rightarrow>
          if reconcileDisabled (o_meta subnet) then Some ((no_requeue, None), s)
          else if om_DeletionTimestamp (o_meta subnet) \<noteq> None then do {
            (err, s) \<leftarrow> VpcSubnetReconciler_handleDelete E subnet s;
            Some ((no_requeue, err), warn E (object_key_of subnet) ''DeleteFailed'' err s)
          }
          else do {
            ((err, subnet), s) \<leftarrow> VpcSubnetReconciler_handleFinalizer E subnet s;
            (case err of
               Some e \<Rightarrow> Some ((no_requeue, Some e), s)
             | None \<Rightarrow> do {
                 let base = subnet;
                 ((err, subnet), s) \<leftarrow> handleVpcSubnetOperations E subnet s;
                 (((res, err), cs), s) \<leftarrow>
                   setReady E (object_key_of subnet) (rst_Conditions (o_status subnet)) err s;
                 let st = (o_status subnet)\<lparr>rst_Conditions := cs\<rparr>;
                 let st = (if IsStatusConditionTrue (e_lib E) (rst_Conditions st) typeReady
                           then st\<lparr>rst_ObservedGeneration := om_Generation (o_meta subnet)\<rparr> else st);
                 (perr, s) \<leftarrow> kube_patch_status SubnetObj (e_subnet E) base (subnet\<lparr>o_status := st\<rparr>) s;
                 (case perr of
                    Inl pe \<Rightarrow>
                      if err = None then Some ((no_requeue, IgnoreNotFound (e_lib E) (Some pe)), s)
                      else Some ((res, err), s)
                  | Inr _ \<Rightarrow> Some ((res, err), s))
               })
          })
   }"

section \<open>The contract\<close>

lemma subnetVpc_adds_all: "adds_all (subnetVpc E subnet w s) s is_kube_get"
  unfolding subnetVpc_def
  by (auto intro!: adds_all_intros split: option.split sum.split)

text \<open>The subnet that was deleted: by its ID, or by its name in the VPC it names or references.\<close>

definition subnet_gone :: "vpcsubnet \<Rightarrow> 'c effect \<Rightarrow> bool" where
  "subnet_gone subnet e \<longleftrightarrow>
     (\<exists>oc p v u. e = Oxide oc (VpcSubnetDelete p v
          (if rst_ID (o_status subnet) = '''' then OxideName (ss_OxideName (o_spec subnet)) (o_meta subnet)
           else rst_ID (o_status subnet))) u
        \<and> ok_or_gone u)"

lemma subnetDeleteParams_adds:
  "adds (subnetDeleteParams E subnet s) s (\<lambda>r tr. list_all is_kube_get tr
     \<and> (\<forall>q. r = Inr q \<longrightarrow> (\<exists>p v. q = VpcSubnetDelete p v
          (if rst_ID (o_status subnet) = '''' then OxideName (ss_OxideName (o_spec subnet)) (o_meta subnet)
           else rst_ID (o_status subnet)))))"
proof (cases "rst_ID (o_status subnet) = ''''")
  case True
  then show ?thesis
    unfolding subnetDeleteParams_def
    by (auto intro!: adds_ret adds_bind [OF adds_allD [OF subnetVpc_adds_all]] split: sum.split)
next
  case False
  then show ?thesis
    by (auto simp: subnetDeleteParams_def intro!: adds_ret)
qed

lemma handleVpcSubnetOperations_adds: "adds_all (handleVpcSubnetOperations E subnet s) s (\<lambda>e. \<not> is_kube_write e)"
  unfolding handleVpcSubnetOperations_def Let_def
  by (intro adds_all_bind)
    (auto dest: kube_get_no_write harmless_no_write intro!: adds_all_intros adds_all_weaken [OF NewClientFromRef_adds_all]
      adds_all_weaken [OF subnetVpc_adds_all] split: sum.split)

lemma handleVpcSubnetOperations_frame:
  "wlp (handleVpcSubnetOperations E subnet s)
     (\<lambda>(err, subnet') s'. o_meta subnet' = o_meta subnet \<and> o_spec subnet' = o_spec subnet)"
  unfolding handleVpcSubnetOperations_def Let_def
  by (auto intro!: wlp_any split: sum.split)

lemma VpcSubnetReconciler_deleteOxide_law:
  "adds (VpcSubnetReconciler_deleteOxide E subnet s) s (gone_unless_early (subnet_gone subnet))"
  unfolding VpcSubnetReconciler_deleteOxide_def
  by (intro client_block, rule adds_bind [OF subnetDeleteParams_adds])
    (auto simp: subnet_gone_def kube_gets_are_harmless gone_early simp del: not_None_eq split: sum.split
      intro!: adds_ret gone_after delete_block deletes_oxide_do)

lemma VpcSubnetReconciler_Reconcile_shape:
  "VpcSubnetReconciler_Reconcile E req s =
     reconcile_with E VpcSubnetKind SubnetObj (e_subnet E) (rst_Conditions)
       (\<lambda>cs st. st\<lparr>rst_Conditions := cs\<rparr>)
       (\<lambda>g st. st\<lparr>rst_ObservedGeneration := g\<rparr>)
       (with_no_requeue (VpcSubnetReconciler_handleDelete E)) (handleVpcSubnetOperations E) req s"
  unfolding VpcSubnetReconciler_Reconcile_def VpcSubnetReconciler_handleFinalizer_def reconcile_shape_defs
  by (rule refl)

interpretation subnet_del: block_deleter E SubnetObj "e_subnet E"
    "\<lambda>x. rs_DeletionProtection (ss_Resource (o_spec x))" "VpcSubnetReconciler_deleteOxide E" subnet_gone
    "VpcSubnetReconciler_handleDelete E"
  for E :: "('c, 'w) env"
  by unfold_locales
    (simp_all add: VpcSubnetReconciler_handleDelete_def delete_with_def VpcSubnetReconciler_deleteOxide_law)

interpretation subnet_ctl: managed E SubnetObj "e_subnet E" "rst_Conditions"
    "\<lambda>cs st. st\<lparr>rst_Conditions := cs\<rparr>"
    "\<lambda>g st. st\<lparr>rst_ObservedGeneration := g\<rparr>"
    "handleVpcSubnetOperations E" VpcSubnetKind
    "with_no_requeue (VpcSubnetReconciler_handleDelete E)" "VpcSubnetReconciler_Reconcile E"
    "\<lambda>x. rs_DeletionProtection (ss_Resource (o_spec x))" subnet_gone
  for E :: "('c, 'w) env"
  by unfold_locales
    (simp_all add: VpcSubnetReconciler_Reconcile_shape handleVpcSubnetOperations_frame
      adds_all_trivial [OF handleVpcSubnetOperations_adds]
      handleVpcSubnetOperations_adds subnet_del.handleDelete_releases)

section \<open>No panics\<close>

lemma subnetVpc_runs [runs_rules]: "runs (subnetVpc E subnet w s)"
  unfolding subnetVpc_def by (auto intro!: runs_rules split: option.split sum.split)

lemma subnetDeleteParams_runs [runs_rules]: "runs (subnetDeleteParams E subnet s)"
  unfolding subnetDeleteParams_def by (auto intro!: runs_rules split: sum.split)

lemma handleVpcSubnetOperations_runs [runs_rules]: "runs (handleVpcSubnetOperations E subnet s)"
  unfolding handleVpcSubnetOperations_def Let_def
  by (auto intro!: runs_rules split: sum.split)

lemma VpcSubnetReconciler_deleteOxide_runs [runs_rules]: "runs (VpcSubnetReconciler_deleteOxide E subnet s)"
  unfolding VpcSubnetReconciler_deleteOxide_def by (auto intro!: runs_rules split: sum.split)

lemma VpcSubnetReconciler_handleDelete_runs [runs_rules]: "runs (VpcSubnetReconciler_handleDelete E x s)"
  unfolding VpcSubnetReconciler_handleDelete_def Let_def
  by (auto intro!: runs_rules split: option.split)

lemma VpcSubnetReconciler_Reconcile_runs: "runs (VpcSubnetReconciler_Reconcile E req s)"
  by (rule subnet_ctl.reconcile_runs [where good = "\<lambda>_. True"])
    (auto intro: runs_rules runs_with_no_requeue)

section \<open>Properties\<close>

text \<open>A VpcSubnet to apply the theorems to.\<close>

definition new_subnet :: vpcsubnet where
  "new_subnet =
     \<lparr>o_meta = meta0,
      o_spec = \<lparr>ss_Resource = resource0, ss_ProjectRef = project_ref0, ss_OxideName = \<lparr>ons_Name = ''''\<rparr>,
        ss_Vpc = '''', ss_VpcRef = Some ''net'', ss_Description = '''', ss_IPv4Block = ''10.0.0.0/24'',
        ss_IPv6Block = ''''\<rparr>,
      o_status = status0\<rparr>"

text \<open>The finalizer of a VpcSubnet, for the property over all controllers.\<close>

lemma subnet_finalizer_first:
  assumes "fst (k_get (e_subnet E) req (world s)) = Inr subnet"
    and "om_DeletionTimestamp (o_meta subnet) = None"
    and "snd (AddFinalizer (e_lib E) (o_meta subnet) finalizerName)"
  shows "ensures (VpcSubnetReconciler_Reconcile E req s) s (\<lambda>r tr.
     preceded (finalizer_saved (e_lib E) SubnetObj subnet) is_oxide_call tr)"
  by (rule ensuresI [OF VpcSubnetReconciler_Reconcile_runs subnet_ctl.reconcile_finalizer_first [OF assms]])

subsection \<open>Waiting for the Vpc\<close>

text \<open>C26: a subnet waits for its Vpc. When the spec references a Vpc that is not Ready, the
  operations return a progressing error, leave the object as it is, and do not call Oxide at all.\<close>

theorem subnet_waits_for_vpc:
  assumes "NewClientFromRef E (rs_ConnectionRef (ss_Resource (o_spec subnet))) s = Some (Inr oc, s1)"
    and "ss_VpcRef (o_spec subnet) = Some name"
    and "fst (k_get (e_vpc E) \<lparr>ok_Namespace = om_Namespace (o_meta subnet), ok_Name = name\<rparr> (world s1)) = Inr vpc"
    and "\<not> IsStatusConditionTrue (e_lib E) (rst_Conditions (o_status vpc)) typeReady"
  shows "ensures (handleVpcSubnetOperations E subnet s) s1 (\<lambda>(err, subnet') tr.
     err_is is_progressing err \<and> subnet' = subnet \<and> list_all (\<lambda>e. \<not> is_oxide_call e) tr)"
  using assms
  by (simp add: handleVpcSubnetOperations_def subnetVpc_def kube_get_def perform_def ensures_def Let_def)

theorem subnet_waits_for_vpc_witness:
  "ensures (handleVpcSubnetOperations (connected (env0\<lparr>e_vpc := holding new_vpc\<rparr>)) new_subnet sys1) sys2
     (\<lambda>(err, subnet') tr. err_is is_progressing err \<and> subnet' = new_subnet \<and> list_all (\<lambda>e. \<not> is_oxide_call e) tr)"
  by (rule subnet_waits_for_vpc [where oc = 7 and name = "''net''" and vpc = new_vpc])
    (simp_all add: new_subnet_def resource0_def connected_client new_vpc_def lib0_def status0_def condition_true_def)

text \<open>C40: a subnet whose ID is known is deleted by it alone. The only call to Oxide is the
  deletion of that ID, and no Vpc object is read, so a Vpc that is gone does not hold it up.\<close>

theorem subnet_deleted_by_id:
  assumes "NewClientFromRef E (rs_ConnectionRef (ss_Resource (o_spec subnet))) s = Some (Inr oc, s1)"
    and "rst_ID (o_status subnet) \<noteq> ''''"
  shows "ensures (VpcSubnetReconciler_deleteOxide E subnet s) s1 (\<lambda>early tr. \<exists>u ev.
     tr = Oxide oc (VpcSubnetDelete '''' '''' (rst_ID (o_status subnet))) u # ev \<and> list_all is_event ev
     \<and> (early = None \<longleftrightarrow> ok_or_gone u))"
  using assms record_event_trace
  by (auto simp: VpcSubnetReconciler_deleteOxide_def subnetDeleteParams_def oxide_do_def perform_def ensures_def
      Let_def ok_or_gone_def record_event_def)

theorem subnet_deleted_by_id_witness:
  "ensures (VpcSubnetReconciler_deleteOxide (connected env0) (new_subnet\<lparr>o_status := status0\<lparr>rst_ID := ''s1''\<rparr>\<rparr>) sys1) sys2
     (\<lambda>early tr. \<exists>u ev. tr = Oxide 7 (VpcSubnetDelete '''' '''' ''s1'') u # ev \<and> list_all is_event ev
       \<and> (early = None \<longleftrightarrow> ok_or_gone u))"
  using subnet_deleted_by_id [of "connected env0" "new_subnet\<lparr>o_status := status0\<lparr>rst_ID := ''s1''\<rparr>\<rparr>" sys1 7 sys2]
  by (simp add: new_subnet_def resource0_def connected_client)

end
