(* ===== verification/Go_Ints.thy ===== *)
theory Go_Ints
  imports Main "HOL-Library.Signed_Division"
begin

text \<open>
  Go's 64-bit integers. A value of type \<^verbatim>\<open>int\<close> or \<^verbatim>\<open>int64\<close> is an \<open>int\<close> in the range
  \<open>int64_ok\<close>; every arithmetic operation of the source is written with its wrap-around, and division
  truncates toward zero and panics on zero. A \<^verbatim>\<open>uint64\<close> is a \<open>nat\<close> below \<open>2 ^ 64\<close>.
\<close>

definition wrap64 :: "int \<Rightarrow> int" where
  "wrap64 i = (i + 2 ^ 63) mod 2 ^ 64 - 2 ^ 63"

definition int64_ok :: "int \<Rightarrow> bool" where
  "int64_ok i \<longleftrightarrow> - (2 ^ 63) \<le> i \<and> i < 2 ^ 63"

definition add64 :: "int \<Rightarrow> int \<Rightarrow> int" where
  "add64 a b = wrap64 (a + b)"

definition sub64 :: "int \<Rightarrow> int \<Rightarrow> int" where
  "sub64 a b = wrap64 (a - b)"

definition mul64 :: "int \<Rightarrow> int \<Rightarrow> int" where
  "mul64 a b = wrap64 (a * b)"

definition div64 :: "int \<Rightarrow> int \<Rightarrow> int option" where
  "div64 a b = (if b = 0 then None else Some (wrap64 (a sdiv b)))"

definition uadd64 :: "nat \<Rightarrow> nat \<Rightarrow> nat" where
  "uadd64 a b = (a + b) mod 2 ^ 64"

lemma wrap64_id: "int64_ok i \<Longrightarrow> wrap64 i = i"
  by (simp add: wrap64_def int64_ok_def)

lemma wrap64_ok: "int64_ok (wrap64 i)"
proof -
  have "0 \<le> (i + 2 ^ 63) mod 2 ^ 64" "(i + 2 ^ 63) mod 2 ^ 64 < (2::int) ^ 64" by simp_all
  then show ?thesis by (simp add: wrap64_def int64_ok_def)
qed

lemma wrap64_above: "2 ^ 63 \<le> i \<Longrightarrow> i < 2 ^ 64 + 2 ^ 63 \<Longrightarrow> wrap64 i = i - 2 ^ 64"
proof -
  assume "2 ^ 63 \<le> i" "i < 2 ^ 64 + 2 ^ 63"
  then have "(i + 2 ^ 63 - 2 ^ 64) mod 2 ^ 64 = i + 2 ^ 63 - 2 ^ 64" by simp
  moreover have "(i + 2 ^ 63) mod 2 ^ 64 = (i + 2 ^ 63 - 2 ^ 64) mod 2 ^ 64"
    by (metis minus_mod_self2)
  ultimately show ?thesis by (simp add: wrap64_def)
qed

lemma uadd64_id: "a + b < 2 ^ 64 \<Longrightarrow> uadd64 a b = a + b"
  by (simp add: uadd64_def)

lemma div64_pos: "0 \<le> a \<Longrightarrow> 0 < b \<Longrightarrow> int64_ok a \<Longrightarrow> div64 a b = Some (a div b)"
proof -
  assume a: "0 \<le> a" "0 < b" "int64_ok a"
  have "0 \<le> a div b" using a by (simp add: pos_imp_zdiv_nonneg_iff)
  moreover have "a div b \<le> a"
    using a by (smt (verit) int_one_le_iff_zero_less zdiv_mono2 div_by_1)
  ultimately have "int64_ok (a div b)" using a(3) by (simp add: int64_ok_def)
  moreover have "a sdiv b = a div b"
    using a by (cases "a = 0") (simp_all add: signed_divide_int_def)
  ultimately show ?thesis using a(2) by (simp add: div64_def wrap64_id)
qed

text \<open>Rounding up to a multiple, \<^verbatim>\<open>(n + m - 1) / m * m\<close>, as the source writes it twice.\<close>

definition round_up64 :: "int \<Rightarrow> int \<Rightarrow> int option" where
  "round_up64 n m =
     (case div64 (sub64 (add64 n m) 1) m of None \<Rightarrow> None | Some q \<Rightarrow> Some (mul64 q m))"

definition round_up :: "int \<Rightarrow> int \<Rightarrow> int" where
  "round_up n m = (n + m - 1) div m * m"

lemma round_up_bounds:
  assumes "0 < m"
  shows "n \<le> round_up n m" and "round_up n m < n + m" and "m dvd round_up n m"
proof -
  have d: "(n + m - 1) div m * m = n + m - 1 - (n + m - 1) mod m"
    by (simp add: minus_mod_eq_div_mult)
  have "0 \<le> (n + m - 1) mod m" "(n + m - 1) mod m < m" using assms by simp_all
  then show "n \<le> round_up n m" "round_up n m < n + m" by (simp_all add: round_up_def d)
  show "m dvd round_up n m" by (simp add: round_up_def)
qed

lemma round_up_le:
  assumes "0 < m" and "m dvd k" and "n \<le> k"
  shows "round_up n m \<le> k"
proof -
  from assms(2) obtain q where k: "k = m * q" ..
  have "round_up n m < k + m" using round_up_bounds(2) [OF assms(1), of n] assms(3) by linarith
  moreover obtain p where p: "round_up n m = m * p" using round_up_bounds(3) [OF assms(1)] by (auto elim: dvdE)
  ultimately have "m * p < m * (q + 1)" by (simp add: k algebra_simps)
  with assms(1) have "p < q + 1" by (simp add: mult_less_cancel_left_pos)
  with assms(1) show ?thesis by (simp add: k p)
qed

lemma round_up64_exact:
  assumes "0 \<le> n" and "0 < m" and "n + m < 2 ^ 63"
  shows "round_up64 n m = Some (round_up n m)"
proof -
  have ok: "int64_ok (n + m)" "int64_ok (n + m - 1)" using assms by (simp_all add: int64_ok_def)
  have "n \<le> round_up n m" "round_up n m < n + m" using round_up_bounds [OF assms(2)] by auto
  then have "int64_ok (round_up n m)" using assms by (simp add: int64_ok_def)
  moreover have "div64 (n + m - 1) m = Some ((n + m - 1) div m)"
    using assms ok by (intro div64_pos) auto
  ultimately show ?thesis
    by (simp add: round_up64_def add64_def sub64_def mul64_def wrap64_id ok round_up_def)
qed

end
