(* ===== verification/Snapshot_Controller.thy ===== *)
theory Snapshot_Controller
  imports Oxide_Client Go_Ints
begin

text \<open>
  \<^verbatim>\<open>internal/controller/oxide/snapshot_controller.go\<close>: the Snapshot controller.
\<close>

section \<open>The controller\<close>

definition handleSnapshotOperations ::
  "('c, 'w) env \<Rightarrow> snapshot \<Rightarrow> (('c, 'w) sys, error option \<times> snapshot) go" where
  "handleSnapshotOperations E snapshot s = do {
     let spec = o_spec snapshot;
     (oc, s) \<leftarrow> NewClientFromRef E (rs_ConnectionRef (sns_Resource spec)) s;
     (case oc of
        Inl err \<Rightarrow> Some ((Some err, snapshot), s)
      | Inr oc \<Rightarrow> do {
          let project = ProjectName (sns_ProjectRef spec);
          let name = OxideName (sns_OxideName spec) (o_meta snapshot);
          (cur, s) \<leftarrow> oxide (ox_snapshot (e_oxide E)) oc (SnapshotView project name) s;
          (cur, s) \<leftarrow>
            (if not_found_err (err_of cur) then do {
               (cur, s) \<leftarrow> oxide (ox_snapshot (e_oxide E)) oc (SnapshotCreate project
                 \<lparr>snc_Name = name, snc_Description = sns_Description spec, snc_Disk = sns_Disk spec\<rparr>) s;
               Some (cur, record_event (object_key_of snapshot) (err_of cur) ''Created'' ''Created Oxide snapshot'' s)
             }
             else Some (cur, s));
          (case cur of
             Inl err \<Rightarrow> Some ((Some err, snapshot), s)
           | Inr cur \<Rightarrow>
               let st = o_status snapshot;
                   snapshot = snapshot\<lparr>o_status := st\<lparr>
                     snst_Resource := (snst_Resource st)\<lparr>rst_ID := os_Id cur, rst_Project := ProjectName (sns_ProjectRef spec)\<rparr>,
                     snst_State := SnapshotStateText (e_lib E) (os_State cur),
                     snst_Size := Some (NewQuantity (e_lib E) (wrap64 (os_Size cur)))\<rparr>\<rparr>
               in case os_State cur of
                    SnapshotStateFaulted \<Rightarrow> Some ((Some (Plain ''snapshot is faulted''), snapshot), s)
                  | SnapshotStateCreating \<Rightarrow> Some ((Some (Progressing ''snapshot is creating''), snapshot), s)
                  | SnapshotStateOther _ \<Rightarrow> Some ((None, snapshot), s))
        })
   }"

definition SnapshotReconciler_handleFinalizer ::
  "('c, 'w) env \<Rightarrow> snapshot \<Rightarrow> (('c, 'w) sys, error option \<times> snapshot) go" where
  "SnapshotReconciler_handleFinalizer E snapshot s =
     (case AddFinalizer (e_lib E) (o_meta snapshot) finalizerName of
        (m, added) \<Rightarrow>
          let snapshot = snapshot\<lparr>o_meta := m\<rparr> in
          if added then do {
            (r, s) \<leftarrow> kube_update SnapshotObj (e_snapshot E) snapshot s;
            (case r of
               Inl e \<Rightarrow> Some ((Some e, snapshot), s)
             | Inr snapshot \<Rightarrow> Some ((None, snapshot), s))
          }
          else Some ((None, snapshot), s))"

definition SnapshotReconciler_deleteOxide ::
  "('c, 'w) env \<Rightarrow> snapshot \<Rightarrow> (('c, 'w) sys, error option) go" where
  "SnapshotReconciler_deleteOxide E snapshot s = do {
     (oc, s) \<leftarrow> NewClientFromRef E (rs_ConnectionRef (sns_Resource (o_spec snapshot))) s;
     (case oc of
        Inl err \<Rightarrow> Some (Some err, s)
      | Inr oc \<Rightarrow> do {
          (err, s) \<leftarrow> oxide_do E oc (SnapshotDelete (ProjectName (sns_ProjectRef (o_spec snapshot)))
            (OxideName (sns_OxideName (o_spec snapshot)) (o_meta snapshot))) s;
          if err \<noteq> None \<and> \<not> not_found_err err
          then Some (map_option ShortError err, s)
          else Some (None, record_event (object_key_of snapshot) None ''Deleted'' ''Deleted Oxide snapshot'' s)
        })
   }"

definition SnapshotReconciler_handleDelete ::
  "('c, 'w) env \<Rightarrow> snapshot \<Rightarrow> (('c, 'w) sys, error option) go" where
  "SnapshotReconciler_handleDelete E snapshot s =
     (if \<not> ContainsFinalizer (e_lib E) (o_meta snapshot) finalizerName then Some (None, s)
      else do {
        (early, s) \<leftarrow>
          (if \<not> rs_DeletionProtection (sns_Resource (o_spec snapshot)) then SnapshotReconciler_deleteOxide E snapshot s
           else Some (None, s));
        (case early of
           Some err \<Rightarrow> Some (Some err, s)
         | None \<Rightarrow> do {
             let snapshot = snapshot\<lparr>o_meta := RemoveFinalizer (e_lib E) (o_meta snapshot) finalizerName\<rparr>;
             (r, s) \<leftarrow> kube_update SnapshotObj (e_snapshot E) snapshot s;
             Some (IgnoreNotFound (e_lib E) (err_of r), s)
           })
      })"

definition SnapshotReconciler_Reconcile ::
  "('c, 'w) env \<Rightarrow> object_key \<Rightarrow> (('c, 'w) sys, ctrl_result \<times> error option) go" where
  "SnapshotReconciler_Reconcile E req s = do {
     (r, s) \<leftarrow> kube_get SnapshotKind (e_snapshot E) req s;
     (case r of
        Inl err \<Rightarrow> Some ((no_requeue, IgnoreNotFound (e_lib E) (Some err)), s)
      | Inr snapshot \<Rightarrow>
          if reconcileDisabled (o_meta snapshot) then Some ((no_requeue, None), s)
          else if om_DeletionTimestamp (o_meta snapshot) \<noteq> None then do {
            (err, s) \<leftarrow> SnapshotReconciler_handleDelete E snapshot s;
            Some ((no_requeue, err), warn E (object_key_of snapshot) ''DeleteFailed'' err s)
          }
          else do {
            ((err, snapshot), s) \<leftarrow> SnapshotReconciler_handleFinalizer E snapshot s;
            (case err of
               Some e \<Rightarrow> Some ((no_requeue, Some e), s)
             | None \<Rightarrow> do {
                 let base = snapshot;
                 ((err, snapshot), s) \<leftarrow> handleSnapshotOperations E snapshot s;
                 (((res, err), cs), s) \<leftarrow>
                   setReady E (object_key_of snapshot) (rst_Conditions (snst_Resource (o_status snapshot))) err s;
                 let st = (o_status snapshot)\<lparr>snst_Resource := (snst_Resource (o_status snapshot))\<lparr>rst_Conditions := cs\<rparr>\<rparr>;
                 let st = (if IsStatusConditionTrue (e_lib E) (rst_Conditions (snst_Resource st)) typeReady
                           then st\<lparr>snst_Resource := (snst_Resource st)\<lparr>rst_ObservedGeneration := om_Generation (o_meta snapshot)\<rparr>\<rparr> else st);
                 (perr, s) \<leftarrow> kube_patch_status SnapshotObj (e_snapshot E) base (snapshot\<lparr>o_status := st\<rparr>) s;
                 (case perr of
                    Inl pe \<Rightarrow>
                      if err = None then Some ((no_requeue, IgnoreNotFound (e_lib E) (Some pe)), s)
                      else Some ((res, err), s)
                  | Inr _ \<Rightarrow> Some ((res, err), s))
               })
          })
   }"

section \<open>The contract\<close>

lemma handleSnapshotOperations_adds: "adds_all (handleSnapshotOperations E snapshot s) s (\<lambda>e. \<not> is_kube_write e)"
  unfolding handleSnapshotOperations_def Let_def
  by (intro adds_all_bind)
    (auto dest: kube_get_no_write harmless_no_write intro!: adds_all_intros adds_all_weaken [OF NewClientFromRef_adds_all]
      split: sum.split snapshot_state.split)

lemma handleSnapshotOperations_frame:
  "wlp (handleSnapshotOperations E snapshot s)
     (\<lambda>(err, snapshot') s'. o_meta snapshot' = o_meta snapshot \<and> o_spec snapshot' = o_spec snapshot)"
  unfolding handleSnapshotOperations_def Let_def
  by (auto intro!: wlp_any split: sum.split snapshot_state.split)

definition snapshot_gone :: "snapshot \<Rightarrow> 'c effect \<Rightarrow> bool" where
  "snapshot_gone snapshot e \<longleftrightarrow>
     (\<exists>oc u. e = Oxide oc (SnapshotDelete (ProjectName (sns_ProjectRef (o_spec snapshot)))
        (OxideName (sns_OxideName (o_spec snapshot)) (o_meta snapshot))) u \<and> ok_or_gone u)"

lemma SnapshotReconciler_deleteOxide_law:
  "adds (SnapshotReconciler_deleteOxide E snapshot s) s (gone_unless_early (snapshot_gone snapshot))"
  unfolding SnapshotReconciler_deleteOxide_def
  by (intro client_block delete_block deletes_oxide_do) (auto simp: snapshot_gone_def)

lemma SnapshotReconciler_Reconcile_shape:
  "SnapshotReconciler_Reconcile E req s =
     reconcile_with E SnapshotKind SnapshotObj (e_snapshot E) (\<lambda>st. rst_Conditions (snst_Resource st))
       (\<lambda>cs st. st\<lparr>snst_Resource := (snst_Resource st)\<lparr>rst_Conditions := cs\<rparr>\<rparr>)
       (\<lambda>g st. st\<lparr>snst_Resource := (snst_Resource st)\<lparr>rst_ObservedGeneration := g\<rparr>\<rparr>)
       (with_no_requeue (SnapshotReconciler_handleDelete E)) (handleSnapshotOperations E) req s"
  unfolding SnapshotReconciler_Reconcile_def SnapshotReconciler_handleFinalizer_def reconcile_shape_defs
  by (rule refl)

interpretation snapshot_del: block_deleter E SnapshotObj "e_snapshot E"
    "\<lambda>x. rs_DeletionProtection (sns_Resource (o_spec x))" "SnapshotReconciler_deleteOxide E" snapshot_gone
    "SnapshotReconciler_handleDelete E"
  for E :: "('c, 'w) env"
  by unfold_locales
    (simp_all add: SnapshotReconciler_handleDelete_def delete_with_def SnapshotReconciler_deleteOxide_law)

interpretation snapshot_ctl: managed E SnapshotObj "e_snapshot E" "\<lambda>st. rst_Conditions (snst_Resource st)"
    "\<lambda>cs st. st\<lparr>snst_Resource := (snst_Resource st)\<lparr>rst_Conditions := cs\<rparr>\<rparr>"
    "\<lambda>g st. st\<lparr>snst_Resource := (snst_Resource st)\<lparr>rst_ObservedGeneration := g\<rparr>\<rparr>"
    "handleSnapshotOperations E" SnapshotKind
    "with_no_requeue (SnapshotReconciler_handleDelete E)" "SnapshotReconciler_Reconcile E"
    "\<lambda>x. rs_DeletionProtection (sns_Resource (o_spec x))" snapshot_gone
  for E :: "('c, 'w) env"
  by unfold_locales
    (simp_all add: SnapshotReconciler_Reconcile_shape handleSnapshotOperations_frame
      adds_all_trivial [OF handleSnapshotOperations_adds]
      handleSnapshotOperations_adds snapshot_del.handleDelete_releases)

section \<open>No panics\<close>

lemma handleSnapshotOperations_runs [runs_rules]: "runs (handleSnapshotOperations E snapshot s)"
  unfolding handleSnapshotOperations_def Let_def
  by (auto intro!: runs_rules split: sum.split snapshot_state.split)

lemma SnapshotReconciler_deleteOxide_runs [runs_rules]: "runs (SnapshotReconciler_deleteOxide E snapshot s)"
  unfolding SnapshotReconciler_deleteOxide_def by (auto intro!: runs_rules split: sum.split)

lemma SnapshotReconciler_handleDelete_runs [runs_rules]: "runs (SnapshotReconciler_handleDelete E x s)"
  unfolding SnapshotReconciler_handleDelete_def Let_def
  by (auto intro!: runs_rules split: option.split)

lemma SnapshotReconciler_Reconcile_runs: "runs (SnapshotReconciler_Reconcile E req s)"
  by (rule snapshot_ctl.reconcile_runs [where good = "\<lambda>_. True"])
    (auto intro: runs_rules runs_with_no_requeue)

section \<open>Properties\<close>

text \<open>A Snapshot to apply the theorems to.\<close>

definition new_snapshot :: snapshot where
  "new_snapshot =
     \<lparr>o_meta = meta0,
      o_spec = \<lparr>sns_Resource = resource0, sns_ProjectRef = project_ref0, sns_OxideName = \<lparr>ons_Name = ''''\<rparr>,
        sns_Disk = ''data'', sns_Description = ''''\<rparr>,
      o_status = \<lparr>snst_Resource = status0, snst_State = '''', snst_Size = None\<rparr>\<rparr>"

text \<open>The finalizer of a Snapshot, for the property over all controllers.\<close>

lemma snapshot_finalizer_first:
  assumes "fst (k_get (e_snapshot E) req (world s)) = Inr snapshot"
    and "om_DeletionTimestamp (o_meta snapshot) = None"
    and "snd (AddFinalizer (e_lib E) (o_meta snapshot) finalizerName)"
  shows "ensures (SnapshotReconciler_Reconcile E req s) s (\<lambda>r tr.
     preceded (finalizer_saved (e_lib E) SnapshotObj snapshot) is_oxide_call tr)"
  by (rule ensuresI [OF SnapshotReconciler_Reconcile_runs snapshot_ctl.reconcile_finalizer_first [OF assms]])

subsection \<open>The state of a snapshot\<close>

text \<open>An existing snapshot is reported as it is and never written to. It is Ready
  unless Oxide says it is faulted, which is an error, or creating, which is progress; its ID and size
  are recorded in every case.\<close>

lemma snapshot_state_reported:
  assumes "NewClientFromRef E (rs_ConnectionRef (sns_Resource (o_spec snapshot))) s = Some (Inr oc, s1)"
    and "fst (ox_snapshot (e_oxide E) oc (SnapshotView (ProjectName (sns_ProjectRef (o_spec snapshot)))
      (OxideName (sns_OxideName (o_spec snapshot)) (o_meta snapshot))) (world s1)) = Inr cur"
  shows "ensures (handleSnapshotOperations E snapshot s) s1 (\<lambda>(err, snapshot') tr.
     list_all (\<lambda>e. \<not> is_oxide_write e) tr
     \<and> err = (case os_State cur of
         SnapshotStateFaulted \<Rightarrow> Some (Plain ''snapshot is faulted'')
       | SnapshotStateCreating \<Rightarrow> Some (Progressing ''snapshot is creating'')
       | SnapshotStateOther _ \<Rightarrow> None)
     \<and> rst_ID (snst_Resource (o_status snapshot')) = os_Id cur
     \<and> snst_Size (o_status snapshot') = Some (NewQuantity (e_lib E) (wrap64 (os_Size cur))))"
  using assms
  by (simp add: handleSnapshotOperations_def oxide_def perform_def ensures_def Let_def split: snapshot_state.split)

end
