(* ===== verification/Image_Lookup.thy ===== *)
theory Image_Lookup
  imports Oxide_Client
begin

text \<open>
  \<^verbatim>\<open>viewImage\<close> of \<^verbatim>\<open>internal/controller/oxide/image_controller.go\<close>, which the Disk, Image and
  Instance controllers share: an image by name or ID, first in the project, then among the silo's.
\<close>

definition viewImage ::
  "('c, 'w) env \<Rightarrow> 'c \<Rightarrow> string \<Rightarrow> string \<Rightarrow> (('c, 'w) sys, error + ox_image) go" where
  "viewImage E oc project ref s = do {
     (img, s) \<leftarrow> oxide (ox_image (e_oxide E)) oc (ImageView project ref) s;
     (case img of
        Inl err \<Rightarrow>
          if is_object_not_found err \<or> is_http400 err
          then oxide (ox_image (e_oxide E)) oc (ImageView '''' ref) s
          else Some (Inl err, s)
      | Inr img \<Rightarrow> Some (Inr img, s))
   }"

fun is_oxide_view :: "'c effect \<Rightarrow> bool" where
  "is_oxide_view (Oxide _ q _) = is_view q"
| "is_oxide_view _ = False"

fun is_image_view :: "'c effect \<Rightarrow> bool" where
  "is_image_view (Oxide _ (ImageView _ _) _) = True"
| "is_image_view _ = False"

lemma viewImage_views: "adds_all (viewImage E oc p i s) s is_image_view"
  unfolding viewImage_def by (auto intro!: adds_all_intros split: sum.split)

lemma image_view_is_view: "is_image_view e \<Longrightarrow> is_oxide_view e"
  by (auto elim!: is_image_view.elims)

lemma oxide_view_no_write: "is_oxide_view e \<Longrightarrow> \<not> is_kube_write e"
  by (auto elim!: is_oxide_view.elims)

text \<open>Effects that write nothing to the API server.\<close>

lemmas no_write = kube_get_no_write harmless_no_write oxide_view_no_write
  oxide_view_no_write [OF image_view_is_view]

lemma image_view_harmless: "is_image_view e \<Longrightarrow> harmless e"
  by (auto elim!: is_image_view.elims)

text \<open>An image that is not found was looked for among the silo's as well, and was not there.\<close>

lemma viewImage_not_found:
  "adds (viewImage E oc p i s) s (\<lambda>r tr.
     list_all is_image_view tr
     \<and> (not_found_err (err_of r) \<longrightarrow> (\<exists>u. not_found_err u \<and> Oxide oc (ImageView '''' i) u \<in> set tr)))"
  unfolding viewImage_def oxide_def
  by (rule adds_perform_bind) (auto intro!: adds_perform adds_ret split: sum.split)

lemma viewImage_runs [runs_rules]: "runs (viewImage E oc p i s)"
  unfolding viewImage_def by (auto intro!: runs_rules split: sum.split)

end
