(* ===== verification/Chunk_Writer.thy ===== *)
theory Chunk_Writer
  imports Helpers Go_Ints
begin

text \<open>
  \<^verbatim>\<open>writeChunks\<close> of \<^verbatim>\<open>internal/controller/oxide/image_controller.go\<close>: it copies a reader to a disk
  in chunks, leaves out the chunks that are all zeros, and pads the last one to a whole block. With
  it go what it uses of Go's library, \<^verbatim>\<open>io.ReadFull\<close> and base64, and the reference it refines:
  the list of the writes it should make, and what a blank disk reads as after them.
\<close>

section \<open>Base64\<close>

definition b64_char :: "nat \<Rightarrow> char" where
  "b64_char n =
     (if n < 26 then char_of (65 + n)
      else if n < 52 then char_of (71 + n)
      else if n < 62 then char_of (n - 4)
      else if n = 62 then CHR ''+'' else CHR ''/'')"

definition b64_value :: "char \<Rightarrow> nat" where
  "b64_value c =
     (let n = (of_char c :: nat) in
      if 65 \<le> n \<and> n \<le> 90 then n - 65
      else if 97 \<le> n \<and> n \<le> 122 then n - 71
      else if 48 \<le> n \<and> n \<le> 57 then n + 4
      else if c = CHR ''+'' then 62 else 63)"

definition byte_of :: "char \<Rightarrow> nat" where
  "byte_of c = of_char c"

fun base64_encode :: "char list \<Rightarrow> string" where
  "base64_encode [] = []"
| "base64_encode [a] =
     [b64_char (byte_of a div 4), b64_char (byte_of a mod 4 * 16), CHR ''='', CHR ''='']"
| "base64_encode [a, b] =
     [b64_char (byte_of a div 4), b64_char (byte_of a mod 4 * 16 + byte_of b div 16),
      b64_char (byte_of b mod 16 * 4), CHR ''='']"
| "base64_encode (a # b # c # cs) =
     b64_char (byte_of a div 4) # b64_char (byte_of a mod 4 * 16 + byte_of b div 16)
     # b64_char (byte_of b mod 16 * 4 + byte_of c div 64) # b64_char (byte_of c mod 64)
     # base64_encode cs"

fun base64_decode :: "string \<Rightarrow> char list" where
  "base64_decode (p # q # r # t # cs) =
     (let a = b64_value p * 4 + b64_value q div 16;
          b = b64_value q mod 16 * 16 + b64_value r div 4;
          c = b64_value r mod 4 * 64 + b64_value t
      in if r = CHR ''='' then [char_of a]
         else if t = CHR ''='' then [char_of a, char_of b]
         else char_of a # char_of b # char_of c # base64_decode cs)"
| "base64_decode _ = []"

lemma b64_round_trip:
  assumes "n < 64"
  shows "b64_value (b64_char n) = n \<and> b64_char n \<noteq> CHR ''=''"
proof -
  have of: "(of_char (char_of k :: char) :: nat) = k" if "k < 256" for k :: nat
    using that by simp
  have ne: "char_of k \<noteq> CHR ''=''" if "k < 256" "k \<noteq> 61" for k :: nat
  proof
    assume "char_of k = CHR ''=''"
    then have "(of_char (char_of k :: char) :: nat) = of_char (CHR ''='')" by simp
    with that show False by (simp add: of)
  qed
  consider "n < 26" | "26 \<le> n" "n < 52" | "52 \<le> n" "n < 62" | "n = 62" | "n = 63"
    using assms by linarith
  then show ?thesis
  proof cases
    case 1
    then show ?thesis using of [of "65 + n"] ne [of "65 + n"] by (simp add: b64_char_def b64_value_def)
  next
    case 2
    then show ?thesis using of [of "71 + n"] ne [of "71 + n"] by (simp add: b64_char_def b64_value_def)
  next
    case 3
    then show ?thesis using of [of "n - 4"] ne [of "n - 4"] by (auto simp: b64_char_def b64_value_def Let_def)
  qed (simp_all add: b64_char_def b64_value_def)
qed

lemma byte_of_less: "byte_of c < 256"
  using of_char_mod_256 [of c, where 'a = nat] by (metis byte_of_def mod_less_divisor zero_less_numeral)

lemma char_of_byte_of [simp]: "char_of (byte_of c) = c"
  by (simp add: byte_of_def)

lemma base64_decode_encode [simp]: "base64_decode (base64_encode xs) = xs"
proof (induction xs rule: base64_encode.induct)
  case (2 a)
  have "byte_of a div 4 < 64" "byte_of a mod 4 * 16 < 64" using byte_of_less [of a] by auto
  then show ?case by (simp add: b64_round_trip Let_def)
next
  case (3 a b)
  have "byte_of a div 4 < 64" "byte_of a mod 4 * 16 + byte_of b div 16 < 64" "byte_of b mod 16 * 4 < 64"
    "byte_of b div 16 < 16"
    using byte_of_less [of a] byte_of_less [of b] by auto
  then show ?case by (simp add: b64_round_trip Let_def)
next
  case (4 a b c cs)
  have "byte_of a div 4 < 64" "byte_of a mod 4 * 16 + byte_of b div 16 < 64"
    "byte_of b mod 16 * 4 + byte_of c div 64 < 64" "byte_of c mod 64 < 64"
    "byte_of b div 16 < 16" "byte_of c div 64 < 4"
    using byte_of_less [of a] byte_of_less [of b] byte_of_less [of c] by auto
  with 4 show ?case by (simp add: b64_round_trip Let_def)
qed simp

section \<open>Reading\<close>

text \<open>\<^verbatim>\<open>io.ReadFull\<close> with a buffer of \<open>k\<close> bytes: what it read, its error, and the reader after it.
  It is nil when the buffer is full, the reader's own error when nothing was read or the error is
  not EOF, and \<^verbatim>\<open>ErrUnexpectedEOF\<close> for an EOF after some bytes.\<close>

definition ReadFull :: "reader \<Rightarrow> nat \<Rightarrow> char list \<times> error option \<times> reader" where
  "ReadFull r k =
     (let got = take k (rd_bytes r); rest = r\<lparr>rd_bytes := drop k (rd_bytes r)\<rparr> in
      if length got = k then (got, None, rest)
      else if got \<noteq> [] \<and> rd_end r = IoEOF then (got, Some IoUnexpectedEOF, rest)
      else (got, Some (rd_end r), rest))"

section \<open>writeChunks\<close>

definition importChunkSize :: nat where
  "importChunkSize = 512 * 1024"

definition zero_byte :: char where
  "zero_byte = CHR 0x00"

lemma ReadFull_progress:
  "ReadFull r importChunkSize = (got, None, r') \<Longrightarrow> length (rd_bytes r') < length (rd_bytes r)"
  by (auto simp: ReadFull_def Let_def importChunkSize_def split: if_splits)

function writeChunks_loop ::
  "reader \<Rightarrow> int \<Rightarrow> (nat \<Rightarrow> char list \<Rightarrow> ('s, error option) go) \<Rightarrow> nat
   \<Rightarrow> ('s, error option \<times> reader) go" where
  "writeChunks_loop r blockSize write offset s =
     (case ReadFull r importChunkSize of (got, err, r') \<Rightarrow>
        if err_is is_eof err then Some ((None, r'), s)
        else if err \<noteq> None \<and> \<not> err_is is_unexpected_eof err then Some ((err, r'), s)
        else (case round_up64 (int (length got)) blockSize of
           None \<Rightarrow> None
         | Some padded \<Rightarrow>
             if padded < int (length got) \<or> int importChunkSize < padded then None
             else do {
               let data = got @ replicate (nat padded - length got) zero_byte;
               (werr, s) \<leftarrow> (if data \<noteq> replicate (nat padded) zero_byte then write offset data s
                             else Some (None, s));
               if werr \<noteq> None then Some ((werr, r'), s)
               else if err \<noteq> None then Some ((None, r'), s)
               else writeChunks_loop r' blockSize write (uadd64 offset importChunkSize) s
             }))"
  by pat_completeness auto

termination
  by (relation "measure (\<lambda>(r, _). length (rd_bytes r))") (auto dest!: sym [of "(_, _, _)"] ReadFull_progress)

declare writeChunks_loop.simps [simp del]

definition writeChunks ::
  "reader \<Rightarrow> int \<Rightarrow> (nat \<Rightarrow> char list \<Rightarrow> ('s, error option) go) \<Rightarrow> ('s, error option \<times> reader) go" where
  "writeChunks r blockSize write = writeChunks_loop r blockSize write 0"

section \<open>The reference\<close>

text \<open>The block sizes the loop is right for: the positive divisors of the chunk size, which the CRD's
  512, 2048 and 4096 are.\<close>

definition block_size_ok :: "int \<Rightarrow> bool" where
  "block_size_ok bs \<longleftrightarrow> 0 < bs \<and> bs dvd int importChunkSize"

lemma block_size_ok_CRD: "bs \<in> {512, 2048, 4096} \<Longrightarrow> block_size_ok bs"
  by (auto simp: block_size_ok_def importChunkSize_def)

definition pad_block :: "int \<Rightarrow> char list \<Rightarrow> char list" where
  "pad_block bs xs = xs @ replicate (nat (round_up (int (length xs)) bs) - length xs) zero_byte"

text \<open>The writes that copy a list of bytes, chunk by chunk.\<close>

function chunk_writes :: "int \<Rightarrow> nat \<Rightarrow> char list \<Rightarrow> (nat \<times> char list) list" where
  "chunk_writes bs offset xs =
     (if xs = [] then []
      else let chunk = pad_block bs (take importChunkSize xs) in
        (if chunk = replicate (length chunk) zero_byte then [] else [(offset, chunk)])
        @ chunk_writes bs (offset + importChunkSize) (drop importChunkSize xs))"
  by pat_completeness auto

termination
  by (relation "measure (\<lambda>(_, _, xs). length xs)") (auto simp: importChunkSize_def)

declare chunk_writes.simps [simp del]

fun run_writes ::
  "(nat \<Rightarrow> char list \<Rightarrow> ('s, error option) go) \<Rightarrow> (nat \<times> char list) list \<Rightarrow> ('s, error option) go" where
  "run_writes write [] s = Some (None, s)"
| "run_writes write ((offset, data) # ws) s = do {
     (err, s) \<leftarrow> write offset data s;
     if err \<noteq> None then Some (err, s) else run_writes write ws s
   }"

text \<open>What a disk reads as: blank, it is all zeros, and a write replaces the bytes it covers.\<close>

definition blank_disk :: "nat \<Rightarrow> char" where
  "blank_disk i = zero_byte"

definition disk_write :: "nat \<times> char list \<Rightarrow> (nat \<Rightarrow> char) \<Rightarrow> nat \<Rightarrow> char" where
  "disk_write w d i =
     (case w of (offset, data) \<Rightarrow>
        if offset \<le> i \<and> i < offset + length data then data ! (i - offset) else d i)"

definition disk_after :: "(nat \<times> char list) list \<Rightarrow> nat \<Rightarrow> char" where
  "disk_after ws = fold disk_write ws blank_disk"

definition bytes_at :: "char list \<Rightarrow> nat \<Rightarrow> char" where
  "bytes_at xs i = (if i < length xs then xs ! i else zero_byte)"

section \<open>The reference is right\<close>

lemma length_pad_block:
  assumes "block_size_ok bs"
  shows "int (length (pad_block bs xs)) = round_up (int (length xs)) bs"
  using round_up_bounds(1) [of bs "int (length xs)"] assms
  by (simp add: pad_block_def block_size_ok_def of_nat_diff nat_le_iff)

lemma length_pad_block_le:
  assumes "block_size_ok bs" and "length xs \<le> importChunkSize"
  shows "length (pad_block bs xs) \<le> importChunkSize"
  using round_up_le [of bs "int importChunkSize" "int (length xs)"] length_pad_block [OF assms(1), of xs] assms
  by (simp add: block_size_ok_def)

lemma pad_block_full:
  assumes "block_size_ok bs" and "length xs = importChunkSize"
  shows "pad_block bs xs = xs"
  using length_pad_block_le [OF assms(1), of xs] assms(2)
  by (simp add: pad_block_def)

lemma bytes_at_pad_block [simp]: "bytes_at (pad_block bs xs) = bytes_at xs"
  by (rule ext) (simp add: bytes_at_def pad_block_def nth_append)

lemma bytes_at_zeros: "xs = replicate n zero_byte \<Longrightarrow> bytes_at xs = blank_disk"
  by (rule ext) (simp add: bytes_at_def blank_disk_def)

text \<open>Every write is at a chunk boundary, not before the start, and whole blocks long.\<close>

definition good_write :: "int \<Rightarrow> nat \<Rightarrow> nat \<times> char list \<Rightarrow> bool" where
  "good_write bs sz w \<longleftrightarrow>
     (case w of (offset, data) \<Rightarrow>
        importChunkSize dvd offset \<and> bs dvd int (length data)
        \<and> 0 < length data \<and> length data \<le> importChunkSize
        \<and> int (offset + length data) \<le> round_up (int sz) bs)"

lemma round_up_shift:
  assumes "0 < m" and "m dvd k"
  shows "round_up (k + n) m = k + round_up n m"
proof -
  from assms(2) obtain q where k: "k = m * q" ..
  have "k + n + m - 1 = (n + m - 1) + q * m" by (simp add: k algebra_simps)
  then have "(k + n + m - 1) div m = q + (n + m - 1) div m"
    using assms(1) by (simp only: div_mult_self1)
  then show ?thesis by (simp add: round_up_def k algebra_simps)
qed

lemma chunk_writes_good:
  assumes "block_size_ok bs" and "importChunkSize dvd offset"
  shows "list_all (good_write bs (offset + length xs)) (chunk_writes bs offset xs)"
  using assms
proof (induction bs offset xs rule: chunk_writes.induct)
  case (1 bs offset xs)
  show ?case
  proof (cases "xs = []")
    case True
    then show ?thesis by (simp add: chunk_writes.simps)
  next
    case False
    let ?c = "take importChunkSize xs" and ?k = importChunkSize
    have bs: "0 < bs" "bs dvd int ?k" using 1(2) by (simp_all add: block_size_ok_def)
    have len: "int (length (pad_block bs ?c)) = round_up (int (length ?c)) bs"
      by (rule length_pad_block [OF 1(2)])
    have pos: "0 < length (pad_block bs ?c)"
      using False by (simp add: pad_block_def importChunkSize_def)
    have "bs dvd int offset" using bs(2) 1(3) by (meson dvd_trans of_nat_dvd_iff)
    then have "round_up (int offset + int (length xs)) bs = int offset + round_up (int (length xs)) bs"
      by (rule round_up_shift [OF bs(1)])
    moreover have "round_up (int (length ?c)) bs \<le> round_up (int (length xs)) bs"
      using bs(1) by (simp add: round_up_def zdiv_mono1)
    ultimately have head: "good_write bs (offset + length xs) (offset, pad_block bs ?c)"
      using pos len length_pad_block_le [OF 1(2), of ?c] round_up_bounds(3) [OF bs(1)] 1(3)
      by (simp add: good_write_def)
    have tail: "list_all (good_write bs (offset + length xs))
        (chunk_writes bs (offset + ?k) (drop ?k xs))"
    proof (cases "length xs \<le> ?k")
      case True
      then show ?thesis by (simp add: chunk_writes.simps)
    next
      case long: False
      with 1(1) [OF False refl 1(2)] 1(3) show ?thesis by simp
    qed
    show ?thesis
      using head tail by (subst chunk_writes.simps) (simp add: Let_def)
  qed
qed

lemma disk_write_chunk:
  assumes "\<And>i. offset \<le> i \<Longrightarrow> d i = zero_byte"
  shows "disk_write (offset, xs) d = (\<lambda>i. if i < offset then d i else bytes_at xs (i - offset))"
  using assms by (intro ext) (auto simp: disk_write_def bytes_at_def)

lemma bytes_at_split:
  "bytes_at xs i = (if i < k then bytes_at (take k xs) i else bytes_at (drop k xs) (i - k))"
  by (auto simp: bytes_at_def)

lemma chunk_writes_content:
  assumes "\<And>i. offset \<le> i \<Longrightarrow> d i = zero_byte"
  shows "fold disk_write (chunk_writes bs offset xs) d
    = (\<lambda>i. if i < offset then d i else bytes_at xs (i - offset))"
  using assms
proof (induction bs offset xs arbitrary: d rule: chunk_writes.induct)
  case (1 bs offset xs)
  show ?case
  proof (cases "xs = []")
    case True
    with 1(2) show ?thesis by (auto simp: chunk_writes.simps bytes_at_def fun_eq_iff)
  next
    case False
    let ?k = importChunkSize and ?c = "take importChunkSize xs"
    let ?d = "\<lambda>i. if i < offset then d i else bytes_at ?c (i - offset)"
    let ?w = "if pad_block bs ?c = replicate (length (pad_block bs ?c)) zero_byte then []
              else [(offset, pad_block bs ?c)]"
    have head: "fold disk_write ?w d = ?d"
    proof (cases "pad_block bs ?c = replicate (length (pad_block bs ?c)) zero_byte")
      case True
      then have "bytes_at ?c = blank_disk" using bytes_at_zeros [OF True] by simp
      with True 1(2) show ?thesis by (auto simp: blank_disk_def fun_eq_iff)
    next
      case nonzero: False
      have "disk_write (offset, pad_block bs ?c) d
          = (\<lambda>i. if i < offset then d i else bytes_at (pad_block bs ?c) (i - offset))"
        by (rule disk_write_chunk) (rule 1(2))
      then have "disk_write (offset, pad_block bs ?c) d = ?d"
        unfolding bytes_at_pad_block .
      with nonzero show ?thesis by simp
    qed
    have zero: "?d i = zero_byte" if "offset + ?k \<le> i" for i
      using that by (auto simp: bytes_at_def)
    have "fold disk_write (chunk_writes bs offset xs) d
        = fold disk_write (chunk_writes bs (offset + ?k) (drop ?k xs)) ?d"
      using False head by (subst chunk_writes.simps) (simp add: Let_def)
    also have "\<dots> = (\<lambda>i. if i < offset + ?k then ?d i else bytes_at (drop ?k xs) (i - (offset + ?k)))"
      by (rule 1(1) [OF False refl zero])
    also have "\<dots> = (\<lambda>i. if i < offset then d i else bytes_at xs (i - offset))"
    proof
      fix i
      show "(if i < offset + ?k then ?d i else bytes_at (drop ?k xs) (i - (offset + ?k)))
          = (if i < offset then d i else bytes_at xs (i - offset))"
        using bytes_at_split [of xs "i - offset" ?k] by auto
    qed
    finally show ?thesis .
  qed
qed

lemma disk_after_chunk_writes: "disk_after (chunk_writes bs 0 xs) = bytes_at xs"
  by (simp add: disk_after_def chunk_writes_content blank_disk_def fun_eq_iff)

section \<open>The loop refines the reference\<close>

text \<open>A body that ends, or that the server cut short: then the reader's last error is one of the two
  that the loop takes for the end.\<close>

definition body_ends :: "reader \<Rightarrow> bool" where
  "body_ends r \<longleftrightarrow>
     rd_end r = IoEOF \<or> (is_unexpected_eof (rd_end r) \<and> \<not> is_eof (rd_end r))"

text \<open>The contract of \<^verbatim>\<open>io.Reader\<close>: an end of the input is reported as EOF itself, not as an error that
  wraps it. A reader that keeps it ends, or breaks off with another error.\<close>

definition reader_contract :: "reader \<Rightarrow> bool" where
  "reader_contract r \<longleftrightarrow> (is_eof (rd_end r) \<longrightarrow> rd_end r = IoEOF)"

definition forget_reader :: "((error option \<times> reader) \<times> 's) option \<Rightarrow> (error option \<times> 's) option" where
  "forget_reader m = map_option (\<lambda>((err, r), s). (err, s)) m"

lemma is_eof_simps [simp]:
  "is_eof IoEOF" "\<not> is_eof IoUnexpectedEOF" "is_unexpected_eof IoUnexpectedEOF" "\<not> is_unexpected_eof IoEOF"
  by (simp_all add: is_eof_def is_unexpected_eof_def)

lemma reader_ends_or_breaks:
  "reader_contract r \<Longrightarrow> body_ends r \<or> \<not> is_eof (rd_end r) \<and> \<not> is_unexpected_eof (rd_end r)"
  by (auto simp: reader_contract_def body_ends_def)

lemma body_ends_contract: "body_ends r \<Longrightarrow> reader_contract r"
  by (auto simp: reader_contract_def body_ends_def)

lemma round_up64_chunk:
  assumes "block_size_ok bs" and "length xs \<le> importChunkSize"
  shows "round_up64 (int (length xs)) bs = Some (int (length (pad_block bs xs)))"
proof -
  have "bs \<le> int importChunkSize"
    using assms(1) by (simp add: block_size_ok_def importChunkSize_def zdvd_imp_le)
  then have "int (length xs) + bs < 2 ^ 63"
    using assms(2) by (simp add: importChunkSize_def)
  with assms(1) length_pad_block [OF assms(1)] show ?thesis
    by (simp add: round_up64_exact block_size_ok_def)
qed

lemma forget_reader_simps [simp]:
  "forget_reader None = None"
  "forget_reader (Some ((err, r), s)) = Some (err, s)"
  "forget_reader (Option.bind m f) = Option.bind m (\<lambda>x. forget_reader (f x))"
  by (cases m; simp add: forget_reader_def)+

text \<open>A chunk of the reference is what the loop writes, if it writes at all.\<close>

lemma loop_chunk:
  assumes bs: "block_size_ok bs" and xs: "length xs \<le> importChunkSize"
  shows "writeChunks_loop r bs write offset s =
    (case ReadFull r importChunkSize of (got, err, r') \<Rightarrow>
       if err_is is_eof err then Some ((None, r'), s)
       else if err \<noteq> None \<and> \<not> err_is is_unexpected_eof err then Some ((err, r'), s)
       else do {
         let data = pad_block bs got;
         (werr, s) \<leftarrow> (if data \<noteq> replicate (length data) zero_byte then write offset data s
                       else Some (None, s));
         if werr \<noteq> None then Some ((werr, r'), s)
         else if err \<noteq> None then Some ((None, r'), s)
         else writeChunks_loop r' bs write (uadd64 offset importChunkSize) s
       })"
proof -
  obtain got err r' where rf: "ReadFull r importChunkSize = (got, err, r')"
    by (cases "ReadFull r importChunkSize") auto
  then have got: "length got \<le> importChunkSize"
    by (auto simp: ReadFull_def Let_def split: if_splits)
  let ?data = "pad_block bs got"
  have "length got \<le> length ?data" by (simp add: pad_block_def)
  moreover have "got @ replicate (length ?data - length got) zero_byte = ?data"
    by (simp add: pad_block_def)
  ultimately show ?thesis
    using length_pad_block_le [OF bs got]
    by (subst writeChunks_loop.simps) (simp add: rf round_up64_chunk [OF bs got] Let_def)
qed

lemma writeChunks_loop_refines:
  assumes bs: "block_size_ok bs" and "body_ends r"
    and "offset + length (rd_bytes r) + importChunkSize < 2 ^ 64"
  shows "forget_reader (writeChunks_loop r bs write offset s) = run_writes write (chunk_writes bs offset (rd_bytes r)) s"
  using assms(2,3)
proof (induction "length (rd_bytes r)" arbitrary: r offset s rule: less_induct)
  case less
  let ?k = importChunkSize and ?c = "take importChunkSize (rd_bytes r)"
  let ?r = "r\<lparr>rd_bytes := drop ?k (rd_bytes r)\<rparr>"
  have k: "0 < ?k" by (simp add: importChunkSize_def)
  have c: "length ?c \<le> ?k" by simp
  have off: "uadd64 offset ?k = offset + ?k" using less(3) by (intro uadd64_id) simp
  consider "rd_bytes r = []" | "rd_bytes r \<noteq> []" "length (rd_bytes r) < ?k" | "?k \<le> length (rd_bytes r)"
    by linarith
  then show ?case
  proof cases
    case 1
    with less(2) k show ?thesis
      by (auto simp: loop_chunk [OF bs c] ReadFull_def chunk_writes.simps body_ends_def pad_block_def
          round_up_def bs [unfolded block_size_ok_def] Let_def)
  next
    case 2
    with less(2) show ?thesis
      by (cases "write offset (pad_block bs (rd_bytes r)) s")
        (auto simp: loop_chunk [OF bs c] ReadFull_def chunk_writes.simps [of bs offset] body_ends_def
          chunk_writes.simps [of _ _ "[]"] Let_def)
  next
    case 3
    then have ne: "rd_bytes r \<noteq> []" using k by auto
    have IH: "forget_reader (writeChunks_loop ?r bs write (offset + ?k) s')
        = run_writes write (chunk_writes bs (offset + ?k) (drop ?k (rd_bytes r))) s'" for s'
      using less(1) [of ?r "offset + ?k" s'] less(2,3) 3 k by (simp add: body_ends_def)
    show ?thesis
      using 3 ne IH
      by (cases "write offset (pad_block bs ?c) s")
        (auto simp: loop_chunk [OF bs c] ReadFull_def chunk_writes.simps [of bs offset] off Let_def
          case_prod_unfold)
  qed
qed

lemma writeChunks_refines:
  assumes "block_size_ok bs" and "body_ends r" and "length (rd_bytes r) + importChunkSize < 2 ^ 64"
  shows "forget_reader (writeChunks r bs write s) = run_writes write (chunk_writes bs 0 (rd_bytes r)) s"
  using writeChunks_loop_refines [OF assms(1,2), of 0] assms(3) by (simp add: writeChunks_def)

text \<open>A nil error says the body was read to its end, and a reader that stops for another reason is
  never passed over.\<close>

lemma ReadFull_err: "ReadFull r k = (got, Some e, r') \<Longrightarrow> rd_bytes r' = []"
  by (auto simp: ReadFull_def Let_def split: if_splits)

lemma ReadFull_rd_end: "ReadFull r k = (got, err, r') \<Longrightarrow> rd_end r' = rd_end r"
  by (auto simp: ReadFull_def Let_def split: if_splits)

lemma writeChunks_loop_consumes:
  "wlp (writeChunks_loop r bs write offset s) (\<lambda>(err, r') s'. err = None \<longrightarrow> rd_bytes r' = [])"
proof (induction "length (rd_bytes r)" arbitrary: r offset s rule: less_induct)
  case less
  obtain got err r' where rf: "ReadFull r importChunkSize = (got, err, r')"
    by (cases "ReadFull r importChunkSize") auto
  have IH: "wlp (writeChunks_loop r' bs write o' s') (\<lambda>(err, r') s'. err = None \<longrightarrow> rd_bytes r' = [])"
    if "err = None" for o' s'
    using less ReadFull_progress rf that by blast
  show ?case
    using rf ReadFull_err [of r importChunkSize got _ r']
    by (subst writeChunks_loop.simps)
      (auto simp: err_is_def IH Let_def split: option.split intro!: wlp_any)
qed

lemma writeChunks_loop_broken:
  assumes "\<not> is_eof (rd_end r)" and "\<not> is_unexpected_eof (rd_end r)"
  shows "wlp (writeChunks_loop r bs write offset s) (\<lambda>(err, r') s'. err \<noteq> None)"
  using assms
proof (induction "length (rd_bytes r)" arbitrary: r offset s rule: less_induct)
  case less
  obtain got err r' where rf: "ReadFull r importChunkSize = (got, err, r')"
    by (cases "ReadFull r importChunkSize") auto
  have IH: "wlp (writeChunks_loop r' bs write o' s') (\<lambda>(err, r') s'. err \<noteq> None)"
    if "err = None" for o' s'
    using less ReadFull_progress rf that ReadFull_rd_end [OF rf] by simp
  have "err = None \<or> err = Some (rd_end r)"
    using rf less(2) by (auto simp: ReadFull_def Let_def split: if_splits)
  then show ?case
    using rf less(2,3)
    by (subst writeChunks_loop.simps)
      (auto simp: err_is_def IH Let_def simp del: not_None_eq split: option.split intro!: wlp_any)
qed

lemma run_writes_no_panic: "(\<And>offset data s. write offset data s \<noteq> None) \<Longrightarrow> run_writes write ws s \<noteq> None"
proof (induction ws arbitrary: s)
  case (Cons w ws)
  obtain off dat where w: "w = (off, dat)" by (cases w)
  obtain e s1 where "write off dat s = Some (e, s1)" using Cons.prems [of off dat s] by auto
  then show ?case by (simp add: w Cons.IH [OF Cons.prems] del: not_None_eq)
qed simp

text \<open>The effects of the loop are those of its writes.\<close>

lemma writeChunks_loop_adds_all:
  fixes s :: "('c, 'w) sys"
  assumes "\<And>offset data s. adds_all (write offset data s) s p"
  shows "adds_all (writeChunks_loop r bs write offset s) s p"
proof (induction "length (rd_bytes r)" arbitrary: r offset s rule: less_induct)
  case less
  obtain got err r' where rf: "ReadFull r importChunkSize = (got, err, r')"
    by (cases "ReadFull r importChunkSize") auto
  have IH: "adds_all (writeChunks_loop r' bs write o' s') s' p"
    if "err = None" for o' and s' :: "('c, 'w) sys"
    using less ReadFull_progress rf that by blast
  show ?case
    using rf assms
    by (subst writeChunks_loop.simps)
      (auto simp: err_is_def IH Let_def split: option.split
        intro!: adds_all_ret adds_all_panic adds_all_bind)
qed

section \<open>The loop returns\<close>

lemma writeChunks_loop_runs:
  assumes bs: "block_size_ok bs" and w: "\<And>offset data s. runs (write offset data s)"
  shows "runs (writeChunks_loop r bs write offset s)"
proof (induction "length (rd_bytes r)" arbitrary: r offset s rule: less_induct)
  case less
  obtain got err r' where rf: "ReadFull r importChunkSize = (got, err, r')"
    by (cases "ReadFull r importChunkSize") auto
  have IH: "err = None \<Longrightarrow> runs (writeChunks_loop r' bs write o' s')" for o' s'
    using less ReadFull_progress rf by blast
  show ?case
    using rf w IH
    by (subst loop_chunk [OF bs, of "[]"]) (auto simp: Let_def intro!: runs_rules)
qed

lemma writeChunks_runs:
  "block_size_ok bs \<Longrightarrow> (\<And>offset data s. runs (write offset data s)) \<Longrightarrow> runs (writeChunks r bs write s)"
  unfolding writeChunks_def by (rule writeChunks_loop_runs)

section \<open>Properties\<close>

text \<open>C10: \<^verbatim>\<open>writeChunks\<close> copies the body. On a body that ends, with a block size the CRD admits, it
  does exactly what running the reference list of writes does, errors included; a blank disk reads as
  the body followed by zeros after those writes; and each of them starts at a chunk boundary, is a
  positive number of whole blocks and at most one chunk long, and ends no later than the block in
  which the body ends.\<close>

theorem writeChunks_copies_the_body:
  assumes "block_size_ok bs" and "body_ends r" and "length (rd_bytes r) + importChunkSize < 2 ^ 64"
  shows "forget_reader (writeChunks r bs write s) = run_writes write (chunk_writes bs 0 (rd_bytes r)) s
    \<and> disk_after (chunk_writes bs 0 (rd_bytes r)) = bytes_at (rd_bytes r)
    \<and> list_all (good_write bs (length (rd_bytes r))) (chunk_writes bs 0 (rd_bytes r))"
  using writeChunks_refines [OF assms, of "write" s] disk_after_chunk_writes [of bs "rd_bytes r"]
    chunk_writes_good [OF assms(1), of 0 "rd_bytes r"]
  by simp

text \<open>A write that keeps a log, and a short body.\<close>

definition log_write :: "nat \<Rightarrow> char list \<Rightarrow> ((nat \<times> char list) list, error option) go" where
  "log_write offset data log = Some (None, log @ [(offset, data)])"

definition short_body :: reader where
  "short_body = \<lparr>rd_bytes = ''data'', rd_end = IoEOF\<rparr>"

lemma log_write_runs: "runs (log_write offset data log)"
  by (simp add: log_write_def runs_def)

lemma short_body_ok: "body_ends short_body" "length (rd_bytes short_body) + importChunkSize < 2 ^ 64"
  by (simp_all add: short_body_def body_ends_def importChunkSize_def)

theorem writeChunks_copies_the_body_witness:
  "forget_reader (writeChunks short_body 512 log_write []) = run_writes log_write (chunk_writes 512 0 ''data'') []
    \<and> disk_after (chunk_writes 512 0 ''data'') = bytes_at ''data''"
  using writeChunks_copies_the_body [of 512 short_body log_write "[]"] short_body_ok
  by (simp add: block_size_ok_CRD short_body_def)

text \<open>C36: \<^verbatim>\<open>writeChunks\<close> always returns. For every reader, whatever it delivers and however it
  ends, and every admitted block size, it neither loops forever nor indexes out of its buffer, as long
  as the writes return. A nil error says that the reader ended with EOF or an unexpected EOF and that
  all its bytes were read; so a body that breaks off with any other error is reported as one.\<close>

theorem writeChunks_always_returns:
  assumes "block_size_ok bs" and "\<And>offset data s. runs (write offset data s)"
  shows "\<exists>err r' s'. writeChunks r bs write s = Some ((err, r'), s')
    \<and> (err = None \<longrightarrow> (is_eof (rd_end r) \<or> is_unexpected_eof (rd_end r)) \<and> rd_bytes r' = [])"
proof -
  have "runs (writeChunks r bs write s)"
    by (rule writeChunks_runs) (rule assms)+
  then show ?thesis
    using writeChunks_loop_broken [of r bs "write" 0 s] writeChunks_loop_consumes [of r bs "write" 0 s]
    by (cases "is_eof (rd_end r)"; cases "is_unexpected_eof (rd_end r)") (auto simp: runs_def writeChunks_def)
qed

theorem writeChunks_always_returns_witness:
  "\<exists>err r' s'. writeChunks \<lparr>rd_bytes = ''data'', rd_end = Plain ''connection reset''\<rparr> 512 log_write [] = Some ((Some err, r'), s')"
  using writeChunks_always_returns [of 512 log_write "\<lparr>rd_bytes = ''data'', rd_end = Plain ''connection reset''\<rparr>" "[]"]
  by (auto simp: block_size_ok_CRD log_write_runs is_eof_def is_unexpected_eof_def)

text \<open>C37: a body cut short by the server passes for a whole one. The error with which Go's HTTP
  client ends a body that is shorter than its announced length is an unexpected EOF, which the loop
  takes for its own last, partial chunk: it makes the same writes and returns the same result as for
  a body that ends there. Only a digest in the spec tells the two apart.\<close>

theorem truncated_body_passes:
  assumes "block_size_ok bs" and "length (rd_bytes r) + importChunkSize < 2 ^ 64"
  shows "forget_reader (writeChunks (r\<lparr>rd_end := IoUnexpectedEOF\<rparr>) bs write s)
    = forget_reader (writeChunks (r\<lparr>rd_end := IoEOF\<rparr>) bs write s)"
  using assms by (simp add: writeChunks_refines body_ends_def)

theorem truncated_body_passes_witness:
  "forget_reader (writeChunks (short_body\<lparr>rd_end := IoUnexpectedEOF\<rparr>) 512 log_write [])
    = forget_reader (writeChunks (short_body\<lparr>rd_end := IoEOF\<rparr>) 512 log_write [])"
  using short_body_ok(2) by (intro truncated_body_passes) (simp_all add: block_size_ok_CRD)

end
