(* ===== verification/Image_Import.thy ===== *)
theory Image_Import
  imports Image_Lookup Chunk_Writer
begin

text \<open>
  The import of an image from a URL, \<^verbatim>\<open>internal/controller/oxide/image_controller.go\<close>: a state
  machine driven by what Oxide reports of the import disk. Each reconcile moves it one step: create
  a disk that takes bulk writes, write the download to it, stop and finalize it into a snapshot;
  an interrupted or failed write is thrown away with its disk and started again.
\<close>

section \<open>Names and sizes\<close>

definition gib :: int where
  "gib = 2 ^ 30"

text \<open>\<open>None\<close> is the panic of slicing a UID that is shorter than eight characters.\<close>

definition importName :: "image \<Rightarrow> string option" where
  "importName img =
     (let name = OxideName (is_OxideName (o_spec img)) (o_meta img);
          name = (if 47 < length name then take 47 name else name)
      in if length (om_UID (o_meta img)) < 8 then None
         else Some (name @ ''-import-'' @ take 8 (om_UID (o_meta img))))"

definition import_disk_size :: "int \<Rightarrow> int option" where
  "import_disk_size len = map_option (max gib) (round_up64 len gib)"

text \<open>\<^verbatim>\<open>hex.EncodeToString\<close>.\<close>

fun hex_encode :: "char list \<Rightarrow> string" where
  "hex_encode [] = []"
| "hex_encode (c # cs) = hex_digit (byte_of c div 16) # hex_digit (byte_of c mod 16) # hex_encode cs"

section \<open>The operations\<close>

definition download ::
  "('c, 'w) env \<Rightarrow> string \<Rightarrow> (('c, 'w) sys, error + http_response) go" where
  "download E url s =
     (case e_new_http_request E url of
        Some err \<Rightarrow> Some (Inl err, s)
      | None \<Rightarrow> do {
          (resp, s) \<leftarrow> perform (Http url) err_of (e_http_do E url) s;
          (case resp of
             Inl err \<Rightarrow> Some (Inl err, s)
           | Inr resp \<Rightarrow>
               if hr_StatusCode resp \<noteq> 200 \<or> hr_ContentLength resp < 0 then
                 let err = Plain (''downloading '' @ url @ '': got '' @ hr_Status resp @ '' with length ''
                       @ itoa (hr_ContentLength resp) @ '', want 200 OK with a known length'');
                     err = (if hr_StatusCode resp < 500 \<and> hr_StatusCode resp \<noteq> 429 \<and> hr_StatusCode resp \<noteq> 408
                            then Failed err else err)
                 in Some (Inl err, s)
               else Some (Inr resp, s))
        })"

definition deleteImportDisk ::
  "('c, 'w) env \<Rightarrow> 'c \<Rightarrow> string \<Rightarrow> string \<Rightarrow> (('c, 'w) sys, error option) go" where
  "deleteImportDisk E oc project disk s = do {
     (_, s) \<leftarrow> oxide_do E oc (DiskBulkWriteImportStop project disk) s;
     (_, s) \<leftarrow> oxide_do E oc (DiskFinalizeImport project disk '''') s;
     (err, s) \<leftarrow> oxide_do E oc (DiskDelete project disk) s;
     Some (if not_found_err err then None else err, s)
   }"

definition deleteImport ::
  "('c, 'w) env \<Rightarrow> 'c \<Rightarrow> image \<Rightarrow> (('c, 'w) sys, error option) go" where
  "deleteImport E oc img s =
     (if is_URL (o_spec img) = '''' then Some (None, s)
      else case importName img of
        None \<Rightarrow> None
      | Some name \<Rightarrow> do {
          let project = ProjectName (is_ProjectRef (o_spec img));
          (err, s) \<leftarrow> oxide_do E oc (SnapshotDelete project name) s;
          if err \<noteq> None \<and> \<not> not_found_err err then Some (err, s)
          else deleteImportDisk E oc project name s
        })"

definition createImportDisk ::
  "('c, 'w) env \<Rightarrow> 'c \<Rightarrow> image \<Rightarrow> string \<Rightarrow> (('c, 'w) sys, error option) go" where
  "createImportDisk E oc img name s = do {
     (resp, s) \<leftarrow> download E (is_URL (o_spec img)) s;
     (case resp of
        Inl err \<Rightarrow> Some (Some err, s)
      | Inr resp \<Rightarrow>
          (case import_disk_size (hr_ContentLength resp) of
             None \<Rightarrow> None
           | Some sz \<Rightarrow> do {
               (disk, s) \<leftarrow> oxide (ox_disk (e_oxide E)) oc (DiskCreate (ProjectName (is_ProjectRef (o_spec img)))
                 \<lparr>dc_Name = name,
                  dc_Description = ''Temporary disk for importing image '' @ om_Name (o_meta img),
                  dc_Size = sz,
                  dc_DiskBackend = DiskBackendDistributed
                    (DiskSourceImportingBlocks (is_BlockSize (o_spec img)))\<rparr>) s;
               (case disk of
                  Inl err \<Rightarrow> Some (Some err, s)
                | Inr _ \<Rightarrow> Some (Some (Progressing ''creating import disk''), s))
             }))
   }"

definition bulk_write ::
  "('c, 'w) env \<Rightarrow> 'c \<Rightarrow> string \<Rightarrow> string \<Rightarrow> nat \<Rightarrow> char list \<Rightarrow> (('c, 'w) sys, error option) go" where
  "bulk_write E oc project disk offset data =
     oxide_do E oc (DiskBulkWriteImport project disk (base64_encode data) offset)"

text \<open>\<^verbatim>\<open>writeDisk\<close>, in three parts: the body is copied and hashed, and then the import is finished one
  way or the other.\<close>

definition copyBody ::
  "('c, 'w) env \<Rightarrow> 'c \<Rightarrow> image \<Rightarrow> string \<Rightarrow> http_response \<Rightarrow> (('c, 'w) sys, error option) go" where
  "copyBody E oc img name resp s = do {
     let spec = o_spec img;
     let project = ProjectName (is_ProjectRef spec);
     ((err, rest), s) \<leftarrow> writeChunks (hr_Body resp) (is_BlockSize spec) (bulk_write E oc project name) s;
     let body = rd_bytes (hr_Body resp);
     let sum = take (length body - length (rd_bytes rest)) body;
     Some (if err = None \<and> is_SHA256 spec \<noteq> ''''
             \<and> hex_encode (Sha256Sum (e_lib E) sum) \<noteq> is_SHA256 spec
           then Some (Failed (Plain (''sha256 of '' @ is_URL spec @ '' does not match spec.sha256'')))
           else err, s)
   }"

definition finishImport ::
  "('c, 'w) env \<Rightarrow> 'c \<Rightarrow> string \<Rightarrow> string \<Rightarrow> error option \<Rightarrow> (('c, 'w) sys, error option) go" where
  "finishImport E oc project name err s = do {
     (err, s) \<leftarrow> (if err = None then oxide_do E oc (DiskBulkWriteImportStop project name) s
                  else Some (err, s));
     if err \<noteq> None then do {
       (derr, s) \<leftarrow> deleteImportDisk E oc project name s;
       Some (errors_Join [err, derr], s)
     }
     else do {
       (err, s) \<leftarrow> oxide_do E oc (DiskFinalizeImport project name name) s;
       Some (case err of Some err \<Rightarrow> Some err | None \<Rightarrow> Some (Progressing ''finalizing import''), s)
     }
   }"

definition writeDisk ::
  "('c, 'w) env \<Rightarrow> 'c \<Rightarrow> image \<Rightarrow> string \<Rightarrow> int \<Rightarrow> (('c, 'w) sys, error option) go" where
  "writeDisk E oc img name diskSize s = do {
     let spec = o_spec img;
     (resp, s) \<leftarrow> download E (is_URL spec) s;
     (case resp of
        Inl err \<Rightarrow> Some (Some err, s)
      | Inr resp \<Rightarrow>
          if diskSize < hr_ContentLength resp
          then Some (Some (Plain (is_URL spec @ '' is larger than import disk '' @ name)), s)
          else do {
            let project = ProjectName (is_ProjectRef spec);
            (err, s) \<leftarrow> oxide_do E oc (DiskBulkWriteImportStart project name) s;
            (case err of
               Some err \<Rightarrow> Some (Some err, s)
             | None \<Rightarrow> do {
                 (err, s) \<leftarrow> copyBody E oc img name resp s;
                 finishImport E oc project name err s
               })
          })
   }"

definition importDisk ::
  "('c, 'w) env \<Rightarrow> 'c \<Rightarrow> image \<Rightarrow> (('c, 'w) sys, error option) go" where
  "importDisk E oc img s =
     (case importName img of
        None \<Rightarrow> None
      | Some name \<Rightarrow> do {
          let project = ProjectName (is_ProjectRef (o_spec img));
          (disk, s) \<leftarrow> oxide (ox_disk (e_oxide E)) oc (DiskView project name) s;
          (case disk of
             Inl err \<Rightarrow>
               if is_object_not_found err then createImportDisk E oc img name s
               else Some (Some err, s)
           | Inr disk \<Rightarrow>
               (case od_State disk of
                  DiskStateImportReady \<Rightarrow> writeDisk E oc img name (wrap64 (od_Size disk)) s
                | DiskStateImportingFromBulkWrites \<Rightarrow> do {
                    (err, s) \<leftarrow> deleteImportDisk E oc project name s;
                    Some (case err of Some err \<Rightarrow> Some err
                      | None \<Rightarrow> Some (Progressing ''restarting interrupted import''), s)
                  }
                | DiskStateDetached \<Rightarrow> do {
                    (err, s) \<leftarrow> deleteImportDisk E oc project name s;
                    Some (case err of Some err \<Rightarrow> Some err
                      | None \<Rightarrow> Some (Progressing ''restarting interrupted import''), s)
                  }
                | DiskStateCreating \<Rightarrow>
                    Some (Some (Progressing (''import disk is '' @ DiskStateText (e_lib E) (od_State disk))), s)
                | DiskStateFinalizing \<Rightarrow>
                    Some (Some (Progressing (''import disk is '' @ DiskStateText (e_lib E) (od_State disk))), s)
                | _ \<Rightarrow> Some (Some (Plain (''import disk '' @ name @ '' is ''
                    @ DiskStateText (e_lib E) (od_State disk))), s)))
        })"

text \<open>\<^verbatim>\<open>createImage\<close> returns a pointer and an error, and both may be nil.\<close>

definition createImage ::
  "('c, 'w) env \<Rightarrow> 'c \<Rightarrow> image \<Rightarrow> (('c, 'w) sys, ox_image option \<times> error option) go" where
  "createImage E oc img s =
     (let spec = o_spec img; url = (is_URL spec \<noteq> '''') in
      case (if url then importName img else Some (is_Snapshot spec)) of
        None \<Rightarrow> None
      | Some snapshot \<Rightarrow> do {
          let project = ProjectName (is_ProjectRef spec);
          (snap, s) \<leftarrow> oxide (ox_snapshot (e_oxide E)) oc (SnapshotView project snapshot) s;
          (case snap of
             Inl err \<Rightarrow>
               if url \<and> is_object_not_found err then do {
                 (err, s) \<leftarrow> importDisk E oc img s;
                 Some ((None, err), s)
               }
               else Some ((None, Some err), s)
           | Inr snap \<Rightarrow>
               if os_State snap = SnapshotStateCreating
               then Some ((None, Some (Progressing ''snapshot is creating'')), s)
               else do {
                 (cur, s) \<leftarrow> oxide (ox_image (e_oxide E)) oc (ImageCreate project
                   \<lparr>imc_Name = OxideName (is_OxideName spec) (o_meta img), imc_Description = is_Description spec,
                    imc_Os = is_OS spec, imc_Version = is_Version spec, imc_SourceSnapshot = os_Id snap\<rparr>) s;
                 (case cur of
                    Inl err \<Rightarrow> Some ((None, Some err), s)
                  | Inr cur \<Rightarrow> Some ((Some cur, None), s))
               })
        })"

section \<open>Names and sizes: facts\<close>

lemma importName_shape:
  "importName img = Some name \<Longrightarrow>
     \<exists>k. name = take k (OxideName (is_OxideName (o_spec img)) (o_meta img)) @ ''-import-'' @ take 8 (om_UID (o_meta img))
       \<and> k \<le> 47 \<and> length (take 8 (om_UID (o_meta img))) = 8
       \<and> (OxideName (is_OxideName (o_spec img)) (o_meta img) \<noteq> [] \<longrightarrow> 0 < k)"
proof -
  let ?n = "OxideName (is_OxideName (o_spec img)) (o_meta img)"
  assume "importName img = Some name"
  then show ?thesis
    by (intro exI [of _ "min 47 (length ?n)"]) (auto simp: importName_def Let_def min_def split: if_splits)
qed

lemma importName_suffix: "importName img = Some name \<Longrightarrow> take 8 (om_UID (o_meta img)) = drop (length name - 8) name"
  by (auto dest!: importName_shape)

lemma importName_not_empty: "importName img = Some name \<Longrightarrow> name \<noteq> ''''"
  by (drule importName_shape) auto

lemma importName_None: "importName img = None \<longleftrightarrow> length (om_UID (o_meta img)) < 8"
  by (simp add: importName_def Let_def)

text \<open>The name is a valid Oxide name if the image's is and the UID starts like one.\<close>

lemma importName_oxide_name:
  assumes "importName img = Some name"
    and "oxide_name (OxideName (is_OxideName (o_spec img)) (o_meta img))"
    and "list_all alnum_char (take 8 (om_UID (o_meta img)))"
  shows "oxide_name name"
proof -
  let ?n = "OxideName (is_OxideName (o_spec img)) (o_meta img)" and ?u = "take 8 (om_UID (o_meta img))"
  have n: "?n \<noteq> []" "list_all name_char ?n" "lower_char (hd ?n)"
    using assms(2) by (auto simp: oxide_name_def dest: name_pattern_not_Nil name_pattern_chars name_pattern_first)
  from importName_shape [OF assms(1)] n(1) obtain k where
    name: "name = take k ?n @ ''-import-'' @ ?u" and k: "0 < k" "k \<le> 47" and u: "length ?u = 8"
    by blast
  have take: "take k ?n \<noteq> []" "list_all name_char (take k ?n)" "lower_char (hd (take k ?n))"
    using n k by (auto simp: list_all_iff dest: in_set_takeD)
  have sep: "list_all name_char ''-import-''"
    by (simp add: name_char_def alnum_char_def lower_char_def)
  have "list_all name_char ?u" using assms(3) by (auto simp: list_all_iff name_char_def)
  moreover have "?u \<noteq> []" using u by auto
  moreover from this have "alnum_char (last ?u)" using assms(3) last_in_set [of ?u] by (auto simp: list_all_iff)
  ultimately show ?thesis
    unfolding name oxide_name_def
    using take sep u k(2) by (intro name_pattern_append) auto
qed

text \<open>The size of the import disk: whole GiB, at least one, room for the file and less than one GiB
  to spare, for every length short of the last GiB of the 64-bit range, where the sum wraps.\<close>

lemma import_disk_size_exact:
  assumes "0 \<le> len" and "len + gib < 2 ^ 63"
  shows "import_disk_size len = Some (max gib (round_up len gib))"
  using round_up64_exact [of len gib] assms by (simp add: import_disk_size_def gib_def)

lemma import_disk_size_fits:
  assumes "0 \<le> len" and "len + gib < 2 ^ 63"
  shows "\<exists>sz. import_disk_size len = Some sz \<and> gib dvd sz \<and> gib \<le> sz \<and> len \<le> sz
    \<and> sz < max (len + gib) (gib + 1) \<and> int64_ok sz"
proof -
  have g: "0 < gib" by (simp add: gib_def)
  note r = round_up_bounds [OF g, of len]
  have "gib dvd max gib (round_up len gib)" using r(3) by (simp add: max_def)
  then show ?thesis
    using import_disk_size_exact [OF assms] r assms by (auto simp: max_def int64_ok_def gib_def)
qed

lemma quotient_bounds:
  fixes a g :: int
  assumes "0 \<le> a" and "0 < g"
  shows "0 \<le> a div g \<and> a div g \<le> a \<and> a div g * g \<le> a \<and> 0 \<le> a div g * g"
proof -
  have "a div g * g = a - a mod g" by (simp add: minus_mod_eq_div_mult)
  moreover have "a div g \<le> a div 1" using assms by (intro zdiv_mono2) auto
  moreover have "0 \<le> a div g" using assms by (simp add: pos_imp_zdiv_nonneg_iff)
  moreover have "0 \<le> a mod g" "a mod g \<le> a" using assms by (simp_all add: zmod_le_nonneg_dividend)
  ultimately show ?thesis by simp
qed

lemma quotient_negative:
  fixes y g :: int
  assumes "y < 0" and "- (2 ^ 63) \<le> y" and "0 < g"
  shows "int64_ok (y sdiv g) \<and> int64_ok (y sdiv g * g) \<and> y sdiv g * g \<le> 0"
proof -
  have "y sdiv g = - ((- y) div g)" using assms by (simp add: signed_divide_int_def)
  moreover have "0 \<le> (- y) div g \<and> (- y) div g \<le> - y \<and> (- y) div g * g \<le> - y \<and> 0 \<le> (- y) div g * g"
    using assms by (intro quotient_bounds) auto
  ultimately show ?thesis using assms(2) unfolding int64_ok_def by simp
qed

lemma import_disk_size_wraps:
  assumes "2 ^ 63 < len + gib" and "len < 2 ^ 63"
  shows "import_disk_size len = Some gib"
proof -
  define y where "y = len + gib - 2 ^ 64 - 1"
  have w: "wrap64 (len + gib) = len + gib - 2 ^ 64"
    using assms by (intro wrap64_above) (auto simp: gib_def)
  have y: "y < 0" "- (2 ^ 63) \<le> y"
    using assms by (auto simp: y_def gib_def)
  have "round_up64 len gib = Some (wrap64 (wrap64 (wrap64 y sdiv gib) * gib))"
    by (simp add: round_up64_def add64_def w sub64_def mul64_def div64_def y_def) (simp add: gib_def)
  moreover have "wrap64 y = y" using y by (intro wrap64_id) (simp add: int64_ok_def)
  ultimately show ?thesis
    using quotient_negative [OF y, of gib] by (simp add: import_disk_size_def wrap64_id gib_def)
qed

lemma import_disk_size_no_panic: "import_disk_size len \<noteq> None"
  by (simp add: import_disk_size_def round_up64_def div64_def gib_def)

section \<open>Effects\<close>

lemma download_adds: "adds_all (download E url s) s (\<lambda>e. \<exists>u. e = Http url u)"
  unfolding download_def
  by (auto intro!: adds_all_ret adds_all_bind adds_all_perform split: option.split sum.split simp: Let_def)

lemma deleteImportDisk_harmless: "adds_all (deleteImportDisk E oc p d s) s harmless"
  unfolding deleteImportDisk_def
  by (auto intro!: adds_all_intros)

lemma deleteImport_harmless: "adds_all (deleteImport E oc img s) s harmless"
  unfolding deleteImport_def Let_def
  by (auto intro!: adds_all_intros deleteImportDisk_harmless split: option.split)

lemma bulk_write_adds: "adds_all (bulk_write E oc p d off xs s) s (\<lambda>e. \<exists>b u. e = Oxide oc (DiskBulkWriteImport p d b off) u)"
  unfolding bulk_write_def by (auto intro!: adds_all_oxide_do)

text \<open>What an import does to Oxide concerns its own disk, but for the views.\<close>

fun on_import_disk :: "string \<Rightarrow> string \<Rightarrow> 'c effect \<Rightarrow> bool" where
  "on_import_disk p d (Http _ _) = True"
| "on_import_disk p d (Oxide _ q _) =
     (case q of
        DiskView p' d' \<Rightarrow> p' = p \<and> d' = d
      | DiskCreate p' b \<Rightarrow> p' = p \<and> dc_Name b = d
      | DiskBulkWriteImportStart p' d' \<Rightarrow> p' = p \<and> d' = d
      | DiskBulkWriteImport p' d' _ _ \<Rightarrow> p' = p \<and> d' = d
      | DiskBulkWriteImportStop p' d' \<Rightarrow> p' = p \<and> d' = d
      | DiskFinalizeImport p' d' n \<Rightarrow> p' = p \<and> d' = d \<and> (n = '''' \<or> n = d)
      | DiskDelete p' d' \<Rightarrow> p' = p \<and> d' = d
      | _ \<Rightarrow> False)"
| "on_import_disk p d _ = False"

lemma deleteImportDisk_on_disk: "adds_all (deleteImportDisk E oc p d s) s (on_import_disk p d)"
  unfolding deleteImportDisk_def by (auto intro!: adds_all_intros)

lemma download_on_disk: "adds_all (download E url s) s (on_import_disk p d)"
  by (rule adds_all_weaken [OF download_adds]) auto

lemma writeChunks_on_disk:
  "adds_all (writeChunks r bs (bulk_write E oc p d) s) s (on_import_disk p d)"
  unfolding writeChunks_def
  by (rule writeChunks_loop_adds_all) (auto intro: adds_all_weaken [OF bulk_write_adds])

lemma createImportDisk_on_disk:
  "adds_all (createImportDisk E oc img name s) s (on_import_disk (ProjectName (is_ProjectRef (o_spec img))) name)"
  unfolding createImportDisk_def Let_def
  by (auto intro!: adds_all_intros download_on_disk split: sum.split option.split)

lemma copyBody_on_disk:
  "adds_all (copyBody E oc img name resp s) s (on_import_disk (ProjectName (is_ProjectRef (o_spec img))) name)"
  unfolding copyBody_def Let_def
  by (auto intro!: adds_all_ret adds_all_bind writeChunks_on_disk)

lemma finishImport_on_disk: "adds_all (finishImport E oc p name err s) s (on_import_disk p name)"
  unfolding finishImport_def
  by (auto intro!: adds_all_intros deleteImportDisk_on_disk)

lemma writeDisk_on_disk:
  "adds_all (writeDisk E oc img name sz s) s (on_import_disk (ProjectName (is_ProjectRef (o_spec img))) name)"
  unfolding writeDisk_def Let_def
  by (auto intro!: adds_all_ret adds_all_bind adds_all_oxide_do download_on_disk copyBody_on_disk finishImport_on_disk
      split: sum.split option.split)

lemma importDisk_on_disk:
  "importName img = Some name \<Longrightarrow>
   adds_all (importDisk E oc img s) s (on_import_disk (ProjectName (is_ProjectRef (o_spec img))) name)"
  unfolding importDisk_def Let_def
  by (auto intro!: adds_all_intros createImportDisk_on_disk writeDisk_on_disk deleteImportDisk_on_disk
      split: sum.split disk_state.split)

lemma importDisk_adds: "adds_all (importDisk E oc img s) s (\<lambda>e. \<not> is_kube_write e)"
proof (cases "importName img")
  case (Some name)
  from importDisk_on_disk [OF Some] show ?thesis
    by (rule adds_all_weaken) (auto elim!: on_import_disk.elims)
qed (simp add: importDisk_def adds_all_panic)

lemma createImage_adds: "adds_all (createImage E oc img s) s (\<lambda>e. \<not> is_kube_write e)"
  unfolding createImage_def Let_def
  by (auto dest: no_write intro!: adds_all_intros importDisk_adds split: sum.split option.split)

section \<open>An import always reports\<close>

lemma errors_Join_Some: "err \<noteq> None \<Longrightarrow> errors_Join [err, derr] \<noteq> None"
  by (cases err; cases derr) auto

lemma finishImport_reports: "wlp (finishImport E oc p name err s) (\<lambda>err s'. err \<noteq> None)"
  unfolding finishImport_def
  using errors_Join_Some
  by (auto split: option.split intro!: wlp_any simp del: not_None_eq)

lemma writeDisk_reports: "wlp (writeDisk E oc img name sz s) (\<lambda>err s'. err \<noteq> None)"
  unfolding writeDisk_def Let_def
  by (auto split: sum.split option.split intro!: finishImport_reports wlp_any simp del: not_None_eq)

lemma createImportDisk_reports: "wlp (createImportDisk E oc img name s) (\<lambda>err s'. err \<noteq> None)"
  unfolding createImportDisk_def Let_def
  by (auto split: sum.split option.split intro!: wlp_any)

lemma importDisk_reports: "wlp (importDisk E oc img s) (\<lambda>err s'. err \<noteq> None)"
  unfolding importDisk_def Let_def
  by (auto split: sum.split option.split disk_state.split simp del: not_None_eq
      intro!: wlp_any createImportDisk_reports writeDisk_reports)

lemma createImage_pointer: "wlp (createImage E oc img s) (\<lambda>(cur, err) s'. err = None \<longrightarrow> cur \<noteq> None)"
  unfolding createImage_def Let_def
  by (auto split: sum.split option.split intro!: wlp_any wlp_mono [OF importDisk_reports])

section \<open>What a successful import has written\<close>

text \<open>The writes of a trace that were acknowledged, decoded.\<close>

fun acknowledged_write :: "string \<Rightarrow> string \<Rightarrow> 'c effect \<Rightarrow> (nat \<times> char list) option" where
  "acknowledged_write p d (Oxide _ q u) =
     (case q of
        DiskBulkWriteImport p' d' b offset \<Rightarrow>
          if p' = p \<and> d' = d \<and> u = None then Some (offset, base64_decode b) else None
      | _ \<Rightarrow> None)"
| "acknowledged_write p d _ = None"

definition acknowledged_writes :: "string \<Rightarrow> string \<Rightarrow> 'c effect list \<Rightarrow> (nat \<times> char list) list" where
  "acknowledged_writes p d tr = List.map_filter (acknowledged_write p d) tr"

lemma acknowledged_writes_simps [simp]:
  "acknowledged_writes p d [] = []"
  "acknowledged_writes p d (e # tr) =
     (case acknowledged_write p d e of None \<Rightarrow> acknowledged_writes p d tr | Some w \<Rightarrow> w # acknowledged_writes p d tr)"
  "acknowledged_writes p d (tr @ tr') = acknowledged_writes p d tr @ acknowledged_writes p d tr'"
  by (simp_all add: acknowledged_writes_def List.map_filter_def split: option.split)

text \<open>The finalization that makes a snapshot of the disk.\<close>

definition snapshots_disk :: "string \<Rightarrow> string \<Rightarrow> 'c effect \<Rightarrow> bool" where
  "snapshots_disk p d e \<longleftrightarrow> (\<exists>oc u. e = Oxide oc (DiskFinalizeImport p d d) u)"

lemma run_bulk_writes:
  "adds (run_writes (bulk_write E oc p d) ws s) s (\<lambda>err tr.
     list_all (\<lambda>e. \<exists>b off u. e = Oxide oc (DiskBulkWriteImport p d b off) u) tr
     \<and> (err = None \<longrightarrow> acknowledged_writes p d tr = ws))"
proof (induction ws arbitrary: s)
  case Nil
  then show ?case by (simp add: adds_ret)
next
  case (Cons w ws)
  obtain off xs where w: "w = (off, xs)" by (cases w)
  show ?case
    unfolding w run_writes.simps bulk_write_def oxide_do_def
    by (rule adds_perform_bind) (auto simp del: not_None_eq intro!: adds_ret adds_weaken [OF Cons.IH [unfolded bulk_write_def oxide_do_def]])
qed

lemma adds_forget_reader:
  "adds (forget_reader m) s P \<Longrightarrow> adds m s (\<lambda>(err, r) tr. P err tr)"
  by (cases m) (auto simp: adds_def forget_reader_def)

lemma writeChunks_consumes:
  "wlp (writeChunks r bs w s) (\<lambda>a s'. fst a = None \<longrightarrow> rd_bytes (snd a) = [])"
  unfolding writeChunks_def by (rule wlp_mono [OF writeChunks_loop_consumes]) auto

lemma adds_wlp: "adds m s P \<Longrightarrow> wlp m (\<lambda>a s'. Q a) \<Longrightarrow> adds m s (\<lambda>a tr. P a tr \<and> Q a)"
  by (auto simp: adds_def wlp_def split: option.splits)

lemma writeChunks_bulk:
  assumes "block_size_ok bs" and "body_ends r" and "length (rd_bytes r) + importChunkSize < 2 ^ 64"
  shows "adds (writeChunks r bs (bulk_write E oc p d) s) s (\<lambda>(err, r') tr.
     list_all (\<lambda>e. \<exists>b off u. e = Oxide oc (DiskBulkWriteImport p d b off) u) tr
     \<and> (err = None \<longrightarrow> acknowledged_writes p d tr = chunk_writes bs 0 (rd_bytes r) \<and> rd_bytes r' = []))"
proof -
  have "adds (writeChunks r bs (bulk_write E oc p d) s) s (\<lambda>(err, r') tr.
     list_all (\<lambda>e. \<exists>b off u. e = Oxide oc (DiskBulkWriteImport p d b off) u) tr
     \<and> (err = None \<longrightarrow> acknowledged_writes p d tr = chunk_writes bs 0 (rd_bytes r)))"
    by (rule adds_forget_reader) (simp add: writeChunks_refines [OF assms] run_bulk_writes)
  from adds_wlp [OF this writeChunks_consumes] show ?thesis
    by (rule adds_weaken) auto
qed

text \<open>What is true of the effects of a \<^verbatim>\<open>writeDisk\<close>: if they hold a finalization with a snapshot,
  then before it the disk has been made the image, by acknowledged writes, and the digest was the
  expected one. And what was started is either finalized or deleted.\<close>

definition import_sound :: "lib \<Rightarrow> image \<Rightarrow> string \<Rightarrow> reader \<Rightarrow> 'c effect list \<Rightarrow> bool" where
  "import_sound l img name r tr \<longleftrightarrow>
     (let p = ProjectName (is_ProjectRef (o_spec img)); sha = is_SHA256 (o_spec img); body = rd_bytes r in
      (\<exists>e \<in> set tr. snapshots_disk p name e) \<longrightarrow>
        body_ends r
        \<and> disk_after (acknowledged_writes p name tr) = bytes_at body
        \<and> list_all (good_write (is_BlockSize (o_spec img)) (length body)) (acknowledged_writes p name tr)
        \<and> (sha = '''' \<or> hex_encode (Sha256Sum l body) = sha)
        \<and> (\<exists>oc. Oxide oc (DiskBulkWriteImportStop p name) None \<in> set tr))"

definition not_abandoned :: "string \<Rightarrow> string \<Rightarrow> 'c effect list \<Rightarrow> bool" where
  "not_abandoned p name tr \<longleftrightarrow>
     ((\<exists>oc. Oxide oc (DiskBulkWriteImportStart p name) None \<in> set tr) \<longrightarrow>
        (\<exists>e \<in> set tr. snapshots_disk p name e) \<or> (\<exists>oc u. Oxide oc (DiskDelete p name) u \<in> set tr))"

lemma deleteImportDisk_trace:
  "adds (deleteImportDisk E oc p d s) s (\<lambda>err tr. \<exists>u v w. tr =
     [Oxide oc (DiskBulkWriteImportStop p d) u, Oxide oc (DiskFinalizeImport p d '''') v, Oxide oc (DiskDelete p d) w]
     \<and> err = (if not_found_err w then None else w))"
  by (auto simp: deleteImportDisk_def oxide_do_def adds_def perform_def Let_def)

lemma download_trace:
  "adds (download E url s) s (\<lambda>r tr. list_all (\<lambda>e. \<exists>u. e = Http url u) tr
     \<and> (\<forall>resp. r = Inr resp \<longrightarrow> fst (e_http_do E url (world s)) = Inr resp))"
  by (auto simp: download_def adds_def perform_def Let_def split: option.split sum.split)

text \<open>The end of a write: stop and finalize with a snapshot, or stop, finalize and delete.\<close>

lemma finishImport_trace:
  assumes "name \<noteq> ''''"
  shows "adds (finishImport E oc p name err s) s (\<lambda>r tr.
      (err = None \<and> (\<exists>u. tr = [Oxide oc (DiskBulkWriteImportStop p name) None, Oxide oc (DiskFinalizeImport p name name) u]))
      \<or> (\<not> (\<exists>e \<in> set tr. snapshots_disk p name e) \<and> (\<exists>u. Oxide oc (DiskDelete p name) u \<in> set tr)))"
  using assms
  by (auto simp: finishImport_def deleteImportDisk_def oxide_do_def adds_def perform_def Let_def snapshots_disk_def
      simp del: not_None_eq split: if_splits)

lemma copyBody_trace:
  assumes "block_size_ok (is_BlockSize (o_spec img))"
    and "body_ends (hr_Body resp)" "length (rd_bytes (hr_Body resp)) + importChunkSize < 2 ^ 64"
  shows "adds (copyBody E oc img name resp s) s (\<lambda>err tr.
     list_all (\<lambda>e. \<exists>b off u. e = Oxide oc (DiskBulkWriteImport (ProjectName (is_ProjectRef (o_spec img))) name b off) u) tr
     \<and> (err = None \<longrightarrow>
          acknowledged_writes (ProjectName (is_ProjectRef (o_spec img))) name tr
            = chunk_writes (is_BlockSize (o_spec img)) 0 (rd_bytes (hr_Body resp))
          \<and> (is_SHA256 (o_spec img) = ''''
             \<or> hex_encode (Sha256Sum (e_lib E) (rd_bytes (hr_Body resp))) = is_SHA256 (o_spec img))))"
  unfolding copyBody_def Let_def
  by (rule adds_bind [OF writeChunks_bulk [OF assms]]) (auto intro!: adds_ret split: if_splits)

text \<open>A body that breaks off is never copied without an error.\<close>

lemma copyBody_contract:
  fixes s :: "('c, 'w) sys"
  assumes bs: "block_size_ok (is_BlockSize (o_spec img))"
    and body: "reader_contract (hr_Body resp)" "length (rd_bytes (hr_Body resp)) + importChunkSize < 2 ^ 64"
  shows "adds (copyBody E oc img name resp s) s (\<lambda>err tr.
     list_all (\<lambda>e. \<exists>b off u. e = Oxide oc (DiskBulkWriteImport (ProjectName (is_ProjectRef (o_spec img))) name b off) u) tr
     \<and> (err = None \<longrightarrow> body_ends (hr_Body resp)
          \<and> acknowledged_writes (ProjectName (is_ProjectRef (o_spec img))) name tr
            = chunk_writes (is_BlockSize (o_spec img)) 0 (rd_bytes (hr_Body resp))
          \<and> (is_SHA256 (o_spec img) = ''''
             \<or> hex_encode (Sha256Sum (e_lib E) (rd_bytes (hr_Body resp))) = is_SHA256 (o_spec img))))"
proof (cases "body_ends (hr_Body resp)")
  case True
  with copyBody_trace [OF bs True body(2)] show ?thesis by simp
next
  case False
  let ?p = "ProjectName (is_ProjectRef (o_spec img))"
  let ?m = "writeChunks (hr_Body resp) (is_BlockSize (o_spec img)) (bulk_write E oc ?p name)"
  have "adds_all (?m s) s (\<lambda>e. \<exists>b off u. e = Oxide oc (DiskBulkWriteImport ?p name b off) u)" for s :: "('c, 'w) sys"
    unfolding writeChunks_def by (rule writeChunks_loop_adds_all) (auto simp: bulk_write_def intro!: adds_all_oxide_do)
  moreover have "wlp (?m s) (\<lambda>a s'. fst a \<noteq> None)" for s :: "('c, 'w) sys"
    using writeChunks_loop_broken [of "hr_Body resp" "is_BlockSize (o_spec img)" "bulk_write E oc ?p name" 0 s]
      reader_ends_or_breaks [OF body(1)] False
    unfolding writeChunks_def by (auto elim!: wlp_mono)
  ultimately have m: "adds (?m s) s (\<lambda>a tr. list_all (\<lambda>e. \<exists>b off u. e = Oxide oc (DiskBulkWriteImport ?p name b off) u) tr
      \<and> fst a \<noteq> None)" for s :: "('c, 'w) sys"
    by (intro adds_wlp adds_allD)
  show ?thesis
    unfolding copyBody_def Let_def
    by (rule adds_bind [OF m]) (auto intro!: adds_ret)
qed

lemma bulk_writes_quiet:
  "list_all (\<lambda>e. \<exists>b off u. e = Oxide oc (DiskBulkWriteImport p d b off) u) tr \<Longrightarrow>
     \<not> (\<exists>e \<in> set tr. snapshots_disk p' d' e)"
  by (auto simp: list_all_iff snapshots_disk_def)

lemma https_quiet:
  "list_all (\<lambda>e. \<exists>u. e = Http url u) tr \<Longrightarrow>
     \<not> (\<exists>e \<in> set tr. snapshots_disk p d e) \<and> (\<forall>oc q u. Oxide oc q u \<notin> set tr) \<and> acknowledged_writes p d tr = []"
  by (induction tr) (auto simp: snapshots_disk_def)

lemma writeDisk_sound:
  fixes E :: "('c, 'w) env" and s :: "('c, 'w) sys"
  assumes name: "name \<noteq> ''''"
    and bs: "block_size_ok (is_BlockSize (o_spec img))"
    and http: "fst (e_http_do E (is_URL (o_spec img)) (world s)) = Inr resp"
    and body: "reader_contract (hr_Body resp)" "length (rd_bytes (hr_Body resp)) + importChunkSize < 2 ^ 64"
  shows "adds (writeDisk E oc img name sz s) s (\<lambda>r tr.
      import_sound (e_lib E) img name (hr_Body resp) tr
      \<and> not_abandoned (ProjectName (is_ProjectRef (o_spec img))) name tr)"
proof -
  let ?p = "ProjectName (is_ProjectRef (o_spec img))" and ?body = "rd_bytes (hr_Body resp)"
  let ?start = "\<lambda>u. Oxide oc (DiskBulkWriteImportStart ?p name) u"
  let ?Q = "\<lambda>tr. import_sound (e_lib E) img name (hr_Body resp) tr \<and> not_abandoned ?p name tr"
  have written: "disk_after (chunk_writes (is_BlockSize (o_spec img)) 0 ?body) = bytes_at ?body"
      "list_all (good_write (is_BlockSize (o_spec img)) (length ?body)) (chunk_writes (is_BlockSize (o_spec img)) 0 ?body)"
    using disk_after_chunk_writes chunk_writes_good [OF bs, of 0 ?body] by simp_all
  have quiet: "?Q (h @ [?start (Some u)])" "?Q h" if "list_all (\<lambda>e. \<exists>u. e = Http url u) h" for h u url
    using https_quiet [OF that]
    by (auto simp: import_sound_def not_abandoned_def snapshots_disk_def Let_def)
  have rest: "adds (do { (err, s) \<leftarrow> copyBody E oc img name resp s; finishImport E oc ?p name err s }) s
      (\<lambda>r tr. ?Q (h @ ?start None # tr))" if h: "list_all (\<lambda>e. \<exists>u. e = Http url u) h" for h url and s :: "('c, 'w) sys"
  proof (rule adds_bind [OF copyBody_contract [OF bs body]])
    fix err :: "error option" and tr :: "'c effect list" and s' :: "('c, 'w) sys"
    assume tr: "list_all (\<lambda>e. \<exists>b off u. e = Oxide oc (DiskBulkWriteImport ?p name b off) u) tr
      \<and> (err = None \<longrightarrow> body_ends (hr_Body resp) \<and> acknowledged_writes ?p name tr = chunk_writes (is_BlockSize (o_spec img)) 0 ?body
        \<and> (is_SHA256 (o_spec img) = '''' \<or> hex_encode (Sha256Sum (e_lib E) ?body) = is_SHA256 (o_spec img)))"
    then have tr': "list_all (\<lambda>e. \<exists>b off u. e = Oxide oc (DiskBulkWriteImport ?p name b off) u) tr" ..
    show "adds (case (err, s') of (err, s) \<Rightarrow> finishImport E oc ?p name err s) s' (\<lambda>r tr'. ?Q (h @ ?start None # tr @ tr'))"
      unfolding prod.case
      by (rule adds_weaken [OF finishImport_trace [OF name]])
        (insert https_quiet [OF h, of ?p name] bulk_writes_quiet [OF tr', of ?p name] tr written,
          auto simp: import_sound_def not_abandoned_def snapshots_disk_def Let_def)
  qed
  show ?thesis
    unfolding writeDisk_def Let_def
  proof (rule adds_bind [OF download_trace])
    fix r :: "error + http_response" and h :: "'c effect list" and s' :: "('c, 'w) sys"
    assume hr: "list_all (\<lambda>e. \<exists>u. e = Http (is_URL (o_spec img)) u) h
      \<and> (\<forall>resp. r = Inr resp \<longrightarrow> fst (e_http_do E (is_URL (o_spec img)) (world s)) = Inr resp)"
    then have h: "list_all (\<lambda>e. \<exists>u. e = Http (is_URL (o_spec img)) u) h" ..
    have "r = Inr resp \<or> (\<exists>e. r = Inl e)" using hr http by (cases r) auto
    then show "adds (case (r, s') of (Inl err, s) \<Rightarrow> Some (Some err, s)
      | (Inr resp, s) \<Rightarrow>
          if sz < hr_ContentLength resp
          then Some (Some (Plain (is_URL (o_spec img) @ '' is larger than import disk '' @ name)), s)
          else do {
            (err, s) \<leftarrow> oxide_do E oc (DiskBulkWriteImportStart ?p name) s;
            (case err of
               Some err \<Rightarrow> Some (Some err, s)
             | None \<Rightarrow> do {
                 (err, s) \<leftarrow> copyBody E oc img name resp s;
                 finishImport E oc ?p name err s
               })
          }) s' (\<lambda>b tr'. ?Q (h @ tr'))"
      using quiet [OF h] rest [OF h] unfolding oxide_do_def
      by (auto intro!: adds_ret adds_perform_bind split: option.split)
  qed
qed

text \<open>The disk is written, and finalized with a snapshot, only in the step that found it ready.\<close>

definition fills_disk :: "string \<Rightarrow> string \<Rightarrow> 'c effect \<Rightarrow> bool" where
  "fills_disk p d e \<longleftrightarrow>
     (\<exists>oc u. e = Oxide oc (DiskBulkWriteImportStart p d) u \<or> e = Oxide oc (DiskFinalizeImport p d d) u
       \<or> (\<exists>b off. e = Oxide oc (DiskBulkWriteImport p d b off) u))"

lemma deleteImportDisk_fills_nothing:
  "d \<noteq> '''' \<Longrightarrow> adds (deleteImportDisk E oc p d s) s (\<lambda>_ tr. list_all (\<lambda>e. \<not> fills_disk p d e) tr)"
  by (rule adds_weaken [OF deleteImportDisk_trace]) (auto simp: fills_disk_def)

lemma createImportDisk_fills_nothing:
  "adds_all (createImportDisk E oc img name s) s (\<lambda>e. \<not> fills_disk p name e)"
  unfolding createImportDisk_def Let_def
  by (auto intro!: adds_all_intros adds_all_weaken [OF download_adds] simp: fills_disk_def
      split: sum.split option.split)

lemma importDisk_fills_ready_disk:
  assumes name: "importName img = Some name"
  shows "adds (importDisk E oc img s) s (\<lambda>err tr.
     (\<exists>e \<in> set tr. fills_disk (ProjectName (is_ProjectRef (o_spec img))) name e) \<longrightarrow>
     (\<exists>disk. fst (ox_disk (e_oxide E) oc (DiskView (ProjectName (is_ProjectRef (o_spec img))) name) (world s)) = Inr disk
        \<and> od_State disk = DiskStateImportReady))"
proof -
  let ?p = "ProjectName (is_ProjectRef (o_spec img))"
  let ?r = "fst (ox_disk (e_oxide E) oc (DiskView ?p name) (world s))"
  let ?s = "logged s (snd (ox_disk (e_oxide E) oc (DiskView ?p name) (world s))) (Oxide oc (DiskView ?p name) (err_of ?r))"
  note ne = importName_not_empty [OF name]
  have quiet: "adds (do { (err, s) \<leftarrow> deleteImportDisk E oc ?p name s;
      Some (case err of Some err \<Rightarrow> Some err | None \<Rightarrow> Some (Progressing ''restarting interrupted import''), s) }) s
      (\<lambda>_ tr. list_all (\<lambda>e. \<not> fills_disk ?p name e) tr)" for s
    by (rule adds_bind [OF deleteImportDisk_fills_nothing [OF ne]]) (auto intro: adds_ret)
  show ?thesis
  proof (cases "\<exists>disk. ?r = Inr disk \<and> od_State disk = DiskStateImportReady")
    case True
    then show ?thesis
      using adds_all_trivial [OF importDisk_adds] by (auto elim!: adds_weaken)
  next
    case False
    have "adds (importDisk E oc img s) ?s (\<lambda>_ tr. list_all (\<lambda>e. \<not> fills_disk ?p name e) tr)"
      using False quiet adds_allD [OF createImportDisk_fills_nothing]
      by (auto simp: importDisk_def name oxide_def perform_def Let_def adds_ret
          split: sum.split disk_state.split)
    then show ?thesis
      by (auto simp: adds_def fills_disk_def list_all_iff elim!: wlp_mono)
  qed
qed

section \<open>No panics\<close>

text \<open>What the operations need of an image: the UID the API server gives every object, which is longer
  than eight characters, and a block size the CRD admits.\<close>

definition image_admitted :: "image \<Rightarrow> bool" where
  "image_admitted img \<longleftrightarrow> 8 \<le> length (om_UID (o_meta img)) \<and> block_size_ok (is_BlockSize (o_spec img))"

lemma image_admitted_name: "image_admitted img \<Longrightarrow> \<exists>name. importName img = Some name"
  using importName_None [of img] by (cases "importName img") (auto simp: image_admitted_def)

lemma import_runs [runs_rules]:
  "runs (download E url s)"
  "runs (deleteImportDisk E oc p d s)"
  "runs (finishImport E oc p d err s)"
  "runs (bulk_write E oc p d off xs s)"
  unfolding download_def deleteImportDisk_def finishImport_def bulk_write_def Let_def
  by (auto intro!: runs_rules split: option.split sum.split)

lemma createImportDisk_runs [runs_rules]: "runs (createImportDisk E oc img name s)"
proof -
  have "\<exists>sz. import_disk_size len = Some sz" for len
    using import_disk_size_no_panic [of len] by (cases "import_disk_size len") auto
  then show ?thesis
    unfolding createImportDisk_def Let_def
    by (auto intro!: runs_rules split: sum.split option.split) (metis option.distinct(1))
qed

lemma writeDisk_runs: "image_admitted img \<Longrightarrow> runs (writeDisk E oc img name sz s)"
  unfolding writeDisk_def copyBody_def Let_def
  by (auto simp: image_admitted_def intro!: runs_rules writeChunks_runs split: sum.split option.split)

lemma importDisk_runs: "image_admitted img \<Longrightarrow> runs (importDisk E oc img s)"
  using image_admitted_name [of img]
  unfolding importDisk_def Let_def
  by (auto intro!: runs_rules writeDisk_runs split: sum.split disk_state.split)

lemma createImage_runs: "image_admitted img \<Longrightarrow> runs (createImage E oc img s)"
  using image_admitted_name [of img]
  unfolding createImage_def Let_def
  by (auto intro!: runs_rules importDisk_runs split: sum.split)

lemma deleteImport_runs: "image_admitted img \<Longrightarrow> runs (deleteImport E oc img s)"
  using image_admitted_name [of img]
  unfolding deleteImport_def Let_def
  by (auto intro!: runs_rules)

section \<open>Properties of an import\<close>

text \<open>An image to import, and a web server that has it.\<close>

definition import_image :: "string \<Rightarrow> image" where
  "import_image sha =
     \<lparr>o_meta = meta0,
      o_spec = \<lparr>is_Resource = resource0, is_ProjectRef = project_ref0, is_OxideName = \<lparr>ons_Name = ''''\<rparr>,
        is_Description = '''', is_OS = ''debian'', is_Version = ''12'', is_URL = ''https://host/disk.raw'',
        is_SHA256 = sha, is_Snapshot = '''', is_BlockSize = 512, is_Promote = False\<rparr>,
      o_status = \<lparr>ist_Resource = status0, ist_Size = None\<rparr>\<rparr>"

definition served :: http_response where
  "served = \<lparr>hr_StatusCode = 200, hr_Status = ''200 OK'', hr_ContentLength = 4, hr_Body = short_body\<rparr>"

definition serving :: "(nat, unit) env" where
  "serving = env0\<lparr>e_http_do := (\<lambda>_ w. (Inr served, w))\<rparr>"

lemma import_image_simps [simp]:
  "image_admitted (import_image sha)" "block_size_ok (is_BlockSize (o_spec (import_image sha)))"
  "is_URL (o_spec (import_image sha)) = ''https://host/disk.raw''"
  "importName (import_image sha) = Some ''demo-import-0a1b2c3d''" "is_SHA256 (o_spec (import_image sha)) = sha"
  "ProjectName (is_ProjectRef (o_spec (import_image sha))) = ''proj''"
  "rst_ID (ist_Resource (o_status (import_image sha))) = ''''"
  by (simp_all add: import_image_def image_admitted_def block_size_ok_CRD meta0_def importName_def OxideName_def
      ProjectName_def project_ref0_def status0_def)

text \<open>C1: an imported snapshot is the file. Whatever the download delivers and however it ends, if the
  import disk is asked to be finalized with a snapshot, then the body ended (with EOF, or with the
  unexpected EOF that \<open>truncated_body_passes\<close> is about), a blank disk after the writes that Oxide
  acknowledged, base64-decoded, reads as the whole of it followed by zeros, each write was aligned and
  inside the body's blocks, the digest was the one of the spec if there is one, and the stop had been
  acknowledged. So a download that breaks off is never finalized. A write that was started always ends
  with a request: for that finalization, or for the deletion of the disk, whatever Oxide answers to it.\<close>

theorem imported_snapshot_is_the_file:
  assumes "image_admitted img" and "name \<noteq> ''''"
    and "fst (e_http_do E (is_URL (o_spec img)) (world s)) = Inr resp"
    and "reader_contract (hr_Body resp)" and "length (rd_bytes (hr_Body resp)) + importChunkSize < 2 ^ 64"
  shows "ensures (writeDisk E oc img name sz s) s (\<lambda>err tr.
      import_sound (e_lib E) img name (hr_Body resp) tr
      \<and> not_abandoned (ProjectName (is_ProjectRef (o_spec img))) name tr)"
  using writeDisk_sound [OF assms(2) _ assms(3-5)] writeDisk_runs [OF assms(1)] assms(1)
  by (intro ensuresI) (auto simp: image_admitted_def)

theorem imported_snapshot_is_the_file_witness:
  "ensures (writeDisk serving 7 (import_image '''') ''demo-import-0a1b2c3d'' (2 ^ 30) sys0) sys0 (\<lambda>err tr.
      import_sound lib0 (import_image '''') ''demo-import-0a1b2c3d'' (hr_Body served) tr
      \<and> not_abandoned (ProjectName (is_ProjectRef (o_spec (import_image '''')))) ''demo-import-0a1b2c3d'' tr)"
  using imported_snapshot_is_the_file [of "import_image ''''" "''demo-import-0a1b2c3d''" serving sys0 served 7 "2 ^ 30"]
    short_body_ok body_ends_contract [OF short_body_ok(1)]
  by (simp add: serving_def served_def)

text \<open>A body with another digest than the spec's: unless Oxide refuses one of the writes, copying it
  ends in a failure, and that failure is what the operation reports.\<close>

definition refused_write :: "string \<Rightarrow> string \<Rightarrow> 'c effect \<Rightarrow> bool" where
  "refused_write p d e \<longleftrightarrow> (\<exists>oc b off x. e = Oxide oc (DiskBulkWriteImport p d b off) (Some x))"

lemma failed_joined: "is_failed e \<Longrightarrow> err_is is_failed (errors_Join [Some e, d])"
  by (cases d) auto

lemma finishImport_failed:
  "err_is is_failed err \<Longrightarrow> wlp (finishImport E oc p name err s) (\<lambda>r s'. err_is is_failed r)"
  unfolding finishImport_def
  by (cases err) (auto intro: wlp_any failed_joined)

lemma run_bulk_writes_refused:
  "adds (run_writes (bulk_write E oc p d) ws s) s (\<lambda>err tr. err = None \<or> (\<exists>e \<in> set tr. refused_write p d e))"
proof (induction ws arbitrary: s)
  case (Cons w ws)
  obtain off xs where w: "w = (off, xs)" by (cases w)
  show ?case
    unfolding w run_writes.simps bulk_write_def oxide_do_def
    by (rule adds_perform_bind)
      (auto simp: refused_write_def intro!: adds_ret adds_weaken [OF Cons.IH [unfolded bulk_write_def oxide_do_def]])
qed (simp add: adds_ret)

lemma copyBody_wrong_digest:
  assumes "block_size_ok (is_BlockSize (o_spec img))"
    and "body_ends (hr_Body resp)" "length (rd_bytes (hr_Body resp)) + importChunkSize < 2 ^ 64"
    and "is_SHA256 (o_spec img) \<noteq> ''''"
    and "hex_encode (Sha256Sum (e_lib E) (rd_bytes (hr_Body resp))) \<noteq> is_SHA256 (o_spec img)"
  shows "adds (copyBody E oc img name resp s) s (\<lambda>err tr. err_is is_failed err
      \<or> (\<exists>e \<in> set tr. refused_write (ProjectName (is_ProjectRef (o_spec img))) name e))"
proof -
  have "adds (writeChunks (hr_Body resp) (is_BlockSize (o_spec img))
      (bulk_write E oc (ProjectName (is_ProjectRef (o_spec img))) name) s) s (\<lambda>(err, r) tr.
      err = None \<or> (\<exists>e \<in> set tr. refused_write (ProjectName (is_ProjectRef (o_spec img))) name e))"
    by (rule adds_forget_reader) (simp add: writeChunks_refines [OF assms(1-3)] run_bulk_writes_refused)
  from adds_wlp [OF this writeChunks_consumes] show ?thesis
    unfolding copyBody_def Let_def
    by (rule adds_bind) (use assms(4,5) in \<open>auto intro!: adds_ret\<close>)
qed

lemma writeDisk_wrong_digest:
  fixes E :: "('c, 'w) env" and s :: "('c, 'w) sys"
  assumes http: "fst (e_http_do E (is_URL (o_spec img)) (world s)) = Inr resp"
    and body: "block_size_ok (is_BlockSize (o_spec img))"
      "body_ends (hr_Body resp)" "length (rd_bytes (hr_Body resp)) + importChunkSize < 2 ^ 64"
      "is_SHA256 (o_spec img) \<noteq> ''''"
      "hex_encode (Sha256Sum (e_lib E) (rd_bytes (hr_Body resp))) \<noteq> is_SHA256 (o_spec img)"
  shows "adds (writeDisk E oc img name sz s) s (\<lambda>err tr.
      (\<exists>oc. Oxide oc (DiskBulkWriteImportStart (ProjectName (is_ProjectRef (o_spec img))) name) None \<in> set tr)
      \<longrightarrow> err_is is_failed err \<or> (\<exists>e \<in> set tr. refused_write (ProjectName (is_ProjectRef (o_spec img))) name e))"
proof -
  let ?p = "ProjectName (is_ProjectRef (o_spec img))"
  have rest: "adds (do { (err, s) \<leftarrow> copyBody E oc img name resp s; finishImport E oc ?p name err s }) s
      (\<lambda>err tr. err_is is_failed err \<or> (\<exists>e \<in> set tr. refused_write ?p name e))" for s :: "('c, 'w) sys"
  proof (rule adds_bind [OF copyBody_wrong_digest [OF body]])
    fix err :: "error option" and s' :: "('c, 'w) sys" and tr :: "'c effect list"
    assume "err_is is_failed err \<or> (\<exists>e \<in> set tr. refused_write ?p name e)"
    then show "adds (case (err, s') of (err, s) \<Rightarrow> finishImport E oc ?p name err s) s'
        (\<lambda>err tr'. err_is is_failed err \<or> (\<exists>e \<in> set (tr @ tr'). refused_write ?p name e))"
      unfolding prod.case
      by (auto intro: adds_weaken [OF adds_wlp [OF adds_allD [OF finishImport_on_disk] finishImport_failed]]
          adds_weaken [OF adds_allD [OF finishImport_on_disk]])
  qed
  show ?thesis
    unfolding writeDisk_def Let_def
  proof (rule adds_bind [OF download_trace])
    fix r :: "error + http_response" and h :: "'c effect list" and s' :: "('c, 'w) sys"
    assume hr: "list_all (\<lambda>e. \<exists>u. e = Http (is_URL (o_spec img)) u) h
      \<and> (\<forall>resp. r = Inr resp \<longrightarrow> fst (e_http_do E (is_URL (o_spec img)) (world s)) = Inr resp)"
    then have "r = Inr resp \<or> (\<exists>e. r = Inl e)" using http by (cases r) auto
    then show "adds (case (r, s') of (Inl err, s) \<Rightarrow> Some (Some err, s)
      | (Inr resp, s) \<Rightarrow>
          if sz < hr_ContentLength resp
          then Some (Some (Plain (is_URL (o_spec img) @ '' is larger than import disk '' @ name)), s)
          else do {
            (err, s) \<leftarrow> oxide_do E oc (DiskBulkWriteImportStart ?p name) s;
            (case err of
               Some err \<Rightarrow> Some (Some err, s)
             | None \<Rightarrow> do {
                 (err, s) \<leftarrow> copyBody E oc img name resp s;
                 finishImport E oc ?p name err s
               })
          }) s' (\<lambda>err tr'. (\<exists>oc. Oxide oc (DiskBulkWriteImportStart ?p name) None \<in> set (h @ tr'))
              \<longrightarrow> err_is is_failed err \<or> (\<exists>e \<in> set (h @ tr'). refused_write ?p name e))"
      using https_quiet [OF conjunct1 [OF hr]] unfolding oxide_do_def
      by (auto intro!: adds_ret adds_perform_bind adds_weaken [OF rest] split: option.split)
  qed
qed

text \<open>C13: a wrong digest stops the import for good. If the body ends and does not have the digest the spec
  asks for, a write of the import disk never ends in a finalization with a snapshot; and if Oxide let
  the write start and refused none of its chunks, what the operation returns is a failure, which
  \<^verbatim>\<open>setReady\<close> makes a terminal error with the reason Failed and no retry.\<close>

theorem wrong_digest_stops_import:
  assumes "image_admitted img" and "name \<noteq> ''''"
    and "fst (e_http_do E (is_URL (o_spec img)) (world s)) = Inr resp"
    and "body_ends (hr_Body resp)" and "length (rd_bytes (hr_Body resp)) + importChunkSize < 2 ^ 64"
    and "is_SHA256 (o_spec img) \<noteq> ''''"
    and "hex_encode (Sha256Sum (e_lib E) (rd_bytes (hr_Body resp))) \<noteq> is_SHA256 (o_spec img)"
  shows "ensures (writeDisk E oc img name sz s) s (\<lambda>err tr.
      \<not> (\<exists>e \<in> set tr. snapshots_disk (ProjectName (is_ProjectRef (o_spec img))) name e)
      \<and> ((\<exists>oc. Oxide oc (DiskBulkWriteImportStart (ProjectName (is_ProjectRef (o_spec img))) name) None \<in> set tr)
          \<and> \<not> (\<exists>e \<in> set tr. refused_write (ProjectName (is_ProjectRef (o_spec img))) name e)
         \<longrightarrow> (\<exists>m. setReady_outcome err = (ready_condition ConditionFalse ''Failed'' (Error m), no_requeue, Some (Terminal m)))))"
proof -
  have bs: "block_size_ok (is_BlockSize (o_spec img))" using assms(1) by (simp add: image_admitted_def)
  have failed: "\<exists>m. setReady_outcome err = (ready_condition ConditionFalse ''Failed'' (Error m), no_requeue, Some (Terminal m))"
    if "err_is is_failed err" for err
    using that by (cases err) (auto simp: setReady_outcome_def Let_def)
  show ?thesis
    by (rule ensures_weaken [OF ensuresI [OF writeDisk_runs [OF assms(1)]
          adds_conj [OF writeDisk_sound [OF assms(2) bs assms(3) body_ends_contract [OF assms(4)] assms(5)] writeDisk_wrong_digest [OF assms(3) bs assms(4-7)]]]])
      (use assms(6,7) failed in \<open>auto simp: import_sound_def Let_def\<close>)
qed

theorem wrong_digest_stops_import_witness:
  "ensures (writeDisk serving 7 (import_image ''00'') ''demo-import-0a1b2c3d'' (2 ^ 30) sys0) sys0 (\<lambda>err tr.
      \<not> (\<exists>e \<in> set tr. snapshots_disk (ProjectName (is_ProjectRef (o_spec (import_image ''00'')))) ''demo-import-0a1b2c3d'' e))"
  by (rule ensures_weaken [OF wrong_digest_stops_import [of "import_image ''00''" "''demo-import-0a1b2c3d''" serving sys0 served]])
    (use short_body_ok in \<open>auto simp: serving_def served_def lib0_def byte_of_def hex_digit_def\<close>)

text \<open>C16: one reconcile moves an import one step, and only its own. Whatever Oxide and the web
  server answer, \<^verbatim>\<open>importDisk\<close> returns an error, the one that reports its progress or what went
  wrong; it touches no Oxide resource but the disk that bears the image's import name in the image's
  project; and it writes the disk, or finalizes it with a snapshot, only if Oxide says in this very
  reconcile that the disk is ready for an import.\<close>

theorem importDisk_one_step:
  assumes "image_admitted img" and name: "importName img = Some name"
  shows "ensures (importDisk E oc img s) s (\<lambda>err tr.
      err \<noteq> None
      \<and> list_all (on_import_disk (ProjectName (is_ProjectRef (o_spec img))) name) tr
      \<and> ((\<exists>e \<in> set tr. fills_disk (ProjectName (is_ProjectRef (o_spec img))) name e) \<longrightarrow>
          (\<exists>disk. fst (ox_disk (e_oxide E) oc (DiskView (ProjectName (is_ProjectRef (o_spec img))) name) (world s)) = Inr disk
            \<and> od_State disk = DiskStateImportReady)))"
  by (rule ensures_weaken [OF ensuresI [OF importDisk_runs [OF assms(1)]
        adds_conj [OF adds_wlp [OF adds_allD [OF importDisk_on_disk [OF name]] importDisk_reports]
          importDisk_fills_ready_disk [OF name]]]]) blast

theorem importDisk_one_step_witness:
  "ensures (importDisk serving 7 (import_image '''') sys0) sys0 (\<lambda>err tr.
      err \<noteq> None \<and> list_all (on_import_disk ''proj'' ''demo-import-0a1b2c3d'') tr)"
  by (rule ensures_weaken [OF importDisk_one_step [of "import_image ''''" "''demo-import-0a1b2c3d''"]])
    simp_all

definition fitting_disk :: "image \<Rightarrow> string \<Rightarrow> int \<Rightarrow> disk_create \<Rightarrow> bool" where
  "fitting_disk img name len d \<longleftrightarrow>
     dc_Name d = name
     \<and> dc_DiskBackend d = DiskBackendDistributed (DiskSourceImportingBlocks (is_BlockSize (o_spec img)))
     \<and> gib dvd dc_Size d \<and> gib \<le> dc_Size d \<and> len \<le> dc_Size d \<and> (dc_Size d < len + gib \<or> dc_Size d = gib)"

text \<open>C32: the import disk holds the file. When the web server reports a length that is not in the
  last GiB of 64-bit integers, the one write of \<^verbatim>\<open>createImportDisk\<close> makes a disk for bulk writes in
  blocks of the spec's size that is a whole, positive number of GiB, not smaller than the file, and
  less than one GiB larger than it unless it is a single GiB.\<close>

theorem import_disk_holds_the_file:
  assumes "e_new_http_request E (is_URL (o_spec img)) = None"
    and "fst (e_http_do E (is_URL (o_spec img)) (world s)) = Inr resp"
    and "hr_StatusCode resp = 200" and len: "0 \<le> hr_ContentLength resp" "hr_ContentLength resp + gib < 2 ^ 63"
  shows "ensures (createImportDisk E oc img name s) s (\<lambda>err tr. \<exists>d u.
      filter is_oxide_write tr = [Oxide oc (DiskCreate (ProjectName (is_ProjectRef (o_spec img))) d) u]
      \<and> fitting_disk img name (hr_ContentLength resp) d)"
proof -
  obtain sz where sz: "import_disk_size (hr_ContentLength resp) = Some sz" "gib dvd sz" "gib \<le> sz"
      "hr_ContentLength resp \<le> sz" "sz < max (hr_ContentLength resp + gib) (gib + 1)"
    using import_disk_size_fits [OF len] by blast
  have "adds (createImportDisk E oc img name s) s (\<lambda>err tr. \<exists>d u.
      filter is_oxide_write tr = [Oxide oc (DiskCreate (ProjectName (is_ProjectRef (o_spec img))) d) u]
      \<and> fitting_disk img name (hr_ContentLength resp) d)"
    using assms(1-3) sz len(1)
    by (auto simp: createImportDisk_def download_def oxide_def perform_def adds_def Let_def fitting_disk_def
        max_def not_le split: sum.split if_splits)
  then show ?thesis by (rule ensuresI [OF createImportDisk_runs])
qed

theorem import_disk_holds_the_file_witness:
  "ensures (createImportDisk serving 7 (import_image '''') ''d'' sys0) sys0 (\<lambda>err tr. \<exists>d u.
      filter is_oxide_write tr = [Oxide 7 (DiskCreate (ProjectName (is_ProjectRef (o_spec (import_image '''')))) d) u]
      \<and> fitting_disk (import_image '''') ''d'' 4 d)"
  using import_disk_holds_the_file [of serving "import_image ''''" sys0 served 7 "''d''"]
  by (simp add: serving_def served_def env0_def gib_def)

text \<open>C33: the temporary resources of an import have valid names of their own. For an image with a
  valid Oxide name, of any length, and a UID that begins with eight letters or digits, the import
  name is a valid Oxide name (at most 63 characters), and the import of an image whose UID begins
  with other characters never has it.\<close>

theorem importName_valid_and_own:
  assumes "importName img = Some name"
    and "oxide_name (OxideName (is_OxideName (o_spec img)) (o_meta img))"
    and "list_all alnum_char (take 8 (om_UID (o_meta img)))"
  shows "oxide_name name \<and> length name \<le> 63
    \<and> (\<forall>other. take 8 (om_UID (o_meta other)) \<noteq> take 8 (om_UID (o_meta img)) \<longrightarrow> importName other \<noteq> Some name)"
proof -
  have "take 8 (om_UID (o_meta other)) = take 8 (om_UID (o_meta img))" if "importName other = Some name" for other
    using importName_suffix [OF assms(1)] importName_suffix [OF that] by simp
  moreover have "oxide_name name" using importName_oxide_name [OF assms] .
  ultimately show ?thesis by (auto simp: oxide_name_def dest: name_pattern_length)
qed

theorem importName_valid_and_own_witness:
  "oxide_name ''demo-import-0a1b2c3d'' \<and> length ''demo-import-0a1b2c3d'' \<le> 63"
  using importName_valid_and_own [of "import_image ''''" "''demo-import-0a1b2c3d''"]
  by (simp add: import_image_def importName_def meta0_def OxideName_def oxide_name_def name_pattern_def
      lower_char_def name_char_def alnum_char_def is_digit_def)

end
