(* ===== verification/Image_Controller.thy ===== *)
theory Image_Controller
  imports Image_Import
begin

text \<open>
  \<^verbatim>\<open>internal/controller/oxide/image_controller.go\<close>: the Image controller. An image is made from a
  snapshot, its own or that of its import; once it is there the import is cleaned up, and the image
  is promoted to the silo or demoted to the project as the spec asks.
\<close>

section \<open>The controller\<close>

text \<open>The last switch of \<^verbatim>\<open>handleImageOperations\<close>.\<close>

definition placeImage ::
  "('c, 'w) env \<Rightarrow> 'c \<Rightarrow> image \<Rightarrow> ox_image \<Rightarrow> (('c, 'w) sys, error option) go" where
  "placeImage E oc img cur s =
     (let spec = o_spec img in
      if is_Promote spec \<and> oi_ProjectId cur \<noteq> '''' then do {
        (r, s) \<leftarrow> oxide (ox_image (e_oxide E)) oc (ImagePromote (oi_Id cur)) s;
        Some (err_of r, record_event (object_key_of img) (err_of r) ''Promoted'' ''Promoted Oxide image to silo'' s)
      }
      else if \<not> is_Promote spec \<and> oi_ProjectId cur = '''' then do {
        (r, s) \<leftarrow> oxide (ox_image (e_oxide E)) oc (ImageDemote (ProjectName (is_ProjectRef spec)) (oi_Id cur)) s;
        Some (err_of r, record_event (object_key_of img) (err_of r) ''Demoted'' ''Demoted Oxide image to project'' s)
      }
      else Some (None, s))"

text \<open>The image as it is, or newly made: a pointer and an error, both of which may be nil.\<close>

definition viewOrCreateImage ::
  "('c, 'w) env \<Rightarrow> 'c \<Rightarrow> image \<Rightarrow> (('c, 'w) sys, ox_image option \<times> error option) go" where
  "viewOrCreateImage E oc img s = do {
     let spec = o_spec img;
     (cur, s) \<leftarrow> viewImage E oc (ProjectName (is_ProjectRef spec)) (OxideName (is_OxideName spec) (o_meta img)) s;
     (case cur of
        Inr cur \<Rightarrow> Some ((Some cur, None), s)
      | Inl err \<Rightarrow>
          if is_object_not_found err then do {
            ((cur, err), s) \<leftarrow> createImage E oc img s;
            Some ((cur, err), record_event (object_key_of img) err ''Created'' ''Created Oxide image'' s)
          }
          else Some ((None, Some err), s))
   }"

definition handleImageOperations ::
  "('c, 'w) env \<Rightarrow> image \<Rightarrow> (('c, 'w) sys, error option \<times> image) go" where
  "handleImageOperations E img s = do {
     let spec = o_spec img;
     (oc, s) \<leftarrow> NewClientFromRef E (rs_ConnectionRef (is_Resource spec)) s;
     (case oc of
        Inl err \<Rightarrow> Some ((Some err, img), s)
      | Inr oc \<Rightarrow> do {
          ((cur, err), s) \<leftarrow> viewOrCreateImage E oc img s;
          (case err of
             Some err \<Rightarrow> Some ((Some err, img), s)
           | None \<Rightarrow>
               (case cur of
                  None \<Rightarrow> None  \<comment> \<open>\<^verbatim>\<open>cur.Id\<close> of a nil pointer\<close>
                | Some cur \<Rightarrow> do {
                    (err, s) \<leftarrow>
                      (if oi_Id cur \<noteq> rst_ID (ist_Resource (o_status img)) then deleteImport E oc img s
                       else Some (None, s));
                    (case err of
                       Some err \<Rightarrow> Some ((Some err, img), s)
                     | None \<Rightarrow> do {
                         let st = o_status img;
                         let img = img\<lparr>o_status := st\<lparr>
                           ist_Resource := (ist_Resource st)\<lparr>rst_ID := oi_Id cur, rst_Project := ProjectName (is_ProjectRef spec)\<rparr>,
                           ist_Size := Some (NewQuantity (e_lib E) (wrap64 (oi_Size cur)))\<rparr>\<rparr>;
                         (err, s) \<leftarrow> placeImage E oc img cur s;
                         Some ((err, img), s)
                       })
                  }))
        })
   }"

definition ImageReconciler_handleFinalizer ::
  "('c, 'w) env \<Rightarrow> image \<Rightarrow> (('c, 'w) sys, error option \<times> image) go" where
  "ImageReconciler_handleFinalizer E img s =
     (case AddFinalizer (e_lib E) (o_meta img) finalizerName of
        (m, added) \<Rightarrow>
          let img = img\<lparr>o_meta := m\<rparr> in
          if added then do {
            (r, s) \<leftarrow> kube_update ImageObj (e_image E) img s;
            (case r of
               Inl e \<Rightarrow> Some ((Some e, img), s)
             | Inr img \<Rightarrow> Some ((None, img), s))
          }
          else Some ((None, img), s))"

text \<open>Every early return of the deletion is a terminal error.\<close>

definition deleteImage ::
  "('c, 'w) env \<Rightarrow> 'c \<Rightarrow> image \<Rightarrow> (('c, 'w) sys, error option) go" where
  "deleteImage E oc img s = do {
     let spec = o_spec img;
     (cur, s) \<leftarrow> viewImage E oc (ProjectName (is_ProjectRef spec)) (OxideName (is_OxideName spec) (o_meta img)) s;
     (case cur of
        Inl err \<Rightarrow> Some (Some err, s)
      | Inr cur \<Rightarrow> oxide_do E oc (ImageDelete (oi_Id cur)) s)
   }"

definition ImageReconciler_deleteOxide ::
  "('c, 'w) env \<Rightarrow> image \<Rightarrow> (('c, 'w) sys, error option) go" where
  "ImageReconciler_deleteOxide E img s = do {
     (oc, s) \<leftarrow> NewClientFromRef E (rs_ConnectionRef (is_Resource (o_spec img))) s;
     (case oc of
        Inl err \<Rightarrow> Some (Some (Terminal err), s)
      | Inr oc \<Rightarrow> do {
          (err, s) \<leftarrow> deleteImport E oc img s;
          (case err of
             Some err \<Rightarrow> Some (Some (Terminal (ShortError err)), s)
           | None \<Rightarrow> do {
               (err, s) \<leftarrow> deleteImage E oc img s;
               if err \<noteq> None \<and> \<not> not_found_err err
               then Some (map_option (\<lambda>err. Terminal (ShortError err)) err, s)
               else Some (None, record_event (object_key_of img) None ''Deleted'' ''Deleted Oxide image'' s)
             })
        })
   }"

definition ImageReconciler_handleDelete ::
  "('c, 'w) env \<Rightarrow> image \<Rightarrow> (('c, 'w) sys, error option) go" where
  "ImageReconciler_handleDelete E img s =
     (if \<not> ContainsFinalizer (e_lib E) (o_meta img) finalizerName then Some (None, s)
      else do {
        (early, s) \<leftarrow>
          (if \<not> rs_DeletionProtection (is_Resource (o_spec img)) then ImageReconciler_deleteOxide E img s
           else Some (None, s));
        (case early of
           Some err \<Rightarrow> Some (Some err, s)
         | None \<Rightarrow> do {
             let img = img\<lparr>o_meta := RemoveFinalizer (e_lib E) (o_meta img) finalizerName\<rparr>;
             (r, s) \<leftarrow> kube_update ImageObj (e_image E) img s;
             Some (IgnoreNotFound (e_lib E) (err_of r), s)
           })
      })"

definition ImageReconciler_Reconcile ::
  "('c, 'w) env \<Rightarrow> object_key \<Rightarrow> (('c, 'w) sys, ctrl_result \<times> error option) go" where
  "ImageReconciler_Reconcile E req s = do {
     (r, s) \<leftarrow> kube_get ImageKind (e_image E) req s;
     (case r of
        Inl err \<Rightarrow> Some ((no_requeue, IgnoreNotFound (e_lib E) (Some err)), s)
      | Inr img \<Rightarrow>
          if reconcileDisabled (o_meta img) then Some ((no_requeue, None), s)
          else if om_DeletionTimestamp (o_meta img) \<noteq> None then do {
            (err, s) \<leftarrow> ImageReconciler_handleDelete E img s;
            Some ((no_requeue, err), warn E (object_key_of img) ''DeleteFailed'' err s)
          }
          else do {
            ((err, img), s) \<leftarrow> ImageReconciler_handleFinalizer E img s;
            (case err of
               Some e \<Rightarrow> Some ((no_requeue, Some e), s)
             | None \<Rightarrow> do {
                 let base = img;
                 ((err, img), s) \<leftarrow> handleImageOperations E img s;
                 (((res, err), cs), s) \<leftarrow>
                   setReady E (object_key_of img) (rst_Conditions (ist_Resource (o_status img))) err s;
                 let st = (o_status img)\<lparr>ist_Resource := (ist_Resource (o_status img))\<lparr>rst_Conditions := cs\<rparr>\<rparr>;
                 let st = (if IsStatusConditionTrue (e_lib E) (rst_Conditions (ist_Resource st)) typeReady
                           then st\<lparr>ist_Resource := (ist_Resource st)\<lparr>rst_ObservedGeneration := om_Generation (o_meta img)\<rparr>\<rparr> else st);
                 (perr, s) \<leftarrow> kube_patch_status ImageObj (e_image E) base (img\<lparr>o_status := st\<rparr>) s;
                 (case perr of
                    Inl pe \<Rightarrow>
                      if err = None then Some ((no_requeue, IgnoreNotFound (e_lib E) (Some pe)), s)
                      else Some ((res, err), s)
                  | Inr _ \<Rightarrow> Some ((res, err), s))
               })
          })
   }"

section \<open>The contract\<close>

lemma placeImage_adds: "adds_all (placeImage E oc img cur s) s (\<lambda>e. \<not> is_kube_write e)"
  unfolding placeImage_def Let_def by (auto dest: no_write intro!: adds_all_intros)

lemma viewOrCreateImage_adds: "adds_all (viewOrCreateImage E oc img s) s (\<lambda>e. \<not> is_kube_write e)"
  unfolding viewOrCreateImage_def Let_def
  by (auto dest: no_write intro!: adds_all_ret adds_all_bind adds_all_ret_record createImage_adds adds_all_weaken [OF viewImage_views]
      split: sum.split)

lemma handleImageOperations_adds: "adds_all (handleImageOperations E img s) s (\<lambda>e. \<not> is_kube_write e)"
  unfolding handleImageOperations_def Let_def
  by (auto simp: no_write intro!: adds_all_ret adds_all_panic adds_all_bind placeImage_adds viewOrCreateImage_adds
      adds_all_weaken [OF deleteImport_harmless] adds_all_weaken [OF NewClientFromRef_adds_all]
      split: sum.split option.split)

lemma handleImageOperations_frame:
  "wlp (handleImageOperations E img s)
     (\<lambda>(err, img') s'. o_meta img' = o_meta img \<and> o_spec img' = o_spec img)"
  unfolding handleImageOperations_def Let_def
  by (auto split: sum.split option.split intro!: wlp_any [where m = "NewClientFromRef E c t" for c t]
      wlp_any [where m = "viewOrCreateImage E oc img t" for oc t] wlp_any [where m = "deleteImport E oc img t" for oc t]
      wlp_any [where m = "placeImage E oc i c t" for oc i c t])

text \<open>The image is gone when its deletion was acknowledged, or when it was not found, last among the
  silo's images.\<close>

definition img_gone :: "image \<Rightarrow> 'c effect \<Rightarrow> bool" where
  "img_gone img e \<longleftrightarrow>
     (\<exists>oc u. (\<exists>i. e = Oxide oc (ImageDelete i) u \<and> ok_or_gone u)
       \<or> (e = Oxide oc (ImageView '''' (OxideName (is_OxideName (o_spec img)) (o_meta img))) u \<and> not_found_err u))"

lemma deleteImage_deletes: "adds (deleteImage E oc img s) s (deletes (img_gone img))"
  unfolding deleteImage_def Let_def
  by (rule adds_bind [OF viewImage_not_found])
    (auto simp: deletes_def img_gone_def oxide_do_def ok_or_gone_def list_all_iff dest: image_view_harmless
      split: sum.split intro!: adds_ret adds_perform)

lemma ImageReconciler_deleteOxide_law:
  "adds (ImageReconciler_deleteOxide E img s) s (gone_unless_early (img_gone img))"
  unfolding ImageReconciler_deleteOxide_def
  by (intro client_block, rule adds_bind [OF adds_allD [OF deleteImport_harmless]])
    (auto simp del: not_None_eq simp: gone_early split: option.split
      intro!: adds_ret gone_after delete_block deleteImage_deletes)

lemma ImageReconciler_Reconcile_shape:
  "ImageReconciler_Reconcile E req s =
     reconcile_with E ImageKind ImageObj (e_image E) (\<lambda>st. rst_Conditions (ist_Resource st))
       (\<lambda>cs st. st\<lparr>ist_Resource := (ist_Resource st)\<lparr>rst_Conditions := cs\<rparr>\<rparr>)
       (\<lambda>g st. st\<lparr>ist_Resource := (ist_Resource st)\<lparr>rst_ObservedGeneration := g\<rparr>\<rparr>)
       (with_no_requeue (ImageReconciler_handleDelete E)) (handleImageOperations E) req s"
  unfolding ImageReconciler_Reconcile_def ImageReconciler_handleFinalizer_def reconcile_shape_defs
  by (rule refl)

interpretation img_del: block_deleter E ImageObj "e_image E"
    "\<lambda>x. rs_DeletionProtection (is_Resource (o_spec x))" "ImageReconciler_deleteOxide E" img_gone
    "ImageReconciler_handleDelete E"
  for E :: "('c, 'w) env"
  by unfold_locales
    (simp_all add: ImageReconciler_handleDelete_def delete_with_def ImageReconciler_deleteOxide_law)

interpretation img_ctl: managed E ImageObj "e_image E" "\<lambda>st. rst_Conditions (ist_Resource st)"
    "\<lambda>cs st. st\<lparr>ist_Resource := (ist_Resource st)\<lparr>rst_Conditions := cs\<rparr>\<rparr>"
    "\<lambda>g st. st\<lparr>ist_Resource := (ist_Resource st)\<lparr>rst_ObservedGeneration := g\<rparr>\<rparr>"
    "handleImageOperations E" ImageKind
    "with_no_requeue (ImageReconciler_handleDelete E)" "ImageReconciler_Reconcile E"
    "\<lambda>x. rs_DeletionProtection (is_Resource (o_spec x))" img_gone
  for E :: "('c, 'w) env"
  by unfold_locales
    (simp_all add: ImageReconciler_Reconcile_shape handleImageOperations_frame
      adds_all_trivial [OF handleImageOperations_adds]
      handleImageOperations_adds img_del.handleDelete_releases)

section \<open>No panics\<close>

lemma placeImage_runs [runs_rules]: "runs (placeImage E oc img cur s)"
  unfolding placeImage_def Let_def by (auto intro!: runs_rules)

lemma viewOrCreateImage_runs: "image_admitted img \<Longrightarrow> runs (viewOrCreateImage E oc img s)"
  unfolding viewOrCreateImage_def Let_def
  by (auto intro!: runs_rules createImage_runs split: sum.split)

lemma viewOrCreateImage_pointer:
  "wlp (viewOrCreateImage E oc img s) (\<lambda>(cur, err) s'. err = None \<longrightarrow> cur \<noteq> None)"
  unfolding viewOrCreateImage_def Let_def
  by (auto split: sum.split simp: split_def simp del: not_None_eq intro!: wlp_any [where m = "viewImage E oc p i t" for p i t]
      wlp_mono [OF createImage_pointer])

lemma viewOrCreateImage_wp:
  "image_admitted img \<Longrightarrow> wp (viewOrCreateImage E oc img s) (\<lambda>(cur, err) s'. err = None \<longrightarrow> cur \<noteq> None)"
  using viewOrCreateImage_runs [of img E oc s] viewOrCreateImage_pointer [of E oc img s]
  by (auto simp: runs_def wp_def wlp_def split: option.splits)

text \<open>The pointer that is dereferenced is never nil.\<close>

lemma handleImageOperations_runs: "image_admitted img \<Longrightarrow> runs (handleImageOperations E img s)"
proof -
  assume adm: "image_admitted img"
  have bind: "runs (do { ((cur, err), s) \<leftarrow> viewOrCreateImage E oc img s; f cur err s })"
    if "\<And>cur err s. (err = None \<longrightarrow> cur \<noteq> None) \<Longrightarrow> runs (f cur err s)" for oc s and f
    using viewOrCreateImage_wp [OF adm, of E oc s] that by (auto simp: wp_iff)
  show ?thesis
    unfolding handleImageOperations_def Let_def
    by (rule runs_bind [OF NewClientFromRef_runs])
      (auto intro!: runs_rules bind deleteImport_runs adm split: sum.split option.split)
qed

lemma ImageReconciler_deleteOxide_runs: "image_admitted img \<Longrightarrow> runs (ImageReconciler_deleteOxide E img s)"
  unfolding ImageReconciler_deleteOxide_def deleteImage_def Let_def
  by (auto intro!: runs_rules deleteImport_runs split: sum.split option.split)

lemma ImageReconciler_handleDelete_runs: "image_admitted img \<Longrightarrow> runs (ImageReconciler_handleDelete E img s)"
  unfolding ImageReconciler_handleDelete_def Let_def
  by (auto intro!: runs_rules ImageReconciler_deleteOxide_runs split: option.split)

text \<open>The images the API server hands out are admitted ones.\<close>

definition serves_admitted :: "(image, 'w) kube_ops \<Rightarrow> object_key \<Rightarrow> 'w \<Rightarrow> bool" where
  "serves_admitted ops req w \<longleftrightarrow>
     (\<forall>img. fst (k_get ops req w) = Inr img \<longrightarrow> image_admitted img)
     \<and> (\<forall>img w' img'. image_admitted img \<longrightarrow> fst (k_update ops img w') = Inr img' \<longrightarrow> image_admitted img')"

lemma ImageReconciler_Reconcile_runs:
  assumes lib: "lib_ok (e_lib E)" and adm: "serves_admitted (e_image E) req (world s)"
  shows "runs (ImageReconciler_Reconcile E req s)"
proof (rule img_ctl.reconcile_runs [where good = image_admitted])
  show "image_admitted (obj\<lparr>o_meta := fst (AddFinalizer (e_lib E) (o_meta obj) finalizerName)\<rparr>)"
    if "image_admitted obj" for obj
    using that by (simp add: image_admitted_def lib_okD(3) [OF lib])
qed (use adm in \<open>auto simp: serves_admitted_def handleImageOperations_runs
    intro!: runs_with_no_requeue ImageReconciler_handleDelete_runs\<close>)

lemma ImageReconciler_Reconcile_deleting_runs:
  "image_admitted img \<Longrightarrow> fst (k_get (e_image E) req (world s)) = Inr img \<Longrightarrow>
   om_DeletionTimestamp (o_meta img) \<noteq> None \<Longrightarrow> runs (ImageReconciler_Reconcile E req s)"
  by (rule img_ctl.reconcile_deleting_runs)
    (auto intro: runs_with_no_requeue ImageReconciler_handleDelete_runs)

section \<open>The import is cleaned up\<close>

definition import_snapshot_gone :: "image \<Rightarrow> 'c effect \<Rightarrow> bool" where
  "import_snapshot_gone img e \<longleftrightarrow>
     (\<exists>oc name u. importName img = Some name
        \<and> e = Oxide oc (SnapshotDelete (ProjectName (is_ProjectRef (o_spec img))) name) u \<and> ok_or_gone u)"

definition import_disk_gone :: "image \<Rightarrow> 'c effect \<Rightarrow> bool" where
  "import_disk_gone img e \<longleftrightarrow>
     (\<exists>oc name u. importName img = Some name
        \<and> e = Oxide oc (DiskDelete (ProjectName (is_ProjectRef (o_spec img))) name) u \<and> ok_or_gone u)"

definition import_cleaned :: "image \<Rightarrow> 'c effect list \<Rightarrow> bool" where
  "import_cleaned img tr \<longleftrightarrow>
     is_URL (o_spec img) \<noteq> '''' \<longrightarrow>
       list_ex (import_snapshot_gone img) tr \<and> list_ex (import_disk_gone img) tr"

lemma deleteImport_cleans:
  "adds (deleteImport E oc img s) s (\<lambda>err tr. list_all harmless tr \<and> (err = None \<longrightarrow> import_cleaned img tr))"
  unfolding deleteImport_def deleteImportDisk_def oxide_do_def Let_def
  by (auto simp: import_cleaned_def import_snapshot_gone_def import_disk_gone_def ok_or_gone_def
      intro!: adds_ret adds_panic adds_perform_bind split: option.split if_splits)

lemma ImageReconciler_deleteOxide_cleans:
  "adds (ImageReconciler_deleteOxide E img s) s (\<lambda>early tr. list_all harmless tr
     \<and> (early = None \<longrightarrow> list_ex (img_gone img) tr \<and> import_cleaned img tr))"
proof -
  have tail: "adds (do {
      (err, s) \<leftarrow> deleteImage E oc img s;
      if err \<noteq> None \<and> \<not> not_found_err err
      then Some (map_option (\<lambda>err. Terminal (ShortError err)) err, s)
      else Some (None, record_event (object_key_of img) None ''Deleted'' ''Deleted Oxide image'' s)
    }) s (gone_unless_early (img_gone img))" for oc s
    by (rule delete_block [OF deleteImage_deletes])
  show ?thesis
    unfolding ImageReconciler_deleteOxide_def
    by (rule adds_bind [OF NewClientFromRef_adds])
      (auto simp: kube_gets_are_harmless import_cleaned_def gone_unless_early_def list_ex_iff [symmetric] simp del: not_None_eq
        split: sum.split option.split intro!: adds_ret adds_bind [OF deleteImport_cleans] adds_weaken [OF tail])
qed

text \<open>What the finalizer's removal waits for.\<close>

definition image_cleared :: "image \<Rightarrow> 'c effect list \<Rightarrow> bool" where
  "image_cleared img tr \<longleftrightarrow>
     (if rs_DeletionProtection (is_Resource (o_spec img)) then list_all (\<lambda>e. \<not> is_oxide_call e) tr
      else preceded (img_gone img) is_kube_update tr
        \<and> (is_URL (o_spec img) \<noteq> '''' \<longrightarrow> preceded (import_snapshot_gone img) is_kube_update tr
             \<and> preceded (import_disk_gone img) is_kube_update tr))"

lemma ImageReconciler_handleDelete_clears:
  "adds (ImageReconciler_handleDelete E img s) s (\<lambda>r tr. list_all (\<lambda>e. \<not> is_oxide_create e) tr \<and> image_cleared img tr)"
proof (cases "rs_DeletionProtection (is_Resource (o_spec img))")
  case True
  then show ?thesis
    by (auto simp: ImageReconciler_handleDelete_def kube_update_def Let_def image_cleared_def
        intro!: adds_ret adds_perform_bind)
next
  case False
  then show ?thesis
    unfolding ImageReconciler_handleDelete_def kube_update_def Let_def
    by (auto simp: image_cleared_def preceded_append preceded_no_A import_cleaned_def harmlessD list_ex_iff [symmetric]
        split: option.split intro!: adds_ret adds_bind [OF ImageReconciler_deleteOxide_cleans] adds_perform_bind)
qed

lemma image_cleared_frame:
  "image_cleared img tr \<Longrightarrow> list_all is_event ev \<Longrightarrow> image_cleared img (Kube (KGet k key) u # tr @ ev)"
  by (auto simp: image_cleared_def import_snapshot_gone_def import_disk_gone_def
      intro: preceded_append_no_A events_harmless)

section \<open>Properties\<close>

text \<open>What the deletion of an Image waits for.\<close>

lemma image_deletion:
  assumes "image_admitted img" and "fst (k_get (e_image E) req (world s)) = Inr img"
    and "om_DeletionTimestamp (o_meta img) \<noteq> None"
  shows "ensures (ImageReconciler_Reconcile E req s) s (\<lambda>r tr.
     list_all (\<lambda>e. \<not> is_oxide_create e) tr \<and> image_cleared img tr)"
proof (rule ensuresI [OF ImageReconciler_Reconcile_deleting_runs [OF assms]], rule img_ctl.adds_deleting [OF assms(2,3)])
  show "adds (with_no_requeue (ImageReconciler_handleDelete E) img s) s
     (\<lambda>r tr. list_all (\<lambda>e. \<not> is_oxide_create e) tr \<and> image_cleared img tr)" for s
    by (rule adds_with_no_requeue) (rule ImageReconciler_handleDelete_clears)
next
  show "list_all (\<lambda>e. \<not> is_oxide_create e) (Kube (KGet ImageKind req) u # tr @ ev)
      \<and> image_cleared img (Kube (KGet ImageKind req) u # tr @ ev)"
    if "list_all (\<lambda>e. \<not> is_oxide_create e) tr \<and> image_cleared img tr" "list_all is_event ev" for u tr ev
    using that by (simp add: image_cleared_frame events_harmless)
qed (simp add: image_cleared_def)

definition deleted_image :: image where
  "deleted_image = (import_image '''')\<lparr>o_meta := deleting\<rparr>"

lemma deleted_image_admitted: "image_admitted deleted_image" "om_DeletionTimestamp (o_meta deleted_image) \<noteq> None"
  by (simp_all add: deleted_image_def image_admitted_def deleting_def meta0_def import_image_def block_size_ok_CRD)

text \<open>The finalizer of an image, for the property over all controllers.\<close>

lemma image_finalizer_first:
  assumes "lib_ok (e_lib E)" and "serves_admitted (e_image E) req (world s)"
    and "fst (k_get (e_image E) req (world s)) = Inr img"
    and "om_DeletionTimestamp (o_meta img) = None"
    and "snd (AddFinalizer (e_lib E) (o_meta img) finalizerName)"
  shows "ensures (ImageReconciler_Reconcile E req s) s (\<lambda>r tr.
     preceded (finalizer_saved (e_lib E) ImageObj img) is_oxide_call tr)"
  by (rule ensuresI [OF ImageReconciler_Reconcile_runs [OF assms(1,2)] img_ctl.reconcile_finalizer_first [OF assms(3-5)]])

lemma ImageReconciler_deleteOxide_terminal:
  "wlp (ImageReconciler_deleteOxide E img s) (\<lambda>early s'. early = None \<or> (\<exists>e. early = Some (Terminal e)))"
  unfolding ImageReconciler_deleteOxide_def
  by (auto split: sum.split option.split simp: split_def intro!: wlp_any [where m = "NewClientFromRef E c t" for c t]
      wlp_any [where m = "deleteImport E oc i t" for oc i t] wlp_any [where m = "deleteImage E oc i t" for oc i t])

definition never_retried :: "ctrl_result \<times> error option \<Rightarrow> bool" where
  "never_retried r \<longleftrightarrow> fst r = no_requeue \<and> (snd r = None \<or> (\<exists>e. snd r = Some (Terminal e)))"

lemma ImageReconciler_handleDelete_terminal:
  "adds (with_no_requeue (ImageReconciler_handleDelete E) img s) s (\<lambda>r tr. list_ex is_kube_update tr \<or> never_retried r)"
proof -
  have early: "adds (ImageReconciler_deleteOxide E img s) s (\<lambda>early tr. early = None \<or> (\<exists>e. early = Some (Terminal e)))"
    using adds_wlp [OF ImageReconciler_deleteOxide_law [of E img s] ImageReconciler_deleteOxide_terminal]
    by (auto intro: adds_ret elim: adds_weaken)
  have "adds (ImageReconciler_handleDelete E img s) s (\<lambda>err tr. list_ex is_kube_update tr \<or> never_retried (no_requeue, err))"
    unfolding ImageReconciler_handleDelete_def kube_update_def Let_def
    by (auto simp: never_retried_def split: option.split intro!: adds_ret adds_bind [OF early] adds_perform_bind)
  then show ?thesis
    unfolding with_no_requeue_def by (rule adds_bind) (auto intro: adds_ret)
qed

text \<open>C39: a failed deletion of an Image is not tried again. Unlike the other controllers', the
  errors of an Image's deletion are terminal: whenever a reconcile of an image that is being deleted
  ends before the update that drops the finalizer, it asks for no requeue, and what it returns is nil
  or a terminal error, so that the object stays until it is changed, even after a failure that
  would pass, such as an Oxide that cannot be reached.\<close>

theorem image_deletion_never_retried:
  assumes adm: "image_admitted img" and get: "fst (k_get (e_image E) req (world s)) = Inr img"
    and deleting: "om_DeletionTimestamp (o_meta img) \<noteq> None"
  shows "ensures (ImageReconciler_Reconcile E req s) s (\<lambda>r tr. list_ex is_kube_update tr \<or> never_retried r)"
proof (rule ensuresI [OF ImageReconciler_Reconcile_deleting_runs [OF adm get deleting]], cases "reconcileDisabled (o_meta img)")
  case True
  show "adds (ImageReconciler_Reconcile E req s) s (\<lambda>r tr. list_ex is_kube_update tr \<or> never_retried r)"
    using img_ctl.reconcile_only_reads [OF True get] by (rule adds_weaken) (simp add: never_retried_def)
next
  case False
  have "adds (ImageReconciler_Reconcile E req s) (img_ctl.fetched E req s)
      (\<lambda>r tr. list_ex is_kube_update tr \<or> never_retried r)"
    unfolding img_ctl.reconcile_deleting [OF get False deleting]
    by (rule adds_bind [OF ImageReconciler_handleDelete_terminal])
      (auto split: prod.split simp: never_retried_def intro!: adds_ret_warn)
  then show "adds (ImageReconciler_Reconcile E req s) s (\<lambda>r tr. list_ex is_kube_update tr \<or> never_retried r)"
    by (auto simp: adds_def img_ctl.fetched_def elim!: wlp_mono)
qed

theorem image_deletion_never_retried_witness:
  "ensures (ImageReconciler_Reconcile (env0\<lparr>e_image := holding deleted_image\<rparr>) key0 sys0) sys0 (\<lambda>r tr.
     list_ex is_kube_update tr \<or> never_retried r)"
  by (rule image_deletion_never_retried [OF deleted_image_admitted(1)])
    (simp_all add: deleted_image_admitted del: not_None_eq)

text \<open>C22: an import is cleaned up before the image counts as made. Whenever the operations on
  an image change the ID in its status, Oxide has confirmed in the same run that the temporary
  snapshot and disk of the import are gone, if there was one; so a cleanup that fails is tried again.\<close>

theorem image_id_after_cleanup:
  assumes "image_admitted img"
  shows "ensures (handleImageOperations E img s) s (\<lambda>(err, img') tr.
     rst_ID (ist_Resource (o_status img')) \<noteq> rst_ID (ist_Resource (o_status img)) \<longrightarrow> import_cleaned img tr)"
proof (rule ensuresI [OF handleImageOperations_runs [OF assms]])
  have mono: "import_cleaned img tr \<Longrightarrow> import_cleaned img (h @ tr @ tl)" for h tr tl :: "'a effect list"
    by (simp add: import_cleaned_def)
  show "adds (handleImageOperations E img s) s (\<lambda>(err, img') tr.
     rst_ID (ist_Resource (o_status img')) \<noteq> rst_ID (ist_Resource (o_status img)) \<longrightarrow> import_cleaned img tr)"
    unfolding handleImageOperations_def Let_def
    by (rule adds_bind [OF NewClientFromRef_adds])
      (auto split: sum.split option.split simp: import_cleaned_def intro!: adds_ret adds_panic
        adds_bind [OF adds_allD [OF viewOrCreateImage_adds]] adds_bind [OF deleteImport_cleans]
        adds_bind [OF adds_allD [OF placeImage_adds]])
qed

theorem image_id_after_cleanup_witness:
  "ensures (handleImageOperations (connected serving) (import_image '''') sys1) sys1 (\<lambda>(err, img') tr.
     rst_ID (ist_Resource (o_status img')) = '''' \<or> import_cleaned (import_image '''') tr)"
  by (rule ensures_weaken [OF image_id_after_cleanup]) auto

text \<open>An image that Oxide shows by the name: in the project, or, if it shows none there, in the silo.\<close>

definition image_shown :: "('c, 'w) env \<Rightarrow> 'c \<Rightarrow> string \<Rightarrow> string \<Rightarrow> 'w \<Rightarrow> ox_image \<Rightarrow> bool" where
  "image_shown E oc project name w cur \<longleftrightarrow>
     (case ox_image (e_oxide E) oc (ImageView project name) w of
        (Inr i, _) \<Rightarrow> i = cur
      | (Inl err, w') \<Rightarrow> is_object_not_found err \<and> fst (ox_image (e_oxide E) oc (ImageView '''' name) w') = Inr cur)"

lemma viewImage_shown:
  assumes "image_shown E oc p name (world s) cur"
  shows "\<exists>s' tr. viewImage E oc p name s = Some (Inr cur, s') \<and> trace s' = trace s @ tr \<and> list_all is_image_view tr"
  using assms
  by (auto simp: image_shown_def viewImage_def oxide_def perform_def Let_def split: prod.splits sum.splits)

text \<open>C29: an existing image is put where the spec wants it, and only if it is elsewhere. Take an image
  that Oxide shows under the object's name, in the spec's project or, if none is found there, in the
  silo, and whose ID is the one in the status. Then the operations' only write is its promotion to the
  silo, if it is to be promoted and is in a project, or its demotion to the spec's project, if it is
  not to be promoted and is in the silo; and an image that is in its place is Ready with no write at
  all.\<close>

theorem image_placed:
  assumes "NewClientFromRef E (rs_ConnectionRef (is_Resource (o_spec img))) s = Some (Inr oc, s1)"
    and "image_shown E oc (ProjectName (is_ProjectRef (o_spec img)))
      (OxideName (is_OxideName (o_spec img)) (o_meta img)) (world s1) cur"
    and "oi_Id cur = rst_ID (ist_Resource (o_status img))"
  shows "ensures (handleImageOperations E img s) s1 (\<lambda>(err, img') tr. \<exists>u.
     filter is_oxide_write tr =
       (if is_Promote (o_spec img) \<and> oi_ProjectId cur \<noteq> '''' then [Oxide oc (ImagePromote (oi_Id cur)) u]
        else if \<not> is_Promote (o_spec img) \<and> oi_ProjectId cur = ''''
        then [Oxide oc (ImageDemote (ProjectName (is_ProjectRef (o_spec img))) (oi_Id cur)) u]
        else [])
     \<and> (is_Promote (o_spec img) = (oi_ProjectId cur = '''') \<longrightarrow> err = None))"
proof -
  obtain s2 tr where s2: "viewImage E oc (ProjectName (is_ProjectRef (o_spec img)))
      (OxideName (is_OxideName (o_spec img)) (o_meta img)) s1 = Some (Inr cur, s2)"
      "trace s2 = trace s1 @ tr" "list_all is_image_view tr"
    using viewImage_shown [OF assms(2)] by blast
  have "filter is_oxide_write tr = []"
    using s2(3) by (auto simp: list_all_iff filter_empty_conv elim!: is_image_view.elims)
  with assms(1,3) s2 show ?thesis
    by (auto simp: handleImageOperations_def viewOrCreateImage_def placeImage_def oxide_def
        perform_def ensures_def record_event_def Let_def split: option.split)
qed

text \<open>An image of the silo, which is not shown in the project.\<close>

definition silo_image :: "request \<Rightarrow> unit \<Rightarrow> (error + ox_image) \<times> unit" where
  "silo_image q w =
     (case q of
        ImageView project _ \<Rightarrow>
          (if project = '''' then Inr \<lparr>oi_Id = '''', oi_ProjectId = '''', oi_Size = 9\<rparr> else Inl oxide_not_found, w)
      | _ \<Rightarrow> (Inr \<lparr>oi_Id = '''', oi_ProjectId = ''p1'', oi_Size = 9\<rparr>, w))"

theorem image_placed_witness:
  "ensures (handleImageOperations (connected (env0\<lparr>e_oxide := oxide0\<lparr>ox_image := (\<lambda>_. silo_image)\<rparr>\<rparr>)) (import_image '''') sys1) sys2
     (\<lambda>(err, img') tr. \<exists>u. filter is_oxide_write tr = [Oxide 7 (ImageDemote ''proj'' '''') u])"
  (is "ensures (handleImageOperations ?E ?img sys1) sys2 _")
proof (rule ensures_weaken [OF image_placed [of ?E ?img sys1 7 sys2 "\<lparr>oi_Id = '''', oi_ProjectId = '''', oi_Size = 9\<rparr>"]])
  show "image_shown ?E 7 (ProjectName (is_ProjectRef (o_spec ?img))) (OxideName (is_OxideName (o_spec ?img)) (o_meta ?img))
      (world sys2) \<lparr>oi_Id = '''', oi_ProjectId = '''', oi_Size = 9\<rparr>"
    by (simp add: image_shown_def connected_def silo_image_def oxide_not_found_def ProjectName_def import_image_def
        project_ref0_def)
qed (auto simp: import_image_def resource0_def connected_client status0_def ProjectName_def project_ref0_def)

end
