(* ===== verification/Disk_Controller.thy ===== *)
theory Disk_Controller
  imports Image_Lookup
begin

text \<open>
  \<^verbatim>\<open>internal/controller/oxide/disk_controller.go\<close>: the Disk controller, and the source of a new
  disk, which the Instance controller uses for boot disks too.
\<close>

section \<open>The source of a disk\<close>

definition diskSource ::
  "('c, 'w) env \<Rightarrow> 'c \<Rightarrow> string \<Rightarrow> string \<Rightarrow> string \<Rightarrow> int \<Rightarrow> (('c, 'w) sys, error + disk_source) go" where
  "diskSource E oc project img snap blockSize s =
     (if img \<noteq> '''' then do {
        (img, s) \<leftarrow> viewImage E oc project img s;
        (case img of
           Inl err \<Rightarrow> Some (Inl err, s)
         | Inr img \<Rightarrow> Some (Inr (DiskSourceImage (oi_Id img)), s))
      }
      else if snap \<noteq> '''' then do {
        (snap, s) \<leftarrow> oxide (ox_snapshot (e_oxide E)) oc (SnapshotView project snap) s;
        (case snap of
           Inl err \<Rightarrow> Some (Inl err, s)
         | Inr snap \<Rightarrow> Some (Inr (DiskSourceSnapshot (os_Id snap)), s))
      }
      else Some (Inr (DiskSourceBlank blockSize), s))"

section \<open>The controller\<close>

text \<open>The creation of a missing disk; \<open>Inl\<close> is the early return.\<close>

definition createDisk ::
  "('c, 'w) env \<Rightarrow> 'c \<Rightarrow> disk \<Rightarrow> (('c, 'w) sys, error + (error + ox_disk)) go" where
  "createDisk E oc disk s = do {
     let spec = o_spec disk;
     (src, s) \<leftarrow> diskSource E oc (ProjectName (ds_ProjectRef spec)) (ds_Image spec) (ds_Snapshot spec)
       (ds_BlockSize spec) s;
     (case src of
        Inl serr \<Rightarrow> Some (Inl serr, s)
      | Inr src \<Rightarrow> do {
          (cur, s) \<leftarrow> oxide (ox_disk (e_oxide E)) oc (DiskCreate (ProjectName (ds_ProjectRef spec))
            \<lparr>dc_Name = OxideName (ds_OxideName spec) (o_meta disk), dc_Description = ds_Description spec,
             dc_Size = q_Value (ds_Size spec), dc_DiskBackend = DiskBackendDistributed src\<rparr>) s;
          Some (Inr cur, record_event (object_key_of disk) (err_of cur) ''Created'' ''Created Oxide disk'' s)
        })
   }"

definition handleDiskOperations ::
  "('c, 'w) env \<Rightarrow> disk \<Rightarrow> (('c, 'w) sys, error option \<times> disk) go" where
  "handleDiskOperations E disk s = do {
     let spec = o_spec disk;
     (oc, s) \<leftarrow> NewClientFromRef E (rs_ConnectionRef (ds_Resource spec)) s;
     (case oc of
        Inl err \<Rightarrow> Some ((Some err, disk), s)
      | Inr oc \<Rightarrow> do {
          let project = ProjectName (ds_ProjectRef spec);
          let name = OxideName (ds_OxideName spec) (o_meta disk);
          (cur, s) \<leftarrow> oxide (ox_disk (e_oxide E)) oc (DiskView project name) s;
          (early, s) \<leftarrow>
            (if not_found_err (err_of cur) then createDisk E oc disk s else Some (Inr cur, s));
          (case early of
             Inl serr \<Rightarrow> Some ((Some serr, disk), s)
           | Inr (Inl err) \<Rightarrow> Some ((Some err, disk), s)
           | Inr (Inr cur) \<Rightarrow>
               let st = o_status disk;
                   disk = disk\<lparr>o_status := st\<lparr>
                     dst_Resource := (dst_Resource st)\<lparr>rst_ID := od_Id cur, rst_Project := ProjectName (ds_ProjectRef spec)\<rparr>,
                     dst_State := DiskStateText (e_lib E) (od_State cur)\<rparr>\<rparr>
               in if od_State cur = DiskStateFaulted then Some ((Some (Plain ''disk is faulted''), disk), s)
                  else if od_State cur = DiskStateCreating
                  then Some ((Some (Progressing ''disk is creating''), disk), s)
                  else Some ((None, disk), s))
        })
   }"

definition DiskReconciler_handleFinalizer ::
  "('c, 'w) env \<Rightarrow> disk \<Rightarrow> (('c, 'w) sys, error option \<times> disk) go" where
  "DiskReconciler_handleFinalizer E disk s =
     (case AddFinalizer (e_lib E) (o_meta disk) finalizerName of
        (m, added) \<Rightarrow>
          let disk = disk\<lparr>o_meta := m\<rparr> in
          if added then do {
            (r, s) \<leftarrow> kube_update DiskObj (e_disk E) disk s;
            (case r of
               Inl e \<Rightarrow> Some ((Some e, disk), s)
             | Inr disk \<Rightarrow> Some ((None, disk), s))
          }
          else Some ((None, disk), s))"

definition DiskReconciler_deleteOxide ::
  "('c, 'w) env \<Rightarrow> disk \<Rightarrow> (('c, 'w) sys, error option) go" where
  "DiskReconciler_deleteOxide E disk s = do {
     (oc, s) \<leftarrow> NewClientFromRef E (rs_ConnectionRef (ds_Resource (o_spec disk))) s;
     (case oc of
        Inl err \<Rightarrow> Some (Some err, s)
      | Inr oc \<Rightarrow> do {
          (err, s) \<leftarrow> oxide_do E oc (DiskDelete (ProjectName (ds_ProjectRef (o_spec disk)))
            (OxideName (ds_OxideName (o_spec disk)) (o_meta disk))) s;
          if err \<noteq> None \<and> \<not> not_found_err err
          then Some (map_option ShortError err, s)
          else Some (None, record_event (object_key_of disk) None ''Deleted'' ''Deleted Oxide disk'' s)
        })
   }"

definition DiskReconciler_handleDelete ::
  "('c, 'w) env \<Rightarrow> disk \<Rightarrow> (('c, 'w) sys, error option) go" where
  "DiskReconciler_handleDelete E disk s =
     (if \<not> ContainsFinalizer (e_lib E) (o_meta disk) finalizerName then Some (None, s)
      else do {
        (early, s) \<leftarrow>
          (if \<not> rs_DeletionProtection (ds_Resource (o_spec disk)) then DiskReconciler_deleteOxide E disk s
           else Some (None, s));
        (case early of
           Some err \<Rightarrow> Some (Some err, s)
         | None \<Rightarrow> do {
             let disk = disk\<lparr>o_meta := RemoveFinalizer (e_lib E) (o_meta disk) finalizerName\<rparr>;
             (r, s) \<leftarrow> kube_update DiskObj (e_disk E) disk s;
             Some (IgnoreNotFound (e_lib E) (err_of r), s)
           })
      })"

definition DiskReconciler_Reconcile ::
  "('c, 'w) env \<Rightarrow> object_key \<Rightarrow> (('c, 'w) sys, ctrl_result \<times> error option) go" where
  "DiskReconciler_Reconcile E req s = do {
     (r, s) \<leftarrow> kube_get DiskKind (e_disk E) req s;
     (case r of
        Inl err \<Rightarrow> Some ((no_requeue, IgnoreNotFound (e_lib E) (Some err)), s)
      | Inr disk \<Rightarrow>
          if reconcileDisabled (o_meta disk) then Some ((no_requeue, None), s)
          else if om_DeletionTimestamp (o_meta disk) \<noteq> None then do {
            (err, s) \<leftarrow> DiskReconciler_handleDelete E disk s;
            Some ((no_requeue, err), warn E (object_key_of disk) ''DeleteFailed'' err s)
          }
          else do {
            ((err, disk), s) \<leftarrow> DiskReconciler_handleFinalizer E disk s;
            (case err of
               Some e \<Rightarrow> Some ((no_requeue, Some e), s)
             | None \<Rightarrow> do {
                 let base = disk;
                 ((err, disk), s) \<leftarrow> handleDiskOperations E disk s;
                 (((res, err), cs), s) \<leftarrow>
                   setReady E (object_key_of disk) (rst_Conditions (dst_Resource (o_status disk))) err s;
                 let st = (o_status disk)\<lparr>dst_Resource := (dst_Resource (o_status disk))\<lparr>rst_Conditions := cs\<rparr>\<rparr>;
                 let st = (if IsStatusConditionTrue (e_lib E) (rst_Conditions (dst_Resource st)) typeReady
                           then st\<lparr>dst_Resource := (dst_Resource st)\<lparr>rst_ObservedGeneration := om_Generation (o_meta disk)\<rparr>\<rparr> else st);
                 (perr, s) \<leftarrow> kube_patch_status DiskObj (e_disk E) base (disk\<lparr>o_status := st\<rparr>) s;
                 (case perr of
                    Inl pe \<Rightarrow>
                      if err = None then Some ((no_requeue, IgnoreNotFound (e_lib E) (Some pe)), s)
                      else Some ((res, err), s)
                  | Inr _ \<Rightarrow> Some ((res, err), s))
               })
          })
   }"

section \<open>The contract\<close>

lemma diskSource_views: "adds_all (diskSource E oc p i sn b s) s is_oxide_view"
  unfolding diskSource_def
  by (auto intro!: adds_all_intros adds_all_weaken [OF viewImage_views image_view_is_view] split: sum.split)

lemma createDisk_adds: "adds_all (createDisk E oc disk s) s (\<lambda>e. \<not> is_kube_write e)"
  unfolding createDisk_def Let_def
  by (intro adds_all_bind)
    (auto dest: no_write intro!: adds_all_intros adds_all_weaken [OF diskSource_views] split: sum.split)

lemma handleDiskOperations_adds: "adds_all (handleDiskOperations E disk s) s (\<lambda>e. \<not> is_kube_write e)"
  unfolding handleDiskOperations_def Let_def
  by (intro adds_all_bind)
    (auto dest: no_write intro!: adds_all_intros createDisk_adds adds_all_weaken [OF NewClientFromRef_adds_all]
      split: sum.split)

lemma handleDiskOperations_frame:
  "wlp (handleDiskOperations E disk s)
     (\<lambda>(err, disk') s'. o_meta disk' = o_meta disk \<and> o_spec disk' = o_spec disk)"
  unfolding handleDiskOperations_def Let_def
  by (auto intro!: wlp_any split: sum.split)

definition disk_gone :: "disk \<Rightarrow> 'c effect \<Rightarrow> bool" where
  "disk_gone disk e \<longleftrightarrow>
     (\<exists>oc u. e = Oxide oc (DiskDelete (ProjectName (ds_ProjectRef (o_spec disk)))
        (OxideName (ds_OxideName (o_spec disk)) (o_meta disk))) u \<and> ok_or_gone u)"

lemma DiskReconciler_deleteOxide_law:
  "adds (DiskReconciler_deleteOxide E disk s) s (gone_unless_early (disk_gone disk))"
  unfolding DiskReconciler_deleteOxide_def
  by (intro client_block delete_block deletes_oxide_do) (auto simp: disk_gone_def)

lemma DiskReconciler_Reconcile_shape:
  "DiskReconciler_Reconcile E req s =
     reconcile_with E DiskKind DiskObj (e_disk E) (\<lambda>st. rst_Conditions (dst_Resource st))
       (\<lambda>cs st. st\<lparr>dst_Resource := (dst_Resource st)\<lparr>rst_Conditions := cs\<rparr>\<rparr>)
       (\<lambda>g st. st\<lparr>dst_Resource := (dst_Resource st)\<lparr>rst_ObservedGeneration := g\<rparr>\<rparr>)
       (with_no_requeue (DiskReconciler_handleDelete E)) (handleDiskOperations E) req s"
  unfolding DiskReconciler_Reconcile_def DiskReconciler_handleFinalizer_def reconcile_shape_defs
  by (rule refl)

interpretation disk_del: block_deleter E DiskObj "e_disk E"
    "\<lambda>x. rs_DeletionProtection (ds_Resource (o_spec x))" "DiskReconciler_deleteOxide E" disk_gone
    "DiskReconciler_handleDelete E"
  for E :: "('c, 'w) env"
  by unfold_locales
    (simp_all add: DiskReconciler_handleDelete_def delete_with_def DiskReconciler_deleteOxide_law)

interpretation disk_ctl: managed E DiskObj "e_disk E" "\<lambda>st. rst_Conditions (dst_Resource st)"
    "\<lambda>cs st. st\<lparr>dst_Resource := (dst_Resource st)\<lparr>rst_Conditions := cs\<rparr>\<rparr>"
    "\<lambda>g st. st\<lparr>dst_Resource := (dst_Resource st)\<lparr>rst_ObservedGeneration := g\<rparr>\<rparr>"
    "handleDiskOperations E" DiskKind
    "with_no_requeue (DiskReconciler_handleDelete E)" "DiskReconciler_Reconcile E"
    "\<lambda>x. rs_DeletionProtection (ds_Resource (o_spec x))" disk_gone
  for E :: "('c, 'w) env"
  by unfold_locales
    (simp_all add: DiskReconciler_Reconcile_shape handleDiskOperations_frame
      adds_all_trivial [OF handleDiskOperations_adds]
      handleDiskOperations_adds disk_del.handleDelete_releases)

section \<open>No panics\<close>

lemma diskSource_runs [runs_rules]: "runs (diskSource E oc p i n b s)"
  unfolding diskSource_def by (auto intro!: runs_rules split: sum.split)

lemma createDisk_runs [runs_rules]: "runs (createDisk E oc disk s)"
  unfolding createDisk_def Let_def by (auto intro!: runs_rules split: sum.split)

lemma handleDiskOperations_runs [runs_rules]: "runs (handleDiskOperations E disk s)"
  unfolding handleDiskOperations_def Let_def
  by (auto intro!: runs_rules split: sum.split)

lemma DiskReconciler_deleteOxide_runs [runs_rules]: "runs (DiskReconciler_deleteOxide E disk s)"
  unfolding DiskReconciler_deleteOxide_def by (auto intro!: runs_rules split: sum.split)

lemma DiskReconciler_handleDelete_runs [runs_rules]: "runs (DiskReconciler_handleDelete E x s)"
  unfolding DiskReconciler_handleDelete_def Let_def
  by (auto intro!: runs_rules split: option.split)

lemma DiskReconciler_Reconcile_runs: "runs (DiskReconciler_Reconcile E req s)"
  by (rule disk_ctl.reconcile_runs [where good = "\<lambda>_. True"])
    (auto intro: runs_rules runs_with_no_requeue)

section \<open>Properties\<close>

text \<open>A Disk to apply the theorems to.\<close>

definition new_disk :: disk where
  "new_disk =
     \<lparr>o_meta = meta0,
      o_spec = \<lparr>ds_Resource = resource0, ds_ProjectRef = project_ref0, ds_OxideName = \<lparr>ons_Name = ''''\<rparr>,
        ds_Description = '''', ds_Size = \<lparr>q_Value = 2 ^ 30, q_String = ''1Gi''\<rparr>, ds_Image = '''', ds_Snapshot = '''',
        ds_BlockSize = 2048\<rparr>,
      o_status = \<lparr>dst_Resource = status0, dst_State = ''''\<rparr>\<rparr>"

text \<open>The finalizer of a Disk, for the property over all controllers.\<close>

lemma disk_finalizer_first:
  assumes "fst (k_get (e_disk E) req (world s)) = Inr disk"
    and "om_DeletionTimestamp (o_meta disk) = None"
    and "snd (AddFinalizer (e_lib E) (o_meta disk) finalizerName)"
  shows "ensures (DiskReconciler_Reconcile E req s) s (\<lambda>r tr.
     preceded (finalizer_saved (e_lib E) DiskObj disk) is_oxide_call tr)"
  by (rule ensuresI [OF DiskReconciler_Reconcile_runs disk_ctl.reconcile_finalizer_first [OF assms]])

subsection \<open>The source of a new disk\<close>

text \<open>C31: a new disk is made from what the spec names. Without the disk in Oxide and with an
  image in the spec that Oxide knows in the project, the one write is the creation of a disk of the
  spec's name and size from that very image, whatever the spec says of a snapshot.\<close>

theorem disk_made_from_image:
  assumes client: "NewClientFromRef E (rs_ConnectionRef (ds_Resource (o_spec disk))) s = Some (Inr oc, s1)"
    and missing: "ox_disk (e_oxide E) oc (DiskView (ProjectName (ds_ProjectRef (o_spec disk)))
      (OxideName (ds_OxideName (o_spec disk)) (o_meta disk))) (world s1) = (Inl e, w)"
    and gone: "is_object_not_found e"
    and image_named: "ds_Image (o_spec disk) \<noteq> ''''"
    and image_known: "fst (ox_image (e_oxide E) oc
      (ImageView (ProjectName (ds_ProjectRef (o_spec disk))) (ds_Image (o_spec disk))) w) = Inr img"
  shows "ensures (handleDiskOperations E disk s) s1 (\<lambda>(err, disk') tr. \<exists>u.
     filter is_oxide_write tr = [Oxide oc (DiskCreate (ProjectName (ds_ProjectRef (o_spec disk)))
       \<lparr>dc_Name = OxideName (ds_OxideName (o_spec disk)) (o_meta disk), dc_Description = ds_Description (o_spec disk),
        dc_Size = q_Value (ds_Size (o_spec disk)),
        dc_DiskBackend = DiskBackendDistributed (DiskSourceImage (oi_Id img))\<rparr>) u])"
proof -
  have "adds (handleDiskOperations E disk s) s1 (\<lambda>(err, disk') tr. \<exists>u.
     filter is_oxide_write tr = [Oxide oc (DiskCreate (ProjectName (ds_ProjectRef (o_spec disk)))
       \<lparr>dc_Name = OxideName (ds_OxideName (o_spec disk)) (o_meta disk), dc_Description = ds_Description (o_spec disk),
        dc_Size = q_Value (ds_Size (o_spec disk)),
        dc_DiskBackend = DiskBackendDistributed (DiskSourceImage (oi_Id img))\<rparr>) u])"
    using assms
    by (auto simp: handleDiskOperations_def createDisk_def diskSource_def viewImage_def oxide_def perform_def
        adds_def record_event_def Let_def split: sum.split option.split)
  then show ?thesis by (rule ensuresI [OF handleDiskOperations_runs])
qed

theorem disk_made_from_image_witness:
  "ensures (handleDiskOperations (connected (env0\<lparr>e_oxide := oxide0\<lparr>ox_image :=
       (\<lambda>_ _ w. (Inr \<lparr>oi_Id = ''i1'', oi_ProjectId = ''p1'', oi_Size = 9\<rparr>, w))\<rparr>\<rparr>))
       (new_disk\<lparr>o_spec := (o_spec new_disk)\<lparr>ds_Image := ''debian''\<rparr>\<rparr>) sys1) sys2 (\<lambda>(err, disk') tr. \<exists>u.
     filter is_oxide_write tr = [Oxide 7 (DiskCreate ''proj''
       \<lparr>dc_Name = ''demo'', dc_Description = '''', dc_Size = 2 ^ 30,
        dc_DiskBackend = DiskBackendDistributed (DiskSourceImage ''i1'')\<rparr>) u])"
  (is "ensures (handleDiskOperations ?E ?d sys1) sys2 _")
  using disk_made_from_image [of ?E ?d sys1 7 sys2 oxide_not_found "()" "\<lparr>oi_Id = ''i1'', oi_ProjectId = ''p1'', oi_Size = 9\<rparr>"]
  by (simp add: new_disk_def resource0_def connected_client oxide0_def oxide_not_found_def ProjectName_def
      project_ref0_def OxideName_def meta0_def)

text \<open>An existing disk is reported as it is and never written to: faulted is an error,
  creating is progress, and every other state is Ready.\<close>

lemma disk_state_reported:
  assumes "NewClientFromRef E (rs_ConnectionRef (ds_Resource (o_spec disk))) s = Some (Inr oc, s1)"
    and "fst (ox_disk (e_oxide E) oc (DiskView (ProjectName (ds_ProjectRef (o_spec disk)))
      (OxideName (ds_OxideName (o_spec disk)) (o_meta disk))) (world s1)) = Inr cur"
  shows "ensures (handleDiskOperations E disk s) s1 (\<lambda>(err, disk') tr.
     list_all (\<lambda>e. \<not> is_oxide_write e) tr
     \<and> err = (if od_State cur = DiskStateFaulted then Some (Plain ''disk is faulted'')
              else if od_State cur = DiskStateCreating then Some (Progressing ''disk is creating'') else None)
     \<and> rst_ID (dst_Resource (o_status disk')) = od_Id cur)"
  using assms
  by (simp add: handleDiskOperations_def oxide_def perform_def ensures_def Let_def)

end
