(* ===== verification/Instance_Controller.thy ===== *)
theory Instance_Controller
  imports Disk_Controller Chunk_Writer
begin

text \<open>
  \<^verbatim>\<open>internal/controller/oxide/instance_controller.go\<close>: the Instance controller. It creates an
  instance with its disks, network interfaces and addresses, then converges its size and its power
  state, one step for each reconcile, since Oxide only resizes stopped instances and only deletes
  stopped or failed ones.
\<close>

section \<open>Requests\<close>

definition bootDiskName :: "instance_obj \<Rightarrow> string" where
  "bootDiskName inst = OxideName (ins_OxideName (o_spec inst)) (o_meta inst) @ ''-boot''"

definition externalIp :: "external_ip \<Rightarrow> external_ip_create" where
  "externalIp ip =
     (if eip_Type ip = ExternalIPFloating then ExternalIpCreateFloating (eip_FloatingIP ip)
      else ExternalIpCreateEphemeral (if eip_Pool ip \<noteq> '''' then Some (eip_Pool ip) else None))"

definition nicCreate :: "network_interface \<Rightarrow> nic_create" where
  "nicCreate n = \<lparr>nc_Name = ni_Name n, nc_Description = ni_Description n, nc_VpcName = ni_Vpc n,
     nc_SubnetName = ni_Subnet n\<rparr>"

text \<open>The boot disk of a new instance: none, one to attach, or one to create. The outer \<open>None\<close> is
  the panic of reading the size that is not there.\<close>

definition bootDisk ::
  "('c, 'w) env \<Rightarrow> 'c \<Rightarrow> string \<Rightarrow> instance_obj
   \<Rightarrow> (('c, 'w) sys, error + instance_disk_attachment option) go" where
  "bootDisk E oc project inst s =
     (case ins_BootDisk (o_spec inst) of
        None \<Rightarrow> Some (Inr None, s)
      | Some bd \<Rightarrow>
          if bd_Disk bd \<noteq> '''' then Some (Inr (Some (InstanceDiskAttachmentAttach (bd_Disk bd))), s)
          else do {
            (src, s) \<leftarrow> diskSource E oc project (bd_Image bd) '''' 4096 s;
            (case src of
               Inl err \<Rightarrow> Some (Inl err, s)
             | Inr src \<Rightarrow>
                 (case bd_Size bd of
                    None \<Rightarrow> None
                  | Some sz \<Rightarrow> Some (Inr (Some (InstanceDiskAttachmentCreate
                      \<lparr>dc_Name = bootDiskName inst,
                       dc_Description = ''Boot disk for instance ''
                         @ OxideName (ins_OxideName (o_spec inst)) (o_meta inst),
                       dc_Size = q_Value sz, dc_DiskBackend = DiskBackendDistributed src\<rparr>)), s)))
          })"

definition instanceCreate ::
  "('c, 'w) env \<Rightarrow> 'c \<Rightarrow> string \<Rightarrow> instance_obj \<Rightarrow> (('c, 'w) sys, error + instance_create) go" where
  "instanceCreate E oc project inst s = do {
     let spec = o_spec inst;
     let name = OxideName (ins_OxideName spec) (o_meta inst);
     (boot, s) \<leftarrow> bootDisk E oc project inst s;
     (case boot of
        Inl err \<Rightarrow> Some (Inl err, s)
      | Inr boot \<Rightarrow> Some (Inr
          \<lparr>ic_Name = name, ic_Description = ins_Description spec,
           ic_Hostname = cmpOr (ins_Hostname spec) name,
           ic_Ncpus = ins_NCPUs spec, ic_Memory = q_Value (ins_Memory spec),
           ic_Start = (ins_RunState spec \<noteq> RunStateStopped),
           ic_UserData = base64_encode (ins_UserData spec),
           ic_BootDisk = boot,
           ic_Disks = map InstanceDiskAttachmentAttach (ins_Disks spec),
           ic_NetworkInterfaces =
             (if ins_NetworkInterfaces spec \<noteq> [] then Some (map nicCreate (ins_NetworkInterfaces spec)) else None),
           ic_ExternalIps = map externalIp (ins_ExternalIPs spec),
           ic_SshPublicKeys = ins_SSHPublicKeys spec\<rparr>, s))
   }"

definition non_empty :: "string \<Rightarrow> string option" where
  "non_empty x = (if x \<noteq> '''' then Some x else None)"

definition instanceUpdate :: "ox_instance \<Rightarrow> instance_obj \<Rightarrow> instance_update" where
  "instanceUpdate cur inst =
     \<lparr>iu_Ncpus = ins_NCPUs (o_spec inst), iu_Memory = q_Value (ins_Memory (o_spec inst)),
      iu_EnableJumboFrames = oin_EnableJumboFrames cur,
      iu_BootDisk = non_empty (oin_BootDiskId cur),
      iu_AutoRestartPolicy = non_empty (oin_AutoRestartPolicy cur),
      iu_CpuPlatform = non_empty (oin_CpuPlatform cur)\<rparr>"

fun externalIPs :: "ox_external_ip list \<Rightarrow> string list" where
  "externalIPs [] = []"
| "externalIPs (ExternalIpEphemeral ip # ips) = ip # externalIPs ips"
| "externalIPs (ExternalIpFloating ip # ips) = ip # externalIPs ips"
| "externalIPs (ExternalIpOther # ips) = externalIPs ips"

section \<open>Convergence\<close>

definition stopInstance ::
  "('c, 'w) env \<Rightarrow> 'c \<Rightarrow> instance_obj \<Rightarrow> ox_instance \<Rightarrow> string \<Rightarrow> (('c, 'w) sys, error) go" where
  "stopInstance E oc inst cur msg s =
     (if oin_RunState cur = InstanceStateRunning then do {
        (r, s) \<leftarrow> oxide (ox_instance (e_oxide E)) oc (InstanceStop (oin_Id cur)) s;
        (case r of
           Inl err \<Rightarrow> Some (err, s)
         | Inr _ \<Rightarrow> Some (Progressing msg,
             record_event (object_key_of inst) None ''Stopping'' (''Stopping Oxide instance: '' @ msg) s))
      }
      else Some (Progressing msg, s))"

definition size_differs :: "ox_instance \<Rightarrow> instance_obj \<Rightarrow> bool" where
  "size_differs cur inst \<longleftrightarrow>
     wrap64 (oin_Ncpus cur) \<noteq> ins_NCPUs (o_spec inst)
     \<or> wrap64 (oin_Memory cur) \<noteq> q_Value (ins_Memory (o_spec inst))"

definition wantRunning :: "instance_obj \<Rightarrow> bool" where
  "wantRunning inst \<longleftrightarrow> ins_RunState (o_spec inst) \<noteq> RunStateStopped"

definition resizeInstance ::
  "('c, 'w) env \<Rightarrow> 'c \<Rightarrow> instance_obj \<Rightarrow> ox_instance \<Rightarrow> (('c, 'w) sys, error) go" where
  "resizeInstance E oc inst cur s =
     (if oin_RunState cur \<noteq> InstanceStateStopped then stopInstance E oc inst cur ''stopping instance to resize'' s
      else do {
        (r, s) \<leftarrow> oxide (ox_instance (e_oxide E)) oc (InstanceUpdate (oin_Id cur) (instanceUpdate cur inst)) s;
        (case r of
           Inl err \<Rightarrow> Some (err, s)
         | Inr _ \<Rightarrow> Some (Progressing ''resized instance'',
             record_event (object_key_of inst) None ''Resized''
               (''Resized Oxide instance to '' @ itoa (ins_NCPUs (o_spec inst)) @ '' CPUs and ''
                @ q_String (ins_Memory (o_spec inst)) @ '' memory'') s))
      })"

text \<open>The switch on the power state; \<open>None\<close> is falling out of it.\<close>

definition powerInstance ::
  "('c, 'w) env \<Rightarrow> 'c \<Rightarrow> instance_obj \<Rightarrow> ox_instance \<Rightarrow> (('c, 'w) sys, error option) go" where
  "powerInstance E oc inst cur s =
     (let run = oin_RunState cur in
      if run = InstanceStateStopped \<and> wantRunning inst then do {
        (r, s) \<leftarrow> oxide (ox_instance (e_oxide E)) oc (InstanceStart (oin_Id cur)) s;
        (case r of
           Inl err \<Rightarrow> Some (Some err, s)
         | Inr _ \<Rightarrow> Some (Some (Progressing ''starting instance''),
             record_event (object_key_of inst) None ''Starting'' ''Starting Oxide instance'' s))
      }
      else if run = InstanceStateRunning \<and> \<not> wantRunning inst then do {
        (err, s) \<leftarrow> stopInstance E oc inst cur ''stopping instance'' s;
        Some (Some err, s)
      }
      else if run = InstanceStateFailed then Some (Some (Plain ''instance is in failed state''), s)
      else if run \<noteq> InstanceStateRunning \<and> run \<noteq> InstanceStateStopped
      then Some (Some (Progressing (''instance is '' @ InstanceStateText (e_lib E) run)), s)
      else Some (None, s))"

text \<open>Everything after the instance was viewed or created.\<close>

definition convergeInstance ::
  "('c, 'w) env \<Rightarrow> 'c \<Rightarrow> instance_obj \<Rightarrow> ox_instance \<Rightarrow> (('c, 'w) sys, error option \<times> instance_obj) go" where
  "convergeInstance E oc inst cur s =
     (let spec = o_spec inst; st = o_status inst;
          inst = inst\<lparr>o_status := st\<lparr>
            inst_Resource := (inst_Resource st)\<lparr>rst_ID := oin_Id cur, rst_Project := ProjectName (ins_ProjectRef spec)\<rparr>,
            inst_State := InstanceStateText (e_lib E) (oin_RunState cur)\<rparr>\<rparr>
      in if size_differs cur inst then do {
           (err, s) \<leftarrow> resizeInstance E oc inst cur s;
           Some ((Some err, inst), s)
         }
         else do {
           (err, s) \<leftarrow> powerInstance E oc inst cur s;
           (case err of
              Some err \<Rightarrow> Some ((Some err, inst), s)
            | None \<Rightarrow> do {
                (ips, s) \<leftarrow> oxide (ox_ips (e_oxide E)) oc (InstanceExternalIpList (oin_Id cur)) s;
                (case ips of
                   Inl err \<Rightarrow> Some ((Some err, inst), s)
                 | Inr ips \<Rightarrow> Some ((None, inst\<lparr>o_status := (o_status inst)\<lparr>
                     inst_ExternalIPs := externalIPs ips,
                     inst_LastObserved := Some (e_now E (world s))\<rparr>\<rparr>), s))
              })
         })"

definition createInstance ::
  "('c, 'w) env \<Rightarrow> 'c \<Rightarrow> instance_obj \<Rightarrow> (('c, 'w) sys, error + ox_instance) go" where
  "createInstance E oc inst s = do {
     let project = ProjectName (ins_ProjectRef (o_spec inst));
     (body, s) \<leftarrow> instanceCreate E oc project inst s;
     (case body of
        Inl berr \<Rightarrow> Some (Inl berr, s)
      | Inr body \<Rightarrow> do {
          (cur, s) \<leftarrow> oxide (ox_instance (e_oxide E)) oc (InstanceCreate project body) s;
          Some (cur, record_event (object_key_of inst) (err_of cur) ''Created'' ''Created Oxide instance'' s)
        })
   }"

definition handleInstanceOperations ::
  "('c, 'w) env \<Rightarrow> instance_obj \<Rightarrow> (('c, 'w) sys, error option \<times> instance_obj) go" where
  "handleInstanceOperations E inst s = do {
     let spec = o_spec inst;
     (oc, s) \<leftarrow> NewClientFromRef E (rs_ConnectionRef (ins_Resource spec)) s;
     (case oc of
        Inl err \<Rightarrow> Some ((Some err, inst), s)
      | Inr oc \<Rightarrow> do {
          (cur, s) \<leftarrow> oxide (ox_instance (e_oxide E)) oc
            (InstanceView (ProjectName (ins_ProjectRef spec)) (OxideName (ins_OxideName spec) (o_meta inst))) s;
          (cur, s) \<leftarrow> (if not_found_err (err_of cur) then createInstance E oc inst s else Some (cur, s));
          (case cur of
             Inl err \<Rightarrow> Some ((Some err, inst), s)
           | Inr cur \<Rightarrow> convergeInstance E oc inst cur s)
        })
   }"

section \<open>Deletion\<close>

text \<open>The boot disk the instance was created with, if the operator made it.\<close>

definition owns_boot_disk :: "instance_obj \<Rightarrow> bool" where
  "owns_boot_disk inst \<longleftrightarrow>
     (case ins_BootDisk (o_spec inst) of None \<Rightarrow> False | Some bd \<Rightarrow> bd_Disk bd = '''')"

definition deleteBootDisk ::
  "('c, 'w) env \<Rightarrow> 'c \<Rightarrow> string \<Rightarrow> instance_obj \<Rightarrow> (('c, 'w) sys, error option) go" where
  "deleteBootDisk E oc project inst s =
     (if owns_boot_disk inst then do {
        (err, s) \<leftarrow> oxide_do E oc (DiskDelete project (bootDiskName inst)) s;
        Some (if err \<noteq> None \<and> \<not> not_found_err err then err else None, s)
      }
      else Some (None, s))"

definition deleteInstance ::
  "('c, 'w) env \<Rightarrow> 'c \<Rightarrow> string \<Rightarrow> instance_obj \<Rightarrow> (('c, 'w) sys, error option) go" where
  "deleteInstance E oc project inst s = do {
     (cur, s) \<leftarrow> oxide (ox_instance (e_oxide E)) oc
       (InstanceView project (OxideName (ins_OxideName (o_spec inst)) (o_meta inst))) s;
     (case cur of
        Inl err \<Rightarrow>
          if is_object_not_found err then deleteBootDisk E oc project inst s
          else Some (Some err, s)
      | Inr cur \<Rightarrow>
          if oin_RunState cur = InstanceStateStopped \<or> oin_RunState cur = InstanceStateFailed then do {
            (err, s) \<leftarrow> oxide_do E oc (InstanceDelete (oin_Id cur)) s;
            if err \<noteq> None \<and> \<not> not_found_err err then Some (err, s)
            else deleteBootDisk E oc project inst s
          }
          else do {
            (err, s) \<leftarrow> stopInstance E oc inst cur ''stopping instance before delete'' s;
            Some (Some err, s)
          })
   }"

definition InstanceReconciler_handleFinalizer ::
  "('c, 'w) env \<Rightarrow> instance_obj \<Rightarrow> (('c, 'w) sys, error option \<times> instance_obj) go" where
  "InstanceReconciler_handleFinalizer E inst s =
     (case AddFinalizer (e_lib E) (o_meta inst) finalizerName of
        (m, added) \<Rightarrow>
          let inst = inst\<lparr>o_meta := m\<rparr> in
          if added then do {
            (r, s) \<leftarrow> kube_update InstanceObj (e_instance E) inst s;
            (case r of
               Inl e \<Rightarrow> Some ((Some e, inst), s)
             | Inr inst \<Rightarrow> Some ((None, inst), s))
          }
          else Some ((None, inst), s))"

definition InstanceReconciler_deleteOxide ::
  "('c, 'w) env \<Rightarrow> instance_obj \<Rightarrow> (('c, 'w) sys, (ctrl_result \<times> error option) option) go" where
  "InstanceReconciler_deleteOxide E inst s = do {
     (oc, s) \<leftarrow> NewClientFromRef E (rs_ConnectionRef (ins_Resource (o_spec inst))) s;
     (case oc of
        Inl err \<Rightarrow> Some (Some (no_requeue, Some err), s)
      | Inr oc \<Rightarrow> do {
          (err, s) \<leftarrow> deleteInstance E oc (ProjectName (ins_ProjectRef (o_spec inst))) inst s;
          if err_is is_progressing err then Some (Some (\<lparr>RequeueAfter = progressPeriod\<rparr>, None), s)
          else if err \<noteq> None then Some (Some (no_requeue, map_option ShortError err), s)
          else Some (None, record_event (object_key_of inst) None ''Deleted'' ''Deleted Oxide instance'' s)
        })
   }"

definition InstanceReconciler_handleDelete ::
  "('c, 'w) env \<Rightarrow> instance_obj \<Rightarrow> (('c, 'w) sys, ctrl_result \<times> error option) go" where
  "InstanceReconciler_handleDelete E inst s =
     (if \<not> ContainsFinalizer (e_lib E) (o_meta inst) finalizerName then Some ((no_requeue, None), s)
      else do {
        (early, s) \<leftarrow>
          (if \<not> rs_DeletionProtection (ins_Resource (o_spec inst))
           then InstanceReconciler_deleteOxide E inst (unregister (object_key_of inst) s)
           else Some (None, unregister (object_key_of inst) s));
        (case early of
           Some res \<Rightarrow> Some (res, s)
         | None \<Rightarrow> do {
             let inst = inst\<lparr>o_meta := RemoveFinalizer (e_lib E) (o_meta inst) finalizerName\<rparr>;
             (r, s) \<leftarrow> kube_update InstanceObj (e_instance E) inst s;
             Some ((no_requeue, IgnoreNotFound (e_lib E) (err_of r)), s)
           })
      })"

definition InstanceReconciler_Reconcile ::
  "('c, 'w) env \<Rightarrow> object_key \<Rightarrow> (('c, 'w) sys, ctrl_result \<times> error option) go" where
  "InstanceReconciler_Reconcile E req s = do {
     (r, s) \<leftarrow> kube_get InstanceKind (e_instance E) req s;
     (case r of
        Inl err \<Rightarrow> Some ((no_requeue, IgnoreNotFound (e_lib E) (Some err)), s)
      | Inr inst \<Rightarrow>
          if reconcileDisabled (o_meta inst) then Some ((no_requeue, None), s)
          else if om_DeletionTimestamp (o_meta inst) \<noteq> None then do {
            ((res, err), s) \<leftarrow> InstanceReconciler_handleDelete E inst s;
            Some ((res, err), warn E (object_key_of inst) ''DeleteFailed'' err s)
          }
          else do {
            ((err, inst), s) \<leftarrow> InstanceReconciler_handleFinalizer E inst s;
            (case err of
               Some e \<Rightarrow> Some ((no_requeue, Some e), s)
             | None \<Rightarrow> do {
                 let base = inst;
                 ((err, inst), s) \<leftarrow> handleInstanceOperations E inst s;
                 (((res, err), cs), s) \<leftarrow>
                   setReady E (object_key_of inst) (rst_Conditions (inst_Resource (o_status inst))) err s;
                 let st = (o_status inst)\<lparr>inst_Resource := (inst_Resource (o_status inst))\<lparr>rst_Conditions := cs\<rparr>\<rparr>;
                 let st = (if IsStatusConditionTrue (e_lib E) (rst_Conditions (inst_Resource st)) typeReady
                           then st\<lparr>inst_Resource := (inst_Resource st)\<lparr>rst_ObservedGeneration := om_Generation (o_meta inst)\<rparr>\<rparr> else st);
                 (perr, s) \<leftarrow> kube_patch_status InstanceObj (e_instance E) base (inst\<lparr>o_status := st\<rparr>) s;
                 (case perr of
                    Inl pe \<Rightarrow>
                      if err = None then Some ((no_requeue, IgnoreNotFound (e_lib E) (Some pe)), s)
                      else Some ((res, err), s)
                  | Inr _ \<Rightarrow> Some ((res, err), s))
               })
          })
   }"

section \<open>The contract\<close>

lemma bootDisk_views: "adds_all (bootDisk E oc p inst s) s is_oxide_view"
  unfolding bootDisk_def
  by (auto intro!: adds_all_ret adds_all_panic adds_all_bind diskSource_views split: sum.split option.split)

lemma instanceCreate_views: "adds_all (instanceCreate E oc p inst s) s is_oxide_view"
  unfolding instanceCreate_def Let_def
  by (auto intro!: adds_all_ret adds_all_bind bootDisk_views split: sum.split)

lemma createInstance_adds: "adds_all (createInstance E oc inst s) s (\<lambda>e. \<not> is_kube_write e)"
  unfolding createInstance_def Let_def
  by (auto dest: no_write intro!: adds_all_intros adds_all_weaken [OF instanceCreate_views] split: sum.split)

lemma stopInstance_harmless: "adds_all (stopInstance E oc inst cur msg s) s harmless"
  unfolding stopInstance_def
  by (auto intro!: adds_all_intros split: sum.split)

lemma resizeInstance_adds: "adds_all (resizeInstance E oc inst cur s) s harmless"
  unfolding resizeInstance_def
  by (auto intro!: adds_all_intros stopInstance_harmless split: sum.split)

lemma powerInstance_adds: "adds_all (powerInstance E oc inst cur s) s harmless"
  unfolding powerInstance_def Let_def
  by (auto intro!: adds_all_intros stopInstance_harmless split: sum.split)

lemma convergeInstance_harmless: "adds_all (convergeInstance E oc inst cur s) s harmless"
  unfolding convergeInstance_def Let_def
  by (auto intro!: adds_all_ret adds_all_bind adds_all_oxide resizeInstance_adds powerInstance_adds
      split: sum.split option.split)

lemmas convergeInstance_adds = adds_all_weaken [OF convergeInstance_harmless]

lemma handleInstanceOperations_adds: "adds_all (handleInstanceOperations E inst s) s (\<lambda>e. \<not> is_kube_write e)"
  unfolding handleInstanceOperations_def Let_def
  by (intro adds_all_bind)
    (auto dest: no_write intro!: adds_all_ret adds_all_bind adds_all_oxide createInstance_adds convergeInstance_adds
      adds_all_weaken [OF NewClientFromRef_adds_all] split: sum.split)

lemma convergeInstance_frame:
  "wlp (convergeInstance E oc inst cur s)
     (\<lambda>(err, inst') s'. o_meta inst' = o_meta inst \<and> o_spec inst' = o_spec inst)"
  unfolding convergeInstance_def Let_def
  by (auto intro!: wlp_any split: sum.split option.split)

lemma handleInstanceOperations_frame:
  "wlp (handleInstanceOperations E inst s)
     (\<lambda>(err, inst') s'. o_meta inst' = o_meta inst \<and> o_spec inst' = o_spec inst)"
  unfolding handleInstanceOperations_def Let_def
  by (auto split: sum.split intro!: convergeInstance_frame wlp_any [where m = "NewClientFromRef E c t" for c t]
      wlp_any [where m = "oxide f oc q t" for f oc q t] wlp_any [where m = "createInstance E oc i t" for oc i t])

definition inst_gone :: "instance_obj \<Rightarrow> 'c effect \<Rightarrow> bool" where
  "inst_gone inst e \<longleftrightarrow>
     (\<exists>oc u. (\<exists>i. e = Oxide oc (InstanceDelete i) u \<and> ok_or_gone u)
       \<or> (e = Oxide oc (InstanceView (ProjectName (ins_ProjectRef (o_spec inst)))
             (OxideName (ins_OxideName (o_spec inst)) (o_meta inst))) u \<and> not_found_err u))"

definition boot_disk_gone :: "instance_obj \<Rightarrow> 'c effect \<Rightarrow> bool" where
  "boot_disk_gone inst e \<longleftrightarrow>
     (\<exists>oc u. e = Oxide oc (DiskDelete (ProjectName (ins_ProjectRef (o_spec inst))) (bootDiskName inst)) u \<and> ok_or_gone u)"

definition instance_cleaned :: "instance_obj \<Rightarrow> 'c effect list \<Rightarrow> bool" where
  "instance_cleaned inst tr \<longleftrightarrow>
     (\<exists>x \<in> set tr. inst_gone inst x) \<and> (owns_boot_disk inst \<longrightarrow> (\<exists>x \<in> set tr. boot_disk_gone inst x))"

lemma deleteBootDisk_adds:
  "adds (deleteBootDisk E oc (ProjectName (ins_ProjectRef (o_spec inst))) inst s) s (\<lambda>err tr.
     list_all harmless tr \<and> (err = None \<longrightarrow> owns_boot_disk inst \<longrightarrow> (\<exists>x \<in> set tr. boot_disk_gone inst x)))"
  unfolding deleteBootDisk_def oxide_do_def
  by (auto intro!: adds_ret adds_perform_bind simp: boot_disk_gone_def ok_or_gone_def split: if_splits)

lemma deleteInstance_adds:
  "adds (deleteInstance E oc (ProjectName (ins_ProjectRef (o_spec inst))) inst s) s (\<lambda>err tr.
     list_all harmless tr \<and> (err = None \<longrightarrow> instance_cleaned inst tr))"
  unfolding deleteInstance_def oxide_def oxide_do_def
  by (rule adds_perform_bind)
    (auto intro!: adds_ret adds_perform_bind adds_weaken [OF deleteBootDisk_adds]
        adds_bind [OF adds_allD [OF stopInstance_harmless]]
      simp: instance_cleaned_def inst_gone_def ok_or_gone_def split: sum.split)

lemma InstanceReconciler_deleteOxide_adds:
  "adds (InstanceReconciler_deleteOxide E inst s) s (\<lambda>early tr.
     list_all harmless tr \<and> (early = None \<longrightarrow> instance_cleaned inst tr))"
  unfolding InstanceReconciler_deleteOxide_def
  by (rule adds_bind [OF NewClientFromRef_adds])
    (auto simp: kube_gets_are_harmless list_all_events_harmless instance_cleaned_def split: sum.split
      intro!: adds_ret adds_ret_record adds_bind [OF deleteInstance_adds])

lemma InstanceReconciler_Reconcile_shape:
  "InstanceReconciler_Reconcile E req s =
     reconcile_with E InstanceKind InstanceObj (e_instance E) (\<lambda>st. rst_Conditions (inst_Resource st))
       (\<lambda>cs st. st\<lparr>inst_Resource := (inst_Resource st)\<lparr>rst_Conditions := cs\<rparr>\<rparr>)
       (\<lambda>g st. st\<lparr>inst_Resource := (inst_Resource st)\<lparr>rst_ObservedGeneration := g\<rparr>\<rparr>)
       (InstanceReconciler_handleDelete E) (handleInstanceOperations E) req s"
  unfolding InstanceReconciler_Reconcile_def InstanceReconciler_handleFinalizer_def reconcile_shape_defs
  by (rule refl)

lemma inst_handleDelete_adds:
  "adds (InstanceReconciler_handleDelete E inst s) s (\<lambda>r tr.
     list_all (\<lambda>e. \<not> is_oxide_create e) tr
     \<and> (\<not> rs_DeletionProtection (ins_Resource (o_spec inst)) \<longrightarrow>
          preceded (inst_gone inst) is_kube_update tr
          \<and> (owns_boot_disk inst \<longrightarrow> preceded (boot_disk_gone inst) is_kube_update tr))
     \<and> (rs_DeletionProtection (ins_Resource (o_spec inst)) \<longrightarrow> list_all (\<lambda>e. \<not> is_oxide_call e) tr))"
  (is "adds _ _ (\<lambda>r tr. ?P tr)")
proof (cases "ContainsFinalizer (e_lib E) (o_meta inst) finalizerName")
  case False
  then show ?thesis by (simp add: InstanceReconciler_handleDelete_def adds_ret)
next
  case fin: True
  show ?thesis
  proof (cases "rs_DeletionProtection (ins_Resource (o_spec inst))")
    case True
    with fin show ?thesis
      by (auto simp: InstanceReconciler_handleDelete_def adds_def kube_update_def perform_def Let_def)
  next
    case False
    have "adds (InstanceReconciler_handleDelete E inst s) (unregister (object_key_of inst) s) (\<lambda>r tr.
       list_all (\<lambda>e. \<not> is_oxide_create e) tr \<and> preceded (inst_gone inst) is_kube_update tr
       \<and> (owns_boot_disk inst \<longrightarrow> preceded (boot_disk_gone inst) is_kube_update tr))"
      using fin False
      unfolding InstanceReconciler_handleDelete_def kube_update_def Let_def
      by (auto simp: preceded_append preceded_no_A instance_cleaned_def harmlessD split: option.split
          intro!: adds_ret adds_bind [OF InstanceReconciler_deleteOxide_adds] adds_perform_bind)
    then have "adds (InstanceReconciler_handleDelete E inst s) (unregister (object_key_of inst) s) (\<lambda>r tr.
       ?P (Unregister (object_key_of inst) # tr))"
      by (rule adds_weaken) (auto simp: False boot_disk_gone_def)
    then show ?thesis by (rule adds_unregister)
  qed
qed

lemma inst_handleDelete_releases:
  "adds_all (InstanceReconciler_handleDelete E inst s) s (only_releases (e_lib E) InstanceObj inst)"
proof (cases "ContainsFinalizer (e_lib E) (o_meta inst) finalizerName")
  case False
  then show ?thesis by (simp add: InstanceReconciler_handleDelete_def adds_all_ret)
next
  case True
  have del: "adds_all (InstanceReconciler_deleteOxide E inst s) s (\<lambda>e. \<not> is_kube_write e)" for s
    by (rule adds_allI, rule adds_weaken [OF InstanceReconciler_deleteOxide_adds]) (simp add: harmlessD)
  have "adds_all (InstanceReconciler_handleDelete E inst s) (unregister (object_key_of inst) s)
      (only_releases (e_lib E) InstanceObj inst)"
    using True unfolding InstanceReconciler_handleDelete_def Let_def
    by (auto intro!: adds_all_ret adds_all_bind adds_all_kube_update adds_all_weaken [OF del] split: option.split)
  then show ?thesis
    unfolding adds_all_def by (rule adds_unregister [OF adds_weaken]) simp_all
qed

interpretation inst_del: deleter E "InstanceReconciler_handleDelete E"
    "\<lambda>x. rs_DeletionProtection (ins_Resource (o_spec x))" inst_gone
  for E :: "('c, 'w) env"
proof unfold_locales
  fix obj :: instance_obj and s :: "('c, 'w) sys"
  assume "\<not> ContainsFinalizer (e_lib E) (o_meta obj) finalizerName"
  then show "InstanceReconciler_handleDelete E obj s = Some ((no_requeue, None), s)"
    by (simp add: InstanceReconciler_handleDelete_def)
qed (auto intro: adds_weaken [OF inst_handleDelete_adds])

interpretation inst_ctl: managed E InstanceObj "e_instance E" "\<lambda>st. rst_Conditions (inst_Resource st)"
    "\<lambda>cs st. st\<lparr>inst_Resource := (inst_Resource st)\<lparr>rst_Conditions := cs\<rparr>\<rparr>"
    "\<lambda>g st. st\<lparr>inst_Resource := (inst_Resource st)\<lparr>rst_ObservedGeneration := g\<rparr>\<rparr>"
    "handleInstanceOperations E" InstanceKind
    "InstanceReconciler_handleDelete E" "InstanceReconciler_Reconcile E"
    "\<lambda>x. rs_DeletionProtection (ins_Resource (o_spec x))" inst_gone
  for E :: "('c, 'w) env"
  by unfold_locales
    (simp_all add: InstanceReconciler_Reconcile_shape handleInstanceOperations_frame
      adds_all_trivial [OF handleInstanceOperations_adds]
      handleInstanceOperations_adds inst_handleDelete_releases)

section \<open>No panics\<close>

text \<open>The boot disk of an instance, if it has one, is one the CRD admits.\<close>

definition instance_admitted :: "instance_obj \<Rightarrow> bool" where
  "instance_admitted inst \<longleftrightarrow>
     (case ins_BootDisk (o_spec inst) of None \<Rightarrow> True | Some bd \<Rightarrow> boot_disk_admitted bd)"

lemma bootDisk_runs: "instance_admitted inst \<Longrightarrow> runs (bootDisk E oc p inst s)"
  unfolding bootDisk_def
  by (auto simp: instance_admitted_def boot_disk_admitted_def intro!: runs_rules split: sum.split option.split option.splits)

lemma createInstance_runs: "instance_admitted inst \<Longrightarrow> runs (createInstance E oc inst s)"
  unfolding createInstance_def instanceCreate_def Let_def
  by (auto intro!: runs_rules bootDisk_runs split: sum.split)

lemma stopInstance_runs [runs_rules]: "runs (stopInstance E oc inst cur msg s)"
  unfolding stopInstance_def by (auto intro!: runs_rules split: sum.split)

lemma convergeInstance_runs [runs_rules]: "runs (convergeInstance E oc inst cur s)"
  unfolding convergeInstance_def resizeInstance_def powerInstance_def Let_def
  by (auto intro!: runs_rules split: sum.split option.split)

lemma handleInstanceOperations_runs: "instance_admitted inst \<Longrightarrow> runs (handleInstanceOperations E inst s)"
  unfolding handleInstanceOperations_def Let_def
  by (auto intro!: runs_rules createInstance_runs split: sum.split)

lemma deleteInstance_runs [runs_rules]: "runs (deleteInstance E oc p inst s)"
  unfolding deleteInstance_def deleteBootDisk_def
  by (auto intro!: runs_rules split: sum.split)

lemma InstanceReconciler_handleDelete_runs [runs_rules]: "runs (InstanceReconciler_handleDelete E inst s)"
  unfolding InstanceReconciler_handleDelete_def InstanceReconciler_deleteOxide_def Let_def
  by (auto intro!: runs_rules split: sum.split option.split)

lemma InstanceReconciler_Reconcile_deleting_runs:
  "fst (k_get (e_instance E) req (world s)) = Inr inst \<Longrightarrow> om_DeletionTimestamp (o_meta inst) \<noteq> None \<Longrightarrow>
   runs (InstanceReconciler_Reconcile E req s)"
  by (rule inst_ctl.reconcile_deleting_runs) (auto intro: runs_rules)

text \<open>The API server hands out admitted instances.\<close>

definition serves_instances :: "(instance_obj, 'w) kube_ops \<Rightarrow> object_key \<Rightarrow> 'w \<Rightarrow> bool" where
  "serves_instances ops req w \<longleftrightarrow>
     (\<forall>inst. fst (k_get ops req w) = Inr inst \<longrightarrow> instance_admitted inst)
     \<and> (\<forall>inst w' inst'. instance_admitted inst \<longrightarrow> fst (k_update ops inst w') = Inr inst' \<longrightarrow> instance_admitted inst')"

lemma InstanceReconciler_Reconcile_runs:
  "serves_instances (e_instance E) req (world s) \<Longrightarrow> runs (InstanceReconciler_Reconcile E req s)"
  by (rule inst_ctl.reconcile_runs [where good = instance_admitted])
    (auto simp: serves_instances_def handleInstanceOperations_runs runs_rules, simp add: instance_admitted_def)

text \<open>The finalizer of an instance, for the property over all controllers.\<close>

lemma instance_finalizer_first:
  assumes "serves_instances (e_instance E) req (world s)"
    and "fst (k_get (e_instance E) req (world s)) = Inr inst"
    and "om_DeletionTimestamp (o_meta inst) = None"
    and "snd (AddFinalizer (e_lib E) (o_meta inst) finalizerName)"
  shows "ensures (InstanceReconciler_Reconcile E req s) s (\<lambda>r tr.
     preceded (finalizer_saved (e_lib E) InstanceObj inst) is_oxide_call tr)"
  by (rule ensuresI [OF InstanceReconciler_Reconcile_runs [OF assms(1)] inst_ctl.reconcile_finalizer_first [OF assms(2-4)]])

section \<open>Properties\<close>

text \<open>Instances to apply the theorems to.\<close>

definition new_instance :: instance_obj where
  "new_instance =
     \<lparr>o_meta = meta0,
      o_spec = \<lparr>ins_Resource = resource0, ins_ProjectRef = project_ref0, ins_OxideName = \<lparr>ons_Name = ''''\<rparr>,
        ins_Description = '''', ins_Hostname = '''', ins_NCPUs = 2, ins_Memory = \<lparr>q_Value = 2 ^ 32, q_String = ''4Gi''\<rparr>,
        ins_RunState = ''Running'', ins_BootDisk = Some \<lparr>bd_Size = Some \<lparr>q_Value = 2 ^ 30, q_String = ''1Gi''\<rparr>,
          bd_Image = '''', bd_Disk = ''''\<rparr>,
        ins_Disks = [], ins_NetworkInterfaces = [], ins_ExternalIPs = [], ins_SSHPublicKeys = [], ins_UserData = ''''\<rparr>,
      o_status = \<lparr>inst_Resource = status0, inst_State = '''', inst_ExternalIPs = [], inst_LastObserved = None\<rparr>\<rparr>"

definition running :: ox_instance where
  "running = \<lparr>oin_Id = ''i1'', oin_RunState = InstanceStateRunning, oin_Ncpus = 1, oin_Memory = 2 ^ 32,
     oin_EnableJumboFrames = True, oin_BootDiskId = ''b1'', oin_AutoRestartPolicy = '''', oin_CpuPlatform = ''''\<rparr>"

text \<open>What the deletion of an Instance waits for.\<close>

lemma instance_deletion:
  assumes "fst (k_get (e_instance E) req (world s)) = Inr inst"
    and "om_DeletionTimestamp (o_meta inst) \<noteq> None"
  shows "ensures (InstanceReconciler_Reconcile E req s) s (\<lambda>r tr.
     list_all (\<lambda>e. \<not> is_oxide_create e) tr
     \<and> (if rs_DeletionProtection (ins_Resource (o_spec inst)) then list_all (\<lambda>e. \<not> is_oxide_call e) tr
        else preceded (inst_gone inst) is_kube_update tr
          \<and> (owns_boot_disk inst \<longrightarrow> preceded (boot_disk_gone inst) is_kube_update tr)))"
  (is "ensures _ _ (\<lambda>r tr. ?P tr)")
proof (rule ensuresI [OF InstanceReconciler_Reconcile_deleting_runs [OF assms]], rule inst_ctl.adds_deleting [OF assms])
  show "adds (InstanceReconciler_handleDelete E inst s) s (\<lambda>r tr. ?P tr)" for s
    by (rule adds_weaken [OF inst_handleDelete_adds]) auto
next
  show "?P (Kube (KGet InstanceKind req) u # tr @ ev)" if "?P tr" "list_all is_event ev" for u tr ev
    using that by (auto simp: events_harmless inst_gone_def boot_disk_gone_def split: if_splits
        intro!: preceded_append_no_A)
qed simp

lemma stopInstance_trace:
  "adds (stopInstance E oc inst cur msg s) s (\<lambda>err tr.
     if oin_RunState cur = InstanceStateRunning
     then \<exists>u. filter is_oxide_write tr = [Oxide oc (InstanceStop (oin_Id cur)) u]
     else err = Progressing msg \<and> tr = [])"
  by (auto simp: stopInstance_def oxide_def perform_def adds_def record_event_def Let_def split: sum.split)

lemma deleteBootDisk_any: "adds (deleteBootDisk E oc p inst s) s (\<lambda>_ _. True)"
  by (auto simp: deleteBootDisk_def oxide_do_def intro!: adds_ret adds_perform_bind)

text \<open>C24: an instance is deleted only when it is down. Of an instance that Oxide reports as
  running, \<^verbatim>\<open>deleteInstance\<close> asks for nothing but a stop and reports an error or progress; it deletes
  it, first of all writes, only if Oxide reports it as stopped or failed; and in every other state it
  writes nothing and reports progress.\<close>

theorem instance_deleted_when_down:
  assumes view: "fst (ox_instance (e_oxide E) oc
      (InstanceView p (OxideName (ins_OxideName (o_spec inst)) (o_meta inst))) (world s)) = Inr cur"
  shows "ensures (deleteInstance E oc p inst s) s (\<lambda>err tr.
     if oin_RunState cur = InstanceStateRunning
     then err \<noteq> None \<and> (\<exists>u. filter is_oxide_write tr = [Oxide oc (InstanceStop (oin_Id cur)) u])
     else if oin_RunState cur = InstanceStateStopped \<or> oin_RunState cur = InstanceStateFailed
     then \<exists>u ws. filter is_oxide_write tr = Oxide oc (InstanceDelete (oin_Id cur)) u # ws
     else err = Some (Progressing ''stopping instance before delete'') \<and> filter is_oxide_write tr = [])"
  (is "ensures _ _ ?P")
proof (rule ensuresI [OF deleteInstance_runs])
  let ?q = "InstanceView p (OxideName (ins_OxideName (o_spec inst)) (o_meta inst))"
  let ?s = "logged s (snd (ox_instance (e_oxide E) oc ?q (world s))) (Oxide oc ?q None)"
  let ?rest = "if oin_RunState cur = InstanceStateStopped \<or> oin_RunState cur = InstanceStateFailed then do {
            (err, s) \<leftarrow> oxide_do E oc (InstanceDelete (oin_Id cur)) ?s;
            if err \<noteq> None \<and> \<not> not_found_err err then Some (err, s)
            else deleteBootDisk E oc p inst s
          }
          else do {
            (err, s) \<leftarrow> stopInstance E oc inst cur ''stopping instance before delete'' ?s;
            Some (Some err, s)
          }"
  have eq: "deleteInstance E oc p inst s = ?rest"
    using view by (simp add: deleteInstance_def oxide_def perform_def Let_def)
  have "adds ?rest ?s ?P"
    by (auto simp: oxide_do_def simp del: not_None_eq intro!: adds_perform_bind adds_ret
        adds_weaken [OF deleteBootDisk_any] adds_bind [OF stopInstance_trace])
  then show "adds (deleteInstance E oc p inst s) s ?P"
    unfolding eq adds_def by (auto elim!: wlp_mono split: if_splits)
qed

theorem instance_deleted_when_down_witness:
  "ensures (deleteInstance (env0\<lparr>e_oxide := oxide0\<lparr>ox_instance := (\<lambda>_ _ w. (Inr running, w))\<rparr>\<rparr>) 7 ''proj'' new_instance sys0) sys0
     (\<lambda>err tr. \<exists>u. filter is_oxide_write tr = [Oxide 7 (InstanceStop ''i1'') u])"
  (is "ensures (deleteInstance ?E 7 _ _ _) _ _")
  by (rule ensures_weaken [OF instance_deleted_when_down [of ?E 7 "''proj''" new_instance sys0 running]])
    (simp_all add: running_def)
text \<open>C35: the name of a boot disk. For an instance with a valid Oxide name the boot disk that
  the operator makes and deletes has a valid Oxide name exactly if the instance's has at most 58
  characters, although 63 are admitted.\<close>

theorem bootDiskName_valid_iff:
  assumes "oxide_name (OxideName (ins_OxideName (o_spec inst)) (o_meta inst))"
  shows "oxide_name (bootDiskName inst) \<longleftrightarrow> length (OxideName (ins_OxideName (o_spec inst)) (o_meta inst)) \<le> 58"
proof -
  let ?n = "OxideName (ins_OxideName (o_spec inst)) (o_meta inst)"
  obtain c cs where n: "?n = c # cs" "lower_char c" "list_all name_char cs"
    using assms by (auto simp: oxide_name_def name_pattern_def split: list.splits)
  have "list_all name_char ''-boot''" "alnum_char (CHR ''t'')"
    by (simp_all add: name_char_def alnum_char_def lower_char_def)
  then show ?thesis
    using n by (auto simp: bootDiskName_def oxide_name_def name_pattern_def)
qed

theorem bootDiskName_valid_iff_witness: "oxide_name (bootDiskName new_instance)"
  using bootDiskName_valid_iff [of new_instance]
  by (simp add: new_instance_def meta0_def OxideName_def oxide_name_def name_pattern_def lower_char_def
      name_char_def alnum_char_def)

section \<open>One step at a time\<close>

text \<open>The request a pass should make of an instance in a given state, if any: to change its size it has
  to be down; the update replaces every field, so what the spec does not set has to be repeated.\<close>

definition set_or_null :: "string \<Rightarrow> string option \<Rightarrow> bool" where
  "set_or_null x f \<longleftrightarrow> f = (if x = '''' then None else Some x)"

definition keeps_the_rest :: "ox_instance \<Rightarrow> instance_update \<Rightarrow> bool" where
  "keeps_the_rest cur u \<longleftrightarrow>
     iu_EnableJumboFrames u = oin_EnableJumboFrames cur \<and> set_or_null (oin_BootDiskId cur) (iu_BootDisk u)
     \<and> set_or_null (oin_AutoRestartPolicy cur) (iu_AutoRestartPolicy u)
     \<and> set_or_null (oin_CpuPlatform cur) (iu_CpuPlatform u)"

fun right_request :: "instance_obj \<Rightarrow> ox_instance \<Rightarrow> request list \<Rightarrow> bool" where
  "right_request inst cur [] \<longleftrightarrow>
     (if size_differs cur inst then oin_RunState cur \<notin> {InstanceStateStopped, InstanceStateRunning}
      else oin_RunState cur \<noteq> (if wantRunning inst then InstanceStateStopped else InstanceStateRunning))"
| "right_request inst cur [InstanceStart i] \<longleftrightarrow>
     i = oin_Id cur \<and> \<not> size_differs cur inst \<and> wantRunning inst \<and> oin_RunState cur = InstanceStateStopped"
| "right_request inst cur [InstanceStop i] \<longleftrightarrow>
     i = oin_Id cur \<and> oin_RunState cur = InstanceStateRunning \<and> (size_differs cur inst \<or> \<not> wantRunning inst)"
| "right_request inst cur [InstanceUpdate i u] \<longleftrightarrow>
     i = oin_Id cur \<and> size_differs cur inst \<and> oin_RunState cur = InstanceStateStopped
     \<and> iu_Ncpus u = ins_NCPUs (o_spec inst) \<and> iu_Memory u = q_Value (ins_Memory (o_spec inst))
     \<and> keeps_the_rest cur u"
| "right_request inst cur _ \<longleftrightarrow> False"

text \<open>The instance is as the spec says.\<close>

definition instance_in_sync :: "instance_obj \<Rightarrow> ox_instance \<Rightarrow> bool" where
  "instance_in_sync inst cur \<longleftrightarrow>
     \<not> size_differs cur inst
     \<and> oin_RunState cur = (if wantRunning inst then InstanceStateRunning else InstanceStateStopped)"

text \<open>The writes of a trace are the right request.\<close>

definition sends_right_request :: "'c \<Rightarrow> instance_obj \<Rightarrow> ox_instance \<Rightarrow> 'c effect list \<Rightarrow> bool" where
  "sends_right_request oc inst cur tr \<longleftrightarrow>
     (\<exists>qs u. filter is_oxide_write tr = map (\<lambda>q. Oxide oc q u) qs \<and> right_request inst cur qs)"

lemma sends_nothing:
  "filter is_oxide_write tr = [] \<Longrightarrow> right_request inst cur [] \<Longrightarrow> sends_right_request oc inst cur tr"
  unfolding sends_right_request_def by (rule exI [of _ "[]"]) simp

lemma sends_one:
  "filter is_oxide_write tr = [Oxide oc q u] \<Longrightarrow> right_request inst cur [q] \<Longrightarrow> sends_right_request oc inst cur tr"
  unfolding sends_right_request_def by (rule exI [of _ "[q]"], rule exI [of _ u]) simp

lemma sends_then_events:
  assumes "\<not> is_view q" and "list_all is_event tr" and "right_request inst cur [q]"
  shows "sends_right_request oc inst cur (Oxide oc q u # tr)"
  using events_harmless(4) [OF assms(2)] assms(1)
  by (intro sends_one [OF _ assms(3)]) (auto simp: filter_empty_conv list_all_iff)

text \<open>What a pass asks for depends on the spec only.\<close>

lemma right_request_spec:
  assumes "o_spec i = o_spec j"
  shows "right_request i cur qs = right_request j cur qs" "sends_right_request oc i cur tr = sends_right_request oc j cur tr"
    "size_differs cur i = size_differs cur j" "instance_in_sync i cur = instance_in_sync j cur"
proof -
  show same: "right_request i cur qs = right_request j cur qs" for qs
    by (rule right_request.cases [of "(i, cur, qs)"]) (simp_all add: assms size_differs_def wantRunning_def)
  show "sends_right_request oc i cur tr = sends_right_request oc j cur tr"
    by (simp add: sends_right_request_def same)
qed (simp_all add: assms size_differs_def wantRunning_def instance_in_sync_def)

lemma instanceUpdate_right:
  "size_differs cur inst \<Longrightarrow> oin_RunState cur = InstanceStateStopped \<Longrightarrow>
   right_request inst cur [InstanceUpdate (oin_Id cur) (instanceUpdate cur inst)]"
  by (simp add: keeps_the_rest_def instanceUpdate_def non_empty_def set_or_null_def)

lemma stopInstance_sends:
  assumes "oin_RunState cur = InstanceStateRunning \<Longrightarrow> size_differs cur inst \<or> \<not> wantRunning inst"
    and "oin_RunState cur \<noteq> InstanceStateRunning \<Longrightarrow> right_request inst cur []"
  shows "adds (stopInstance E oc inst cur msg s) s (\<lambda>err tr. sends_right_request oc inst cur tr)"
  by (rule adds_weaken [OF stopInstance_trace])
    (use assms in \<open>auto split: if_splits intro: sends_nothing sends_one\<close>)

lemma resizeInstance_sends:
  assumes "size_differs cur inst"
  shows "adds (resizeInstance E oc inst cur s) s (\<lambda>err tr. sends_right_request oc inst cur tr)"
  unfolding resizeInstance_def oxide_def
  using assms
  by (auto intro!: stopInstance_sends adds_perform_bind adds_ret adds_ret_record sends_then_events
      instanceUpdate_right simp del: right_request.simps(4) split: sum.split)

lemma powerInstance_sends:
  assumes "\<not> size_differs cur inst"
  shows "adds (powerInstance E oc inst cur s) s (\<lambda>err tr.
     sends_right_request oc inst cur tr \<and> (err = None \<longrightarrow> instance_in_sync inst cur))"
proof -
  have stop: "adds (do { (err, s) \<leftarrow> stopInstance E oc inst cur msg s; Some (Some err, s) }) s
      (\<lambda>err tr. sends_right_request oc inst cur tr \<and> err \<noteq> None)"
    if "oin_RunState cur = InstanceStateRunning" "\<not> wantRunning inst" for msg
    by (rule adds_bind [OF stopInstance_sends]) (use that in \<open>auto intro: adds_ret\<close>)
  show ?thesis
    unfolding powerInstance_def Let_def oxide_def
    using assms
    by (auto intro!: stop adds_perform_bind adds_ret adds_ret_record sends_then_events intro: sends_nothing
        simp: instance_in_sync_def simp del: not_None_eq split: sum.split)
qed

text \<open>C15: a pass makes the one right request. Once the instance has been viewed or created,
  the operations write nothing but the single request that its state and the spec call for: a stop
  of a running instance that is to be resized or to be down, an update of a stopped one of the wrong
  size (with the spec's CPUs and memory and everything else as it is), a start of a stopped one of
  the right size that is to run; and they succeed only on an instance that is as the spec says.\<close>

theorem instance_right_request:
  "ensures (convergeInstance E oc inst cur s) s (\<lambda>(err, inst') tr.
     sends_right_request oc inst cur tr \<and> (err = None \<longrightarrow> instance_in_sync inst cur))"
proof (rule ensuresI [OF convergeInstance_runs])
  define i where "i = inst\<lparr>o_status := (o_status inst)\<lparr>
    inst_Resource := (inst_Resource (o_status inst))\<lparr>rst_ID := oin_Id cur, rst_Project := ProjectName (ins_ProjectRef (o_spec inst))\<rparr>,
    inst_State := InstanceStateText (e_lib E) (oin_RunState cur)\<rparr>\<rparr>"
  have spec: "o_spec inst = o_spec i" by (simp add: i_def)
  have tail: "sends_right_request oc i cur (tr @ [Oxide oc (InstanceExternalIpList (oin_Id cur)) u])"
    if "sends_right_request oc i cur tr" for tr u
    using that by (simp add: sends_right_request_def)
  have "adds (if size_differs cur i then do { (err, s) \<leftarrow> resizeInstance E oc i cur s; Some ((Some err, i), s) }
      else do {
        (err, s) \<leftarrow> powerInstance E oc i cur s;
        (case err of
           Some err \<Rightarrow> Some ((Some err, i), s)
         | None \<Rightarrow> do {
             (ips, s) \<leftarrow> oxide (ox_ips (e_oxide E)) oc (InstanceExternalIpList (oin_Id cur)) s;
             (case ips of
                Inl err \<Rightarrow> Some ((Some err, i), s)
              | Inr ips \<Rightarrow> Some ((None, i\<lparr>o_status := (o_status i)\<lparr>
                  inst_ExternalIPs := externalIPs ips, inst_LastObserved := Some (e_now E (world s))\<rparr>\<rparr>), s))
           })
      }) s (\<lambda>(err, inst') tr. sends_right_request oc i cur tr \<and> (err = None \<longrightarrow> instance_in_sync i cur))"
    unfolding oxide_def
    by (auto intro!: adds_bind [OF resizeInstance_sends] adds_bind [OF powerInstance_sends] adds_perform_bind adds_ret tail
        simp del: not_None_eq split: sum.split option.split)
  then show "adds (convergeInstance E oc inst cur s) s (\<lambda>(err, inst') tr.
     sends_right_request oc inst cur tr \<and> (err = None \<longrightarrow> instance_in_sync inst cur))"
    unfolding right_request_spec(2,4) [OF spec] convergeInstance_def Let_def i_def [symmetric] .
qed

theorem instance_right_request_witness:
  "ensures (convergeInstance env0 7 new_instance running sys0) sys0 (\<lambda>(err, inst') tr.
     sends_right_request 7 new_instance running tr)"
  by (rule ensures_weaken [OF instance_right_request]) auto

end
