(* ===== verification/InstanceSet_Controller.thy ===== *)
theory InstanceSet_Controller
  imports Controller_Contract Reference_Env
begin

text \<open>
  \<^verbatim>\<open>internal/controller/oxide/instanceset_controller.go\<close>: the InstanceSet controller. It makes or
  patches the Instances \<open><set>-0\<close> to \<open><set>-(n-1)\<close> from the template, and deletes the others that
  carry its label.
\<close>

section \<open>The Instances of a set\<close>

definition instanceSetLabel :: string where
  "instanceSetLabel = ''oxide.100vms.com/instanceset''"

definition indexed_name :: "string \<Rightarrow> int \<Rightarrow> string" where
  "indexed_name base i = base @ ''-'' @ itoa i"

text \<open>The zero values of the Go structs, and the Instance \<^verbatim>\<open>sync\<close> starts from.\<close>

definition zero_instance_spec :: instance_spec where
  "zero_instance_spec =
     \<lparr>ins_Resource = \<lparr>rs_ConnectionRef = '''', rs_DeletionProtection = False\<rparr>,
      ins_ProjectRef = \<lparr>prs_Project = '''', prs_ProjectRef = None\<rparr>,
      ins_OxideName = \<lparr>ons_Name = ''''\<rparr>,
      ins_Description = '''', ins_Hostname = '''', ins_NCPUs = 0,
      ins_Memory = \<lparr>q_Value = 0, q_String = ''0''\<rparr>,
      ins_RunState = '''', ins_BootDisk = None, ins_Disks = [], ins_NetworkInterfaces = [],
      ins_ExternalIPs = [], ins_SSHPublicKeys = [], ins_UserData = ''''\<rparr>"

definition zero_instance_status :: instance_status where
  "zero_instance_status =
     \<lparr>inst_Resource = \<lparr>rst_ID = '''', rst_Project = '''', rst_Conditions = [], rst_ObservedGeneration = 0\<rparr>,
      inst_State = '''', inst_ExternalIPs = [], inst_LastObserved = None\<rparr>"

definition child_seed :: "instanceset \<Rightarrow> int \<Rightarrow> instance_obj" where
  "child_seed iset i =
     \<lparr>o_meta = \<lparr>om_Name = indexed_name (om_Name (o_meta iset)) i, om_Namespace = om_Namespace (o_meta iset),
        om_UID = '''', om_Generation = 0, om_ResourceVersion = '''', om_Annotations = (\<lambda>_. None),
        om_Labels = (\<lambda>_. None), om_Finalizers = [], om_OwnerReferences = [], om_DeletionTimestamp = None\<rparr>,
      o_spec = zero_instance_spec, o_status = zero_instance_status\<rparr>"

text \<open>The mutation that \<^verbatim>\<open>CreateOrPatch\<close> is given: labels, spec and owner.\<close>

definition mutateInstance ::
  "('c, 'w) env \<Rightarrow> instanceset \<Rightarrow> int \<Rightarrow> instance_obj \<Rightarrow> error + instance_obj" where
  "mutateInstance E iset i inst =
     (let template = iss_Template (o_spec iset);
          labels = (om_Labels (o_meta inst) ++ it_Labels template)(instanceSetLabel \<mapsto> om_Name (o_meta iset));
          spec = it_Spec template;
          name = ons_Name (ins_OxideName spec);
          spec = (if name \<noteq> '''' then spec\<lparr>ins_OxideName := \<lparr>ons_Name = indexed_name name i\<rparr>\<rparr> else spec)
      in case SetControllerReference (e_lib E) iset ((o_meta inst)\<lparr>om_Labels := labels\<rparr>) of
           Inl err \<Rightarrow> Inl err
         | Inr m \<Rightarrow> Inr (inst\<lparr>o_meta := m, o_spec := spec\<rparr>))"

definition create_or_patch ::
  "('c, 'w) env \<Rightarrow> instanceset \<Rightarrow> int \<Rightarrow> (('c, 'w) sys, error + instance_obj) go" where
  "create_or_patch E iset i =
     perform (Kube (KCreateOrPatch (object_key_of (child_seed iset i)))) err_of
       (e_instance_create_or_patch E (child_seed iset i) (mutateInstance E iset i))"

fun syncInstances ::
  "('c, 'w) env \<Rightarrow> instanceset \<Rightarrow> int list \<Rightarrow> int \<Rightarrow> (('c, 'w) sys, error + int) go" where
  "syncInstances E iset [] ready s = Some (Inr ready, s)"
| "syncInstances E iset (i # is) ready s = do {
     (r, s) \<leftarrow> create_or_patch E iset i s;
     (case r of
        Inl err \<Rightarrow> Some (Inl err, s)
      | Inr inst \<Rightarrow>
          syncInstances E iset is
            (if IsStatusConditionTrue (e_lib E) (rst_Conditions (inst_Resource (o_status inst))) typeReady
             then ready + 1 else ready) s)
   }"

text \<open>Whether a child is one of the set's by its name.\<close>

definition keepChild :: "instanceset \<Rightarrow> instance_obj \<Rightarrow> bool" where
  "keepChild iset child =
     (case Atoi (TrimPrefix (om_Name (o_meta child)) (om_Name (o_meta iset) @ ''-'')) of
        None \<Rightarrow> False
      | Some idx \<Rightarrow> idx < iss_Replicas (o_spec iset))"

fun deleteChildren ::
  "('c, 'w) env \<Rightarrow> instanceset \<Rightarrow> instance_obj list \<Rightarrow> (('c, 'w) sys, error option) go" where
  "deleteChildren E iset [] s = Some (None, s)"
| "deleteChildren E iset (child # children) s =
     (if keepChild iset child then deleteChildren E iset children s
      else do {
        (err, s) \<leftarrow> perform (Kube (KDelete (InstanceObj child))) id (e_instance_delete E child) s;
        if IgnoreNotFound (e_lib E) err \<noteq> None then Some (err, s)
        else deleteChildren E iset children s
      })"

definition list_children ::
  "('c, 'w) env \<Rightarrow> instanceset \<Rightarrow> (('c, 'w) sys, error + instance_obj list) go" where
  "list_children E iset =
     perform (Kube (KListByLabel InstanceKind (om_Namespace (o_meta iset)) instanceSetLabel (om_Name (o_meta iset)))) err_of
       (e_instance_list_by_label E (om_Namespace (o_meta iset)) instanceSetLabel (om_Name (o_meta iset)))"

definition sync ::
  "('c, 'w) env \<Rightarrow> instanceset \<Rightarrow> (('c, 'w) sys, error option \<times> instanceset) go" where
  "sync E iset s = do {
     let replicas = iss_Replicas (o_spec iset);
     (r, s) \<leftarrow> syncInstances E iset [0..replicas - 1] 0 s;
     (case r of
        Inl err \<Rightarrow> Some ((Some err, iset), s)
      | Inr ready \<Rightarrow> do {
          (children, s) \<leftarrow> list_children E iset s;
          (case children of
             Inl err \<Rightarrow> Some ((Some err, iset), s)
           | Inr children \<Rightarrow> do {
               (err, s) \<leftarrow> deleteChildren E iset children s;
               (case err of
                  Some err \<Rightarrow> Some ((Some err, iset), s)
                | None \<Rightarrow>
                    let iset = iset\<lparr>o_status := (o_status iset)\<lparr>isst_Replicas := replicas, isst_ReadyReplicas := ready\<rparr>\<rparr>
                    in if ready < replicas
                       then Some ((Some (Progressing (itoa ready @ ''/'' @ itoa replicas @ '' instances ready'')), iset), s)
                       else Some ((None, iset), s))
             })
        })
   }"

definition InstanceSetReconciler_Reconcile ::
  "('c, 'w) env \<Rightarrow> object_key \<Rightarrow> (('c, 'w) sys, ctrl_result \<times> error option) go" where
  "InstanceSetReconciler_Reconcile E req s = do {
     (r, s) \<leftarrow> kube_get InstanceSetKind (e_set E) req s;
     (case r of
        Inl err \<Rightarrow> Some ((no_requeue, IgnoreNotFound (e_lib E) (Some err)), s)
      | Inr iset \<Rightarrow>
          if reconcileDisabled (o_meta iset) \<or> om_DeletionTimestamp (o_meta iset) \<noteq> None
          then Some ((no_requeue, None), s)
          else do {
            let base = iset;
            ((err, iset), s) \<leftarrow> sync E iset s;
            (((res, err), cs), s) \<leftarrow> setReady E (object_key_of iset) (isst_Conditions (o_status iset)) err s;
            let st = (o_status iset)\<lparr>isst_Conditions := cs\<rparr>;
            let st = (if IsStatusConditionTrue (e_lib E) (isst_Conditions st) typeReady
                      then st\<lparr>isst_ObservedGeneration := om_Generation (o_meta iset)\<rparr> else st);
            (perr, s) \<leftarrow> kube_patch_status SetObj (e_set E) base (iset\<lparr>o_status := st\<rparr>) s;
            (case perr of
               Inl pe \<Rightarrow>
                 if err = None then Some ((no_requeue, IgnoreNotFound (e_lib E) (Some pe)), s)
                 else Some ((res, err), s)
             | Inr _ \<Rightarrow> Some ((res, err), s))
          })
   }"

section \<open>Facts\<close>

definition child_patch :: "instanceset \<Rightarrow> int \<Rightarrow> error option \<Rightarrow> 'c effect" where
  "child_patch iset i u = Kube (KCreateOrPatch (object_key_of (child_seed iset i))) u"

lemma syncInstances_adds:
  "adds (syncInstances E iset is ready s) s (\<lambda>r tr.
     list_all (\<lambda>e. \<exists>i \<in> set is. \<exists>u. e = child_patch iset i u) tr
     \<and> (\<forall>n. r = Inr n \<longrightarrow> tr = map (\<lambda>i. child_patch iset i None) is
          \<and> ready \<le> n \<and> n \<le> ready + int (length is)))"
proof (induction "is" arbitrary: ready s)
  case Nil
  then show ?case by (simp add: adds_ret)
next
  case (Cons i "is")
  show ?case
    unfolding syncInstances.simps create_or_patch_def
    by (rule adds_perform_bind)
      (auto simp: child_patch_def list_all_iff split: sum.split
        intro!: adds_ret adds_weaken [OF Cons.IH [unfolded child_patch_def list_all_iff]])
qed

lemma deleteChildren_adds:
  "adds (deleteChildren E iset children s) s (\<lambda>err tr.
     list_all (\<lambda>e. \<exists>child \<in> set children. \<exists>u. \<not> keepChild iset child \<and> e = Kube (KDelete (InstanceObj child)) u) tr
     \<and> (lib_ok (e_lib E) \<longrightarrow> err = None \<longrightarrow> (\<forall>child \<in> set children. \<not> keepChild iset child \<longrightarrow>
          (\<exists>u. Kube (KDelete (InstanceObj child)) u \<in> set tr \<and> IgnoreNotFound (e_lib E) u = None))))"
proof (induction children arbitrary: s)
  case Nil
  then show ?case by (simp add: adds_ret)
next
  case (Cons child children)
  have nil: "lib_ok (e_lib E) \<Longrightarrow> IgnoreNotFound (e_lib E) None = None"
    using lib_okD(5) [of "e_lib E" None] by auto
  show ?case
  proof (cases "keepChild iset child")
    case True
    then show ?thesis by (auto simp: list_all_iff intro!: adds_weaken [OF Cons.IH])
  next
    case False
    then have step: "deleteChildren E iset (child # children) s = do {
        (err, s) \<leftarrow> perform (Kube (KDelete (InstanceObj child))) id (e_instance_delete E child) s;
        if IgnoreNotFound (e_lib E) err \<noteq> None then Some (err, s)
        else deleteChildren E iset children s }"
      by simp
    show ?thesis
      unfolding step
      by (rule adds_perform_bind)
        (insert False nil, auto simp: list_all_iff intro!: adds_ret adds_weaken [OF Cons.IH])
  qed
qed

lemma list_children_adds:
  "adds (list_children E iset s) s (\<lambda>r tr. tr = [Kube (KListByLabel InstanceKind (om_Namespace (o_meta iset))
     instanceSetLabel (om_Name (o_meta iset))) (err_of r)])"
  unfolding list_children_def by (rule adds_perform) simp

lemma sync_adds:
  fixes s :: "('c, 'w) sys"
  shows "adds_all (sync E iset s) s (\<lambda>e. \<not> is_oxide_call e)"
proof -
  have "adds_all (syncInstances E iset is r s) s (\<lambda>e. \<not> is_oxide_call e)" for "is" r and s :: "('c, 'w) sys"
    unfolding adds_all_def by (rule adds_weaken [OF syncInstances_adds]) (auto simp: list_all_iff child_patch_def)
  moreover have "adds_all (list_children E iset s) s (\<lambda>e. \<not> is_oxide_call e)" for s :: "('c, 'w) sys"
    unfolding adds_all_def by (rule adds_weaken [OF list_children_adds]) (simp add: list_all_iff)
  moreover have "adds_all (deleteChildren E iset cs s) s (\<lambda>e. \<not> is_oxide_call e)" for cs and s :: "('c, 'w) sys"
    unfolding adds_all_def by (rule adds_weaken [OF deleteChildren_adds]) (auto simp: list_all_iff)
  ultimately show ?thesis
    unfolding sync_def Let_def
    by (auto intro!: adds_all_ret adds_all_bind split: sum.split option.split)
qed

lemma sync_frame:
  "wlp (sync E iset s) (\<lambda>(err, iset') s'. o_meta iset' = o_meta iset \<and> o_spec iset' = o_spec iset)"
  unfolding sync_def Let_def
  by (auto split: sum.split option.split intro!: wlp_any [where m = "syncInstances E i n r t" for i n r t]
      wlp_any [where m = "list_children E i t" for i t] wlp_any [where m = "deleteChildren E i c t" for i c t])

text \<open>The set has no finalizer; the status is published as by the other controllers.\<close>

lemma InstanceSetReconciler_Reconcile_shape:
  "InstanceSetReconciler_Reconcile E req s = do {
     (r, s) \<leftarrow> kube_get InstanceSetKind (e_set E) req s;
     (case r of
        Inl err \<Rightarrow> Some ((no_requeue, IgnoreNotFound (e_lib E) (Some err)), s)
      | Inr iset \<Rightarrow>
          if reconcileDisabled (o_meta iset) \<or> om_DeletionTimestamp (o_meta iset) \<noteq> None
          then Some ((no_requeue, None), s)
          else publish E SetObj (e_set E) isst_Conditions (\<lambda>cs st. st\<lparr>isst_Conditions := cs\<rparr>)
            (\<lambda>g st. st\<lparr>isst_ObservedGeneration := g\<rparr>) (sync E) iset s)
   }"
  unfolding InstanceSetReconciler_Reconcile_def reconcile_shape_defs
  by (rule refl)

interpretation set_pub: publisher E SetObj "e_set E" isst_Conditions
    "\<lambda>cs st. st\<lparr>isst_Conditions := cs\<rparr>" "\<lambda>g st. st\<lparr>isst_ObservedGeneration := g\<rparr>" "sync E"
  for E :: "('c, 'w) env"
  by unfold_locales (simp_all add: sync_frame adds_all_trivial [OF adds_all_weaken [OF sync_adds TrueI]])

section \<open>Names\<close>

lemma indexed_name_inject: "0 \<le> i \<Longrightarrow> 0 \<le> j \<Longrightarrow> indexed_name base i = indexed_name base j \<longleftrightarrow> i = j"
  by (simp add: indexed_name_def itoa_inject)

lemma keepChild_indexed:
  assumes "om_Name (o_meta child) = indexed_name (om_Name (o_meta iset)) i" and "in_int64 i"
  shows "keepChild iset child \<longleftrightarrow> i < iss_Replicas (o_spec iset)"
proof -
  have "TrimPrefix (om_Name (o_meta child)) (om_Name (o_meta iset) @ ''-'') = itoa i"
    using TrimPrefix_append [of "om_Name (o_meta iset) @ ''-''" "itoa i"] by (simp add: assms(1) indexed_name_def)
  then show ?thesis by (simp add: keepChild_def Atoi_itoa [OF assms(2)])
qed

lemma Atoi_itoa_out:
  assumes "0 \<le> i" and "\<not> in_int64 i"
  shows "Atoi (itoa i) = None"
proof -
  obtain c cs where d: "digits (nat i) = c # cs"
    by (cases "digits (nat i)") auto
  have "is_digit c" using hd_digits_is_digit [of "nat i"] by (simp add: d)
  then have "c \<noteq> CHR ''-''" "c \<noteq> CHR ''+''" using not_digit_chars by auto
  moreover have "parse_digits (digits (nat i)) = Some (nat i)"
    by (simp add: parse_digits_def digits_are_digits digits_value_digits)
  ultimately show ?thesis using assms by (simp add: Atoi_def itoa_def d)
qed

lemma indexed_name_oxide_name:
  assumes "set_name_prefix base" and "0 \<le> i" and "i < 100000"
  shows "oxide_name (indexed_name base i)"
proof -
  have b: "base \<noteq> []" "list_all name_char base" "lower_char (hd base)" "length base \<le> 57"
    using assms(1) name_pattern_length [of 55 base]
    by (auto simp: set_name_prefix_def dest: name_pattern_not_Nil name_pattern_chars name_pattern_first)
  have i: "itoa i = digits (nat i)" using assms(2) by (simp add: itoa_def)
  have "length (digits (nat i)) \<le> 5" using assms by (intro length_digits) auto
  moreover have "list_all name_char ''-''" by (simp add: name_char_def)
  ultimately show ?thesis
    unfolding oxide_name_def indexed_name_def i
    using b digits_name_char [of "nat i"] alnum_last_digits [of "nat i"]
    by (intro name_pattern_append) auto
qed

section \<open>What a sync does\<close>

lemma syncInstances_runs [runs_rules]: "runs (syncInstances E iset is ready s)"
  by (induction "is" arbitrary: ready s) (auto simp: create_or_patch_def intro!: runs_rules split: sum.split)

lemma deleteChildren_runs [runs_rules]: "runs (deleteChildren E iset children s)"
  by (induction children arbitrary: s) (auto intro!: runs_rules)

lemma sync_runs [runs_rules]: "runs (sync E iset s)"
  unfolding sync_def list_children_def Let_def
  by (auto intro!: runs_rules split: sum.split option.split)

lemma InstanceSetReconciler_Reconcile_runs: "runs (InstanceSetReconciler_Reconcile E req s)"
  unfolding InstanceSetReconciler_Reconcile_def Let_def
  by (auto intro!: runs_rules simp: setReady_def split: sum.split prod.split)

text \<open>A set leaves Oxide to its Instances.\<close>

lemma InstanceSet_quiet:
  "ensures (InstanceSetReconciler_Reconcile E req s) s (\<lambda>r tr. list_all (\<lambda>e. \<not> is_oxide_call e) tr)"
proof (rule ensuresI [OF InstanceSetReconciler_Reconcile_runs])
  have ready: "adds_all (setReady E key cs err s) s (\<lambda>e. \<not> is_oxide_call e)" for key cs err and s :: "('a, 'b) sys"
    unfolding adds_all_def by (rule adds_setReady) (simp add: events_harmless)
  have "adds_all (InstanceSetReconciler_Reconcile E req s) s (\<lambda>e. \<not> is_oxide_call e)"
    unfolding InstanceSetReconciler_Reconcile_def Let_def kube_patch_status_def
    by (auto intro!: adds_all_intros sync_adds ready split: sum.split)
  then show "adds (InstanceSetReconciler_Reconcile E req s) s (\<lambda>r tr. list_all (\<lambda>e. \<not> is_oxide_call e) tr)"
    by (rule adds_allD)
qed

text \<open>A set that is opted out is only read; one that is not publishes its status.\<close>

lemma InstanceSet_disabled:
  "fst (k_get (e_set E) req (world s)) = Inr iset \<Longrightarrow> reconcileDisabled (o_meta iset) \<Longrightarrow>
   InstanceSetReconciler_Reconcile E req s = Some ((no_requeue, None),
     logged s (snd (k_get (e_set E) req (world s))) (Kube (KGet InstanceSetKind req) None))"
  by (simp add: InstanceSetReconciler_Reconcile_def kube_get_def perform_def)

lemma InstanceSet_published:
  assumes "lib_ok (e_lib E)" and "fst (k_get (e_set E) req (world s)) = Inr iset"
    and "\<not> reconcileDisabled (o_meta iset)" and "om_DeletionTimestamp (o_meta iset) = None"
  shows "adds (InstanceSetReconciler_Reconcile E req s) s (\<lambda>r tr. \<exists>oerr.
     ends_with (sync E iset (logged s (snd (k_get (e_set E) req (world s))) (Kube (KGet InstanceSetKind req) None))) oerr
     \<and> reports_status (e_lib E) SetObj isst_Conditions (\<lambda>g st. st\<lparr>isst_ObservedGeneration := g\<rparr>) iset oerr r tr)"
proof -
  let ?s = "logged s (snd (k_get (e_set E) req (world s))) (Kube (KGet InstanceSetKind req) None)"
  have "InstanceSetReconciler_Reconcile E req s =
      publish E SetObj (e_set E) isst_Conditions (\<lambda>cs st. st\<lparr>isst_Conditions := cs\<rparr>)
        (\<lambda>g st. st\<lparr>isst_ObservedGeneration := g\<rparr>) (sync E) iset ?s"
    using assms(2-4) by (simp add: InstanceSetReconciler_Reconcile_shape kube_get_def perform_def)
  with set_pub.publish_published [OF assms(1), of iset ?s] show ?thesis
    by (auto simp: adds_def elim!: wlp_mono intro: reports_status_Cons)
qed

text \<open>The effects a set may have: patches of its own children, the listing, and deletions of others.\<close>

definition set_effect :: "instanceset \<Rightarrow> 'c effect \<Rightarrow> bool" where
  "set_effect iset e \<longleftrightarrow>
     (\<exists>i u. 0 \<le> i \<and> i < iss_Replicas (o_spec iset) \<and> e = child_patch iset i u)
     \<or> (\<exists>ns l v u. e = Kube (KListByLabel InstanceKind ns l v) u)
     \<or> (\<exists>child u. \<not> keepChild iset child \<and> e = Kube (KDelete (InstanceObj child)) u)"

lemma set_effect_patch: "i \<in> {0..iss_Replicas (o_spec iset) - 1} \<Longrightarrow> set_effect iset (child_patch iset i u)"
  by (auto simp: set_effect_def)

lemma sync_effects:
  fixes s :: "('c, 'w) sys"
  shows "adds_all (sync E iset s) s (set_effect iset)"
proof -
  have "adds_all (syncInstances E iset [0..iss_Replicas (o_spec iset) - 1] r s) s (set_effect iset)" for r and s :: "('c, 'w) sys"
    by (rule adds_allI, rule adds_weaken [OF syncInstances_adds])
      (auto simp: list_all_iff set_effect_patch dest!: bspec)
  moreover have "adds_all (list_children E iset s) s (set_effect iset)" for s :: "('c, 'w) sys"
    by (rule adds_allI, rule adds_weaken [OF list_children_adds]) (auto simp: set_effect_def)
  moreover have "adds_all (deleteChildren E iset cs s) s (set_effect iset)" for cs and s :: "('c, 'w) sys"
    by (rule adds_allI, rule adds_weaken [OF deleteChildren_adds]) (auto simp: list_all_iff set_effect_def)
  ultimately show ?thesis
    unfolding sync_def Let_def
    by (auto intro!: adds_all_ret adds_all_bind split: sum.split option.split)
qed

text \<open>What a reconcile of a set writes to the API server.\<close>

definition set_write :: "instanceset \<Rightarrow> 'c effect \<Rightarrow> bool" where
  "set_write iset e \<longleftrightarrow> is_kube_write e \<longrightarrow> set_effect iset e \<or> (\<exists>x u. object_key_of x = object_key_of iset \<and> e = Kube (KPatchStatus (SetObj x)) u)"

lemma InstanceSet_writes:
  assumes "fst (k_get (e_set E) req (world s)) = Inr iset"
  shows "adds (InstanceSetReconciler_Reconcile E req s) s (\<lambda>r tr. list_all (set_write iset) tr)"
proof -
  let ?s = "logged s (snd (k_get (e_set E) req (world s))) (Kube (KGet InstanceSetKind req) None)"
  have "adds_all (publish E SetObj (e_set E) isst_Conditions (\<lambda>cs st. st\<lparr>isst_Conditions := cs\<rparr>)
      (\<lambda>g st. st\<lparr>isst_ObservedGeneration := g\<rparr>) (sync E) iset ?s) ?s (set_write iset)"
    by (rule set_pub.publish_writes, rule adds_all_weaken [OF sync_effects])
      (auto simp: set_write_def dest: event_no_write)
  with assms show ?thesis
    by (auto simp: InstanceSetReconciler_Reconcile_shape kube_get_def perform_def adds_all_def adds_def Let_def
        set_write_def elim!: wlp_mono)
qed

definition children_patched :: "instanceset \<Rightarrow> 'c effect list" where
  "children_patched iset = map (\<lambda>i. child_patch iset i None) [0..iss_Replicas (o_spec iset) - 1]"

text \<open>The outcome of a sync.\<close>

definition synced :: "instanceset \<Rightarrow> error option \<Rightarrow> instanceset \<Rightarrow> 'c effect list \<Rightarrow> bool" where
  "synced iset err iset' tr \<longleftrightarrow>
     list_all (set_effect iset) tr
     \<and> (err = None \<longrightarrow>
          (\<exists>rest. tr = children_patched iset @ rest)
          \<and> isst_Replicas (o_status iset') = iss_Replicas (o_spec iset)
          \<and> isst_ReadyReplicas (o_status iset') = iss_Replicas (o_spec iset))"

lemma sync_outcome:
  fixes s :: "('c, 'w) sys"
  assumes "0 \<le> iss_Replicas (o_spec iset)"
  shows "adds (sync E iset s) s (\<lambda>(err, iset') tr. synced iset err iset' tr)"
proof -
  let ?n = "iss_Replicas (o_spec iset)"
  have patches: "adds (syncInstances E iset [0..?n - 1] 0 s) s (\<lambda>r tr. list_all (set_effect iset) tr
      \<and> (\<forall>m. r = Inr m \<longrightarrow> tr = children_patched iset \<and> m \<le> ?n))" for s :: "('c, 'w) sys"
    by (rule adds_weaken [OF syncInstances_adds])
      (use assms in \<open>auto simp: list_all_iff set_effect_patch children_patched_def dest!: bspec\<close>)
  have list: "adds (list_children E iset s) s (\<lambda>r tr. list_all (set_effect iset) tr)" for s :: "('c, 'w) sys"
    by (rule adds_weaken [OF list_children_adds]) (auto simp: set_effect_def)
  have del: "adds (deleteChildren E iset cs s) s (\<lambda>r tr. list_all (set_effect iset) tr)" for cs and s :: "('c, 'w) sys"
    by (rule adds_weaken [OF deleteChildren_adds]) (auto simp: list_all_iff set_effect_def)
  show ?thesis
    unfolding sync_def Let_def
    by (auto simp: synced_def split: sum.split option.split
        intro!: adds_ret adds_bind [OF patches] adds_bind [OF list] adds_bind [OF del])
qed

lemma own_child_kept:
  assumes "in_int64 (iss_Replicas (o_spec iset))" and "0 \<le> i" and "i < iss_Replicas (o_spec iset)"
    and "om_Name (o_meta child) = indexed_name (om_Name (o_meta iset)) i"
  shows "keepChild iset child"
  using keepChild_indexed [OF assms(4)] assms(1-3) by (simp add: in_int64_def)

lemma synced_keeps:
  assumes "in_int64 (iss_Replicas (o_spec iset))" and "synced iset err iset' tr"
    and "0 \<le> i" and "i < iss_Replicas (o_spec iset)"
    and "om_Name (o_meta child) = indexed_name (om_Name (o_meta iset)) i"
  shows "Kube (KDelete (InstanceObj child)) u \<notin> set tr"
  using assms(2) own_child_kept [OF assms(1,3,4,5)]
  by (auto simp: synced_def list_all_iff set_effect_def child_patch_def)

section \<open>Properties\<close>

text \<open>A set of two.\<close>

definition pair :: instanceset where
  "pair = \<lparr>o_meta = \<lparr>om_Name = ''web'', om_Namespace = ''default'', om_UID = ''u'', om_Generation = 1,
       om_ResourceVersion = ''1'', om_Annotations = (\<lambda>_. None), om_Labels = (\<lambda>_. None),
       om_Finalizers = [], om_OwnerReferences = [], om_DeletionTimestamp = None\<rparr>,
     o_spec = \<lparr>iss_Replicas = 2, iss_Template = \<lparr>it_Labels = (\<lambda>_. None), it_Spec = zero_instance_spec\<rparr>\<rparr>,
     o_status = \<lparr>isst_Replicas = 0, isst_ReadyReplicas = 0, isst_Conditions = [], isst_ObservedGeneration = 0\<rparr>\<rparr>"

text \<open>C14: a sync makes the set what it should be. It patches no Instance but \<open><set>-0\<close> to
  \<open><set>-(n-1)\<close> in the set's namespace, where \<open>n\<close> is the number of replicas, and deletes none of
  those; and it succeeds only if every one of them has been created or patched, in this order, and
  the status then says that all \<open>n\<close> are there and ready.\<close>

theorem sync_exactly_the_set:
  assumes "0 \<le> iss_Replicas (o_spec iset)" and "in_int64 (iss_Replicas (o_spec iset))"
  shows "ensures (sync E iset s) s (\<lambda>(err, iset') tr. synced iset err iset' tr
     \<and> (\<forall>child u. \<forall>i \<in> {0..<iss_Replicas (o_spec iset)}.
          om_Name (o_meta child) = indexed_name (om_Name (o_meta iset)) i \<longrightarrow>
          Kube (KDelete (InstanceObj child)) u \<notin> set tr))"
  by (rule ensures_weaken [OF ensuresI [OF sync_runs sync_outcome [OF assms(1)]]])
    (auto dest: synced_keeps [OF assms(2)])

theorem sync_exactly_the_set_witness:
  "ensures (sync env0 pair sys0) sys0 (\<lambda>(err, iset') tr. synced pair err iset' tr)"
  by (rule ensures_weaken [OF sync_exactly_the_set]) (auto simp: pair_def in_int64_def)

text \<open>What the name of an Instance has to be for a number: decimal digits, perhaps with a sign, after
  \<open><set>-\<close> or alone. \<open><set>-i\<close> is of this form, but so are \<open><set>-01\<close> and \<open>7\<close>.\<close>

definition numbered :: "string \<Rightarrow> string \<Rightarrow> int \<Rightarrow> bool" where
  "numbered base name i \<longleftrightarrow>
     (\<exists>sign ds. ds \<noteq> [] \<and> list_all is_digit ds
        \<and> (sign = ''-'' \<and> i = - int (digits_value 0 ds) \<or> sign \<in> {'''', ''+''} \<and> i = int (digits_value 0 ds))
        \<and> name \<in> {base @ ''-'' @ sign @ ds, sign @ ds})"

lemma Atoi_numbered:
  assumes "Atoi t = Some i" and "name = base @ ''-'' @ t \<or> name = t"
  shows "numbered base name i"
proof -
  have parse: "ds \<noteq> [] \<and> list_all is_digit ds \<and> n = digits_value 0 ds" if "parse_digits ds = Some n" for ds n
    using that by (auto simp: parse_digits_def split: if_splits)
  obtain sign ds where "t = sign @ ds" "ds \<noteq> []" "list_all is_digit ds"
      "sign = ''-'' \<and> i = - int (digits_value 0 ds) \<or> sign \<in> {'''', ''+''} \<and> i = int (digits_value 0 ds)"
  proof (cases t)
    case Nil
    with assms(1) show ?thesis by (simp add: Atoi_def parse_digits_def)
  next
    case (Cons c cs)
    with assms(1) that [of "''-''" cs] that [of "''+''" cs] that [of "''''" t] parse [of cs] parse [of t] show ?thesis
      by (auto simp: Atoi_def Let_def split: if_splits option.splits)
  qed
  with assms(2) show ?thesis unfolding numbered_def by blast
qed

lemma keepChild_numbered:
  assumes "keepChild iset child"
  shows "\<exists>i < iss_Replicas (o_spec iset). numbered (om_Name (o_meta iset)) (om_Name (o_meta child)) i"
proof -
  let ?base = "om_Name (o_meta iset)" and ?name = "om_Name (o_meta child)"
  from assms obtain i where i: "Atoi (TrimPrefix ?name (?base @ ''-'')) = Some i" "i < iss_Replicas (o_spec iset)"
    by (auto simp: keepChild_def split: option.splits)
  have "?name = ?base @ ''-'' @ TrimPrefix ?name (?base @ ''-'') \<or> ?name = TrimPrefix ?name (?base @ ''-'')"
    by (auto simp: TrimPrefix_def prefix_def)
  from Atoi_numbered [OF i(1) this] i(2) show ?thesis by blast
qed

lemma surplus_not_kept:
  assumes "om_Name (o_meta child) = indexed_name (om_Name (o_meta iset)) i" and "0 \<le> i"
    and "iss_Replicas (o_spec iset) \<le> i"
  shows "\<not> keepChild iset child"
proof (cases "in_int64 i")
  case True
  with keepChild_indexed [OF assms(1) True] assms(3) show ?thesis by simp
next
  case False
  have "TrimPrefix (om_Name (o_meta child)) (om_Name (o_meta iset) @ ''-'') = itoa i"
    using TrimPrefix_append [of "om_Name (o_meta iset) @ ''-''" "itoa i"] by (simp add: assms(1) indexed_name_def)
  then show ?thesis using False assms(2) by (simp add: keepChild_def Atoi_itoa_out)
qed

text \<open>C30: scaling down deletes the surplus. If the deletion of children ends without an error, then
  every child that was listed and is called \<open><set>-i\<close> for an \<open>i\<close> that is not below the number of replicas
  has been deleted, or was gone already; and so has every child whose name is no number below that
  one, with or without \<open><set>-\<close> before it.\<close>

theorem surplus_children_deleted:
  assumes "lib_ok (e_lib E)"
  shows "ensures (deleteChildren E iset children s) s (\<lambda>err tr.
     err = None \<longrightarrow> (\<forall>child \<in> set children.
       (\<exists>i. om_Name (o_meta child) = indexed_name (om_Name (o_meta iset)) i \<and> 0 \<le> i \<and> iss_Replicas (o_spec iset) \<le> i)
       \<or> \<not> (\<exists>i < iss_Replicas (o_spec iset). numbered (om_Name (o_meta iset)) (om_Name (o_meta child)) i)
       \<longrightarrow> (\<exists>u. Kube (KDelete (InstanceObj child)) u \<in> set tr \<and> IgnoreNotFound (e_lib E) u = None)))"
  by (rule ensures_weaken [OF ensuresI [OF deleteChildren_runs deleteChildren_adds]])
    (use assms in \<open>blast dest: keepChild_numbered surplus_not_kept\<close>)

definition surplus_child :: instance_obj where
  "surplus_child = child_seed pair 5"

theorem surplus_children_deleted_witness:
  "ensures (deleteChildren env0 pair [surplus_child] sys0) sys0 (\<lambda>err tr.
     err \<noteq> None \<or> (\<exists>u. Kube (KDelete (InstanceObj surplus_child)) u \<in> set tr \<and> IgnoreNotFound lib0 u = None))"
proof (rule ensures_weaken [OF surplus_children_deleted])
  have "om_Name (o_meta surplus_child) = indexed_name (om_Name (o_meta pair)) 5"
    by (simp add: surplus_child_def child_seed_def)
  moreover have "iss_Replicas (o_spec pair) \<le> 5" by (simp add: pair_def)
  ultimately have "\<exists>i. om_Name (o_meta surplus_child) = indexed_name (om_Name (o_meta pair)) i \<and> 0 \<le> i
      \<and> iss_Replicas (o_spec pair) \<le> i"
    by (intro exI [of _ 5]) simp
  then show "err \<noteq> None \<or> (\<exists>u. Kube (KDelete (InstanceObj surplus_child)) u \<in> set tr \<and> IgnoreNotFound lib0 u = None)"
    if "err = None \<longrightarrow> (\<forall>child \<in> set [surplus_child].
       (\<exists>i. om_Name (o_meta child) = indexed_name (om_Name (o_meta pair)) i \<and> 0 \<le> i \<and> iss_Replicas (o_spec pair) \<le> i)
       \<or> \<not> (\<exists>i < iss_Replicas (o_spec pair). numbered (om_Name (o_meta pair)) (om_Name (o_meta child)) i)
       \<longrightarrow> (\<exists>u. Kube (KDelete (InstanceObj child)) u \<in> set tr \<and> IgnoreNotFound (e_lib env0) u = None))"
    for err and tr :: "nat effect list"
    using that by auto
qed (simp add: lib0_ok)

text \<open>C34: the children's names are valid and their own. For a set whose name is admitted (at most
  57 characters) the name of each of its first 100000 Instances is a valid Oxide name, and no two of
  them are the same.\<close>

theorem child_names_valid:
  assumes "set_name_prefix base" and "0 \<le> i" and "i < 100000" and "0 \<le> j"
  shows "oxide_name (indexed_name base i) \<and> length (indexed_name base i) \<le> 63
    \<and> (indexed_name base i = indexed_name base j \<longrightarrow> i = j)"
  using indexed_name_oxide_name [OF assms(1-3)] indexed_name_inject [OF assms(2,4)]
  by (auto simp: oxide_name_def dest: name_pattern_length)

theorem child_names_valid_witness: "oxide_name (indexed_name ''web'' 42)"
  using child_names_valid [of "''web''" 42 0]
  by (simp add: set_name_prefix_def name_pattern_def lower_char_def name_char_def alnum_char_def)

end
