(* ===== verification/Connection_Controller.thy ===== *)
theory Connection_Controller
  imports Oxide_Client
begin

text \<open>
  \<^verbatim>\<open>internal/controller/oxide/oxideconnection_controller.go\<close>: the OxideConnection controller. It
  tests the token, records the version of the Secret it was read from (which is part of the tag of
  the cached client), and keeps a deleted connection until no resource refers to it.
\<close>

section \<open>The controller\<close>

text \<open>The body of \<^verbatim>\<open>Reconcile\<close> between the finalizer and \<^verbatim>\<open>setReady\<close>. The metadata of the Secret
  that it reads is its resource version.\<close>

definition checkConnection ::
  "('c, 'w) env \<Rightarrow> oxideconnection \<Rightarrow> (('c, 'w) sys, error option \<times> oxideconnection) go" where
  "checkConnection E conn s = do {
     (r, s) \<leftarrow> perform (Kube (KGetMetadata SecretKind (secret_key conn))) err_of
       (e_secret_meta E (secret_key conn)) s;
     (case r of
        Inl err \<Rightarrow> Some ((Some err, conn), s)
      | Inr resourceVersion \<Rightarrow> do {
          let conn = conn\<lparr>o_status := (o_status conn)\<lparr>ocst_ObservedSecretResourceVersion := resourceVersion\<rparr>\<rparr>;
          (oc, s) \<leftarrow> ClientFor E conn s;
          (case oc of
             Inl err \<Rightarrow> Some ((Some err, conn), s)
           | Inr oc \<Rightarrow> do {
               (me, s) \<leftarrow> oxide (ox_user (e_oxide E)) oc CurrentUserView s;
               (case me of
                  Inl err \<Rightarrow> Some ((Some err, conn), s)
                | Inr me \<Rightarrow> Some ((None, conn\<lparr>o_status := (o_status conn)\<lparr>
                    ocst_Silo := ou_SiloName me, ocst_User := ou_DisplayName me\<rparr>\<rparr>), s))
             })
        })
   }"

definition uses :: "string \<Rightarrow> resource_spec \<Rightarrow> bool" where
  "uses name spec \<longleftrightarrow> rs_ConnectionRef spec = name"

definition inUse ::
  "('c, 'w) env \<Rightarrow> string \<Rightarrow> (('c, 'w) sys, error + bool) go" where
  "inUse E name s = do {
     (projects, s) \<leftarrow> kube_list ProjectKind (e_project E) s;
     (case projects of Inl err \<Rightarrow> Some (Inl err, s) | Inr projects \<Rightarrow> do {
     (vpcs, s) \<leftarrow> kube_list VpcKind (e_vpc E) s;
     (case vpcs of Inl err \<Rightarrow> Some (Inl err, s) | Inr vpcs \<Rightarrow> do {
     (subnets, s) \<leftarrow> kube_list VpcSubnetKind (e_subnet E) s;
     (case subnets of Inl err \<Rightarrow> Some (Inl err, s) | Inr subnets \<Rightarrow> do {
     (disks, s) \<leftarrow> kube_list DiskKind (e_disk E) s;
     (case disks of Inl err \<Rightarrow> Some (Inl err, s) | Inr disks \<Rightarrow> do {
     (snapshots, s) \<leftarrow> kube_list SnapshotKind (e_snapshot E) s;
     (case snapshots of Inl err \<Rightarrow> Some (Inl err, s) | Inr snapshots \<Rightarrow> do {
     (instances, s) \<leftarrow> kube_list InstanceKind (e_instance E) s;
     (case instances of Inl err \<Rightarrow> Some (Inl err, s) | Inr instances \<Rightarrow> do {
     (images, s) \<leftarrow> kube_list ImageKind (e_image E) s;
     (case images of Inl err \<Rightarrow> Some (Inl err, s) | Inr images \<Rightarrow>
       Some (Inr
         (list_ex (\<lambda>p. uses name (ps_Resource (o_spec p))) projects
          \<or> list_ex (\<lambda>v. uses name (vs_Resource (o_spec v))) vpcs
          \<or> list_ex (\<lambda>n. uses name (ss_Resource (o_spec n))) subnets
          \<or> list_ex (\<lambda>d. uses name (ds_Resource (o_spec d))) disks
          \<or> list_ex (\<lambda>n. uses name (sns_Resource (o_spec n))) snapshots
          \<or> list_ex (\<lambda>i. uses name (ins_Resource (o_spec i))) instances
          \<or> list_ex (\<lambda>i. uses name (is_Resource (o_spec i))) images), s))
     }) }) }) }) }) })
   }"

definition ConnectionReconciler_handleDelete ::
  "('c, 'w) env \<Rightarrow> oxideconnection \<Rightarrow> (('c, 'w) sys, ctrl_result \<times> error option) go" where
  "ConnectionReconciler_handleDelete E conn s =
     (if \<not> ContainsFinalizer (e_lib E) (o_meta conn) finalizerName then Some ((no_requeue, None), s)
      else do {
        (used, s) \<leftarrow> inUse E (om_Name (o_meta conn)) s;
        (case used of
           Inl err \<Rightarrow> Some ((no_requeue, Some err), s)
         | Inr used \<Rightarrow>
             if used then Some ((\<lparr>RequeueAfter = progressPeriod\<rparr>, None), s)
             else do {
               let conn = conn\<lparr>o_meta := RemoveFinalizer (e_lib E) (o_meta conn) finalizerName\<rparr>;
               (r, s) \<leftarrow> kube_update ConnObj (e_conn E) conn s;
               Some ((no_requeue, IgnoreNotFound (e_lib E) (err_of r)), s)
             })
      })"

definition ConnectionReconciler_Reconcile ::
  "('c, 'w) env \<Rightarrow> object_key \<Rightarrow> (('c, 'w) sys, ctrl_result \<times> error option) go" where
  "ConnectionReconciler_Reconcile E req s = do {
     (r, s) \<leftarrow> kube_get OxideConnectionKind (e_conn E) req s;
     (case r of
        Inl err \<Rightarrow> Some ((no_requeue, IgnoreNotFound (e_lib E) (Some err)), s)
      | Inr conn \<Rightarrow>
          if reconcileDisabled (o_meta conn) then Some ((no_requeue, None), s)
          else if om_DeletionTimestamp (o_meta conn) \<noteq> None then do {
            ((res, err), s) \<leftarrow> ConnectionReconciler_handleDelete E conn s;
            Some ((res, err), warn E (object_key_of conn) ''DeleteFailed'' err s)
          }
          else do {
            ((err, conn), s) \<leftarrow>
              (case AddFinalizer (e_lib E) (o_meta conn) finalizerName of
                 (m, added) \<Rightarrow>
                   let conn = conn\<lparr>o_meta := m\<rparr> in
                   if added then do {
                     (r, s) \<leftarrow> kube_update ConnObj (e_conn E) conn s;
                     (case r of
                        Inl e \<Rightarrow> Some ((Some e, conn), s)
                      | Inr conn \<Rightarrow> Some ((None, conn), s))
                   }
                   else Some ((None, conn), s));
            (case err of
               Some e \<Rightarrow> Some ((no_requeue, Some e), s)
             | None \<Rightarrow> do {
                 let base = conn;
                 ((err, conn), s) \<leftarrow> checkConnection E conn s;
                 (((res, err), cs), s) \<leftarrow>
                   setReady E (object_key_of conn) (ocst_Conditions (o_status conn)) err s;
                 (perr, s) \<leftarrow> kube_patch_status ConnObj (e_conn E) base
                   (conn\<lparr>o_status := (o_status conn)\<lparr>ocst_Conditions := cs\<rparr>\<rparr>) s;
                 (case perr of
                    Inl pe \<Rightarrow>
                      if err = None then Some ((no_requeue, IgnoreNotFound (e_lib E) (Some pe)), s)
                      else Some ((res, err), s)
                  | Inr _ \<Rightarrow> Some ((res, err), s))
               })
          })
   }"

section \<open>Token rotation\<close>

text \<open>The connections to reconcile when a Secret changes.\<close>

definition holds_token :: "object_key \<Rightarrow> oxideconnection \<Rightarrow> bool" where
  "holds_token secret conn \<longleftrightarrow>
     skr_Namespace (ocs_TokenSecretRef (o_spec conn)) = ok_Namespace secret
     \<and> skr_Name (ocs_TokenSecretRef (o_spec conn)) = ok_Name secret"

definition connectionsForSecret ::
  "('c, 'w) env \<Rightarrow> object_key \<Rightarrow> (('c, 'w) sys, object_key list) go" where
  "connectionsForSecret E secret s = do {
     (conns, s) \<leftarrow> kube_list OxideConnectionKind (e_conn E) s;
     (case conns of
        Inl err \<Rightarrow> Some ([], s)
      | Inr conns \<Rightarrow>
          Some (map (\<lambda>c. \<lparr>ok_Namespace = '''', ok_Name = om_Name (o_meta c)\<rparr>) (filter (holds_token secret) conns), s))
   }"

section \<open>Facts\<close>

lemma checkConnection_adds: "adds_all (checkConnection E conn s) s (\<lambda>e. \<not> is_kube_write e)"
proof -
  have cf: "adds_all (ClientFor E c s) s (\<lambda>e. \<not> is_kube_write e)" for c and s :: "('a, 'b) sys"
    unfolding adds_all_def by (rule adds_weaken [OF ClientFor_adds]) (auto simp: list_all_iff dest: kube_get_no_write)
  show ?thesis
    unfolding checkConnection_def Let_def
    by (auto intro!: adds_all_intros cf split: sum.split)
qed

lemma checkConnection_frame:
  "wlp (checkConnection E conn s)
     (\<lambda>(err, conn') s'. o_meta conn' = o_meta conn \<and> o_spec conn' = o_spec conn)"
  unfolding checkConnection_def Let_def
  by (auto split: sum.split intro!: wlp_any [where m = "perform a b c t" for a b c t]
      wlp_any [where m = "ClientFor E c t" for c t] wlp_any [where m = "oxide f oc q t" for f oc q t])

lemma ConnectionReconciler_Reconcile_shape:
  "ConnectionReconciler_Reconcile E req s =
     reconcile_with E OxideConnectionKind ConnObj (e_conn E) ocst_Conditions
       (\<lambda>cs st. st\<lparr>ocst_Conditions := cs\<rparr>) (\<lambda>g st. st)
       (ConnectionReconciler_handleDelete E) (checkConnection E) req s"
  unfolding ConnectionReconciler_Reconcile_def reconcile_shape_defs if_cancel
  by (rule refl)

text \<open>The search for users of a connection only lists.\<close>

fun is_list :: "'c effect \<Rightarrow> bool" where
  "is_list (Kube (KList _) _) = True"
| "is_list _ = False"

lemma inUse_adds: "adds_all (inUse E name s) s is_list"
  unfolding inUse_def
  by (auto intro!: adds_all_intros split: sum.split)

lemma conn_handleDelete_releases:
  "adds_all (ConnectionReconciler_handleDelete E conn s) s (only_releases (e_lib E) ConnObj conn)"
proof -
  have use: "adds_all (inUse E name s) s (only_releases (e_lib E) ConnObj conn)" for name s
    by (rule adds_all_weaken [OF inUse_adds]) (auto elim!: is_list.elims)
  show ?thesis
    unfolding ConnectionReconciler_handleDelete_def Let_def
    by (auto intro!: adds_all_intros use split: sum.split option.split)
qed

interpretation conn_ctl: reconciler E ConnObj "e_conn E" ocst_Conditions
    "\<lambda>cs st. st\<lparr>ocst_Conditions := cs\<rparr>" "\<lambda>g st. st" "checkConnection E" OxideConnectionKind
    "ConnectionReconciler_handleDelete E" "ConnectionReconciler_Reconcile E"
  for E :: "('c, 'w) env"
  by unfold_locales
    (simp_all add: ConnectionReconciler_Reconcile_shape checkConnection_frame
      adds_all_trivial [OF checkConnection_adds] checkConnection_adds conn_handleDelete_releases)

section \<open>No panics\<close>

lemma inUse_runs [runs_rules]: "runs (inUse E name s)"
  unfolding inUse_def by (auto intro!: runs_rules split: sum.split)

lemma ConnectionReconciler_handleDelete_runs [runs_rules]: "runs (ConnectionReconciler_handleDelete E conn s)"
  unfolding ConnectionReconciler_handleDelete_def Let_def
  by (auto intro!: runs_rules split: sum.split)

lemma checkConnection_runs [runs_rules]: "runs (checkConnection E conn s)"
  unfolding checkConnection_def Let_def
  by (auto intro!: runs_rules split: sum.split)

lemma ConnectionReconciler_Reconcile_runs: "runs (ConnectionReconciler_Reconcile E req s)"
  by (rule conn_ctl.reconcile_runs [where good = "\<lambda>_. True"]) (auto intro: runs_rules)

lemma connection_finalizer_first:
  assumes "fst (k_get (e_conn E) req (world s)) = Inr conn"
    and "om_DeletionTimestamp (o_meta conn) = None"
    and "snd (AddFinalizer (e_lib E) (o_meta conn) finalizerName)"
  shows "ensures (ConnectionReconciler_Reconcile E req s) s (\<lambda>r tr.
     preceded (finalizer_saved (e_lib E) ConnObj conn) is_oxide_call tr)"
  by (rule ensuresI [OF ConnectionReconciler_Reconcile_runs conn_ctl.reconcile_finalizer_first [OF assms]])

lemma connection_deletion_quiet:
  assumes "fst (k_get (e_conn E) req (world s)) = Inr conn" and "om_DeletionTimestamp (o_meta conn) \<noteq> None"
  shows "adds (ConnectionReconciler_Reconcile E req s) s (\<lambda>r tr. list_all (\<lambda>e. \<not> is_oxide_call e) tr)"
proof (rule conn_ctl.adds_deleting [OF assms])
  have use: "adds_all (inUse E name s) s (\<lambda>e. \<not> is_oxide_call e)" for name s
    by (rule adds_all_weaken [OF inUse_adds]) (auto elim!: is_list.elims)
  show "adds (ConnectionReconciler_handleDelete E conn s) s (\<lambda>r tr. list_all (\<lambda>e. \<not> is_oxide_call e) tr)" for s
    by (rule adds_allD) (auto simp: ConnectionReconciler_handleDelete_def Let_def
      intro!: adds_all_intros use split: sum.split option.split)
qed (auto intro: events_harmless)

section \<open>Use\<close>

text \<open>An API server that lists these resources, whenever it is asked.\<close>

definition listed :: "('o, 'w) kube_ops \<Rightarrow> 'o list \<Rightarrow> bool" where
  "listed ops os \<longleftrightarrow> (\<forall>w. fst (k_list ops w) = Inr os)"

record resources =
  res_projects :: "project list"
  res_vpcs :: "vpc list"
  res_subnets :: "vpcsubnet list"
  res_disks :: "disk list"
  res_snapshots :: "snapshot list"
  res_instances :: "instance_obj list"
  res_images :: "image list"

definition lists :: "('c, 'w) env \<Rightarrow> resources \<Rightarrow> bool" where
  "lists E r \<longleftrightarrow>
     listed (e_project E) (res_projects r) \<and> listed (e_vpc E) (res_vpcs r) \<and> listed (e_subnet E) (res_subnets r)
     \<and> listed (e_disk E) (res_disks r) \<and> listed (e_snapshot E) (res_snapshots r)
     \<and> listed (e_instance E) (res_instances r) \<and> listed (e_image E) (res_images r)"

text \<open>The connections that resources refer to.\<close>

definition referenced :: "resources \<Rightarrow> string list" where
  "referenced r = map rs_ConnectionRef
     (map (\<lambda>x. ps_Resource (o_spec x)) (res_projects r) @ map (\<lambda>x. vs_Resource (o_spec x)) (res_vpcs r)
      @ map (\<lambda>x. ss_Resource (o_spec x)) (res_subnets r) @ map (\<lambda>x. ds_Resource (o_spec x)) (res_disks r)
      @ map (\<lambda>x. sns_Resource (o_spec x)) (res_snapshots r) @ map (\<lambda>x. ins_Resource (o_spec x)) (res_instances r)
      @ map (\<lambda>x. is_Resource (o_spec x)) (res_images r))"

lemma kube_list_listed:
  "listed ops os \<Longrightarrow> \<exists>s'. kube_list k ops s = Some (Inr os, s') \<and> trace s' = trace s @ [Kube (KList k) None]"
  by (auto simp: listed_def kube_list_def perform_def Let_def)

lemma list_step:
  assumes "listed ops os"
    and "\<And>s'. trace s' = trace s @ [Kube (KList k) None] \<Longrightarrow>
      \<exists>s''. f os s' = Some (Inr b, s'') \<and> (\<exists>tr. trace s'' = trace s' @ tr \<and> list_all is_list tr)"
  shows "\<exists>s''. (do { (r, s) \<leftarrow> kube_list k ops s; (case r of Inl err \<Rightarrow> Some (Inl err, s) | Inr xs \<Rightarrow> f xs s) })
      = Some (Inr b, s'') \<and> (\<exists>tr. trace s'' = trace s @ tr \<and> list_all is_list tr)"
proof -
  obtain s' where s': "kube_list k ops s = Some (Inr os, s')" "trace s' = trace s @ [Kube (KList k) None]"
    using kube_list_listed [OF assms(1)] by blast
  with assms(2) [OF s'(2)] show ?thesis by auto
qed

lemma inUse_value:
  assumes "lists E r"
  shows "\<exists>s'. inUse E name s = Some (Inr (name \<in> set (referenced r)), s')
    \<and> (\<exists>tr. trace s' = trace s @ tr \<and> list_all is_list tr)"
  using assms unfolding inUse_def lists_def
  by (elim conjE) ((rule list_step, assumption)+, auto simp: referenced_def uses_def list_ex_iff)

section \<open>Properties\<close>

definition drops_finalizer :: "lib \<Rightarrow> oxideconnection \<Rightarrow> 'c effect \<Rightarrow> bool" where
  "drops_finalizer l conn e \<longleftrightarrow>
     (\<exists>u. e = Kube (KUpdate (ConnObj (conn\<lparr>o_meta := RemoveFinalizer l (o_meta conn) finalizerName\<rparr>))) u)"

lemma handleDelete_uses:
  assumes "lib_ok (e_lib E)" and lists: "lists E r"
    and fin: "finalizerName \<in> set (om_Finalizers (o_meta conn))"
  shows "ensures (ConnectionReconciler_handleDelete E conn s) s (\<lambda>(res, err) tr.
     if om_Name (o_meta conn) \<in> set (referenced r)
     then res = \<lparr>RequeueAfter = progressPeriod\<rparr> \<and> err = None \<and> list_all (\<lambda>e. \<not> is_kube_write e) tr
     else res = no_requeue \<and> (\<exists>e. filter is_kube_write tr = [e] \<and> drops_finalizer (e_lib E) conn e))"
proof -
  obtain s' tr where use: "inUse E (om_Name (o_meta conn)) s = Some (Inr (om_Name (o_meta conn) \<in> set (referenced r)), s')"
      "trace s' = trace s @ tr" "list_all is_list tr"
    using inUse_value [OF lists] by blast
  have quiet: "list_all (\<lambda>e. \<not> is_kube_write e) tr" "filter is_kube_write tr = []"
    using use(3) by (auto simp: list_all_iff filter_empty_conv elim!: is_list.elims)
  have "ContainsFinalizer (e_lib E) (o_meta conn) finalizerName" using lib_okD(2) [OF assms(1)] fin by blast
  with use quiet show ?thesis
    by (auto simp: ConnectionReconciler_handleDelete_def ensures_def kube_update_def perform_def Let_def drops_finalizer_def)
qed

text \<open>C18: a connection lasts as long as it is used. Take a connection that is being deleted, has its
  finalizer and is not opted out, and an API server that can list the resources. If a Project, Vpc,
  VpcSubnet, Disk, Snapshot, Instance or Image of any namespace refers to the connection, its reconcile
  writes nothing to the API server and asks to run again after \<^verbatim>\<open>progressPeriod\<close>, without an error; and if
  none does, the one thing it writes is the update that drops the finalizer.\<close>

theorem connection_kept_while_used:
  assumes "lib_ok (e_lib E)" and "lists E r"
    and get: "fst (k_get (e_conn E) req (world s)) = Inr conn"
    and deleting: "om_DeletionTimestamp (o_meta conn) \<noteq> None" "\<not> reconcileDisabled (o_meta conn)"
    and "finalizerName \<in> set (om_Finalizers (o_meta conn))"
  shows "ensures (ConnectionReconciler_Reconcile E req s) s (\<lambda>(res, err) tr.
     if om_Name (o_meta conn) \<in> set (referenced r)
     then res = \<lparr>RequeueAfter = progressPeriod\<rparr> \<and> err = None \<and> list_all (\<lambda>e. \<not> is_kube_write e) tr
     else res = no_requeue \<and> (\<exists>e. filter is_kube_write tr = [e] \<and> drops_finalizer (e_lib E) conn e))"
proof -
  have event: "filter is_kube_write ev = [] \<and> list_all (\<lambda>e. \<not> is_kube_write e) ev" if "list_all is_event ev"
    for ev :: "'a effect list"
    using that by (auto simp: list_all_iff filter_empty_conv dest: event_no_write)
  let ?s = "conn_ctl.fetched E req s"
  obtain res err s' tr where del: "ConnectionReconciler_handleDelete E conn ?s = Some ((res, err), s')"
      "trace s' = trace ?s @ tr" "if om_Name (o_meta conn) \<in> set (referenced r)
        then res = \<lparr>RequeueAfter = progressPeriod\<rparr> \<and> err = None \<and> list_all (\<lambda>e. \<not> is_kube_write e) tr
        else res = no_requeue \<and> (\<exists>e. filter is_kube_write tr = [e] \<and> drops_finalizer (e_lib E) conn e)"
    using handleDelete_uses [OF assms(1,2,6), of ?s] by (auto simp: ensures_def wp_iff)
  obtain ev where ev: "trace (warn E (object_key_of conn) ''DeleteFailed'' err s') = trace s' @ ev" "list_all is_event ev"
    using warn_trace by blast
  have "ConnectionReconciler_Reconcile E req s = Some ((res, err), warn E (object_key_of conn) ''DeleteFailed'' err s')"
    using conn_ctl.reconcile_deleting [of E req s conn] get deleting del(1) by simp
  with del(2,3) ev(1) event [OF ev(2)] show ?thesis
    by (auto simp: ensures_def conn_ctl.fetched_def split: if_splits)
qed

lemma reconcileDisabled_name [simp]: "reconcileDisabled (m\<lparr>om_Name := n\<rparr>) = reconcileDisabled m"
  by (simp add: reconcileDisabled_def)

definition no_resources :: resources where
  "no_resources = \<lparr>res_projects = [], res_vpcs = [], res_subnets = [], res_disks = [], res_snapshots = [],
     res_instances = [], res_images = []\<rparr>"

definition deleted_conn :: oxideconnection where
  "deleted_conn = conn0\<lparr>o_meta := deleting\<lparr>om_Name := ''conn''\<rparr>\<rparr>"

text \<open>The connection with nothing that uses it, and with a project that does.\<close>

definition unused_env :: "(nat, unit) env" where
  "unused_env = env0\<lparr>e_conn := holding deleted_conn\<rparr>"

definition user_project :: project where
  "user_project =
     \<lparr>o_meta = meta0, o_spec = \<lparr>ps_Resource = resource0, ps_Description = ''''\<rparr>, o_status = status0\<rparr>"

definition used_env :: "(nat, unit) env" where
  "used_env = unused_env\<lparr>e_project := ops0\<lparr>k_list := (\<lambda>w. (Inr [user_project], w))\<rparr>\<rparr>"

theorem connection_kept_while_used_witness:
  "ensures (ConnectionReconciler_Reconcile used_env key0 sys0) sys0 (\<lambda>(res, err) tr.
     res = \<lparr>RequeueAfter = progressPeriod\<rparr> \<and> err = None \<and> list_all (\<lambda>e. \<not> is_kube_write e) tr)
   \<and> ensures (ConnectionReconciler_Reconcile unused_env key0 sys0) sys0 (\<lambda>(res, err) tr.
     res = no_requeue \<and> (\<exists>e. filter is_kube_write tr = [e] \<and> drops_finalizer lib0 deleted_conn e))"
proof
  have "lists used_env (no_resources\<lparr>res_projects := [user_project]\<rparr>)" "lists unused_env no_resources"
    by (simp_all add: lists_def listed_def no_resources_def used_env_def unused_env_def env0_def ops0_def)
  note used = connection_kept_while_used [OF _ this(1), of key0 sys0 deleted_conn]
    and unused = connection_kept_while_used [OF _ this(2), of key0 sys0 deleted_conn]
  show "ensures (ConnectionReconciler_Reconcile used_env key0 sys0) sys0 (\<lambda>(res, err) tr.
     res = \<lparr>RequeueAfter = progressPeriod\<rparr> \<and> err = None \<and> list_all (\<lambda>e. \<not> is_kube_write e) tr)"
    using used
    by (simp add: lib0_ok used_env_def unused_env_def deleted_conn_def referenced_def no_resources_def user_project_def
        resource0_def)
  show "ensures (ConnectionReconciler_Reconcile unused_env key0 sys0) sys0 (\<lambda>(res, err) tr.
     res = no_requeue \<and> (\<exists>e. filter is_kube_write tr = [e] \<and> drops_finalizer lib0 deleted_conn e))"
    using unused
    by (simp add: lib0_ok unused_env_def deleted_conn_def referenced_def no_resources_def)
qed

text \<open>C21: a rotated token is tested, and used from then on. If the token Secret has another version
  than the one the cached client was built from, the check of the connection reads the Secret, builds
  a client with the token that is in it now, tests that client, and leaves it in the cache under
  the new version, which is the one it puts in the status.\<close>

theorem rotated_token_tested:
  assumes version: "fst (e_secret_meta E (secret_key conn) (world s)) = Inr v"
    and new: "v \<noteq> ocst_ObservedSecretResourceVersion (o_status conn)"
    and cached: "clients s (om_Name (o_meta conn)) = Some (client_spec conn, old)"
    and token: "\<And>w. fst (e_secret E (secret_key conn) w) = Inr secret"
      "TrimSpace (map_get (sec_Data secret) (skr_Key (ocs_TokenSecretRef (o_spec conn)))) = token" "token \<noteq> ''''"
    and client: "e_new_client E (client_options conn token) = Inr oc"
  shows "\<exists>err conn' s' tr u. checkConnection E conn s = Some ((err, conn'), s') \<and> trace s' = trace s @ tr
     \<and> tr = [Kube (KGetMetadata SecretKind (secret_key conn)) None, Kube (KGet SecretKind (secret_key conn)) None,
           Oxide oc CurrentUserView u]
     \<and> ocst_ObservedSecretResourceVersion (o_status conn') = v
     \<and> clients s' (om_Name (o_meta conn)) = Some (client_spec conn', oc)"
proof -
  let ?c = "conn\<lparr>o_status := (o_status conn)\<lparr>ocst_ObservedSecretResourceVersion := v\<rparr>\<rparr>"
  have "client_spec conn \<noteq> client_spec ?c"
    using new by (simp add: client_spec_def)
  with assms show ?thesis
    by (auto simp: checkConnection_def ClientFor_def newClient_def oxide_def perform_def Let_def secret_key_def
        client_options_def client_spec_def split: sum.split)
qed

definition rotated :: "(nat, unit) env" where
  "rotated = env0\<lparr>e_secret_meta := (\<lambda>_ w. (Inr ''2'', w)),
     e_secret := (\<lambda>_ w. (Inr \<lparr>sec_ResourceVersion = ''2'', sec_Data = [''token'' \<mapsto> ''t'']\<rparr>, w))\<rparr>"

theorem rotated_token_tested_witness:
  "\<exists>err conn' s' tr u. checkConnection rotated conn0 sys1 = Some ((err, conn'), s') \<and> trace s' = trace sys1 @ tr
     \<and> tr = [Kube (KGetMetadata SecretKind (secret_key conn0)) None, Kube (KGet SecretKind (secret_key conn0)) None,
           Oxide 0 CurrentUserView u]
     \<and> ocst_ObservedSecretResourceVersion (o_status conn') = ''2''
     \<and> clients s' (om_Name (o_meta conn0)) = Some (client_spec conn', 0)"
  by (rule rotated_token_tested [where old = 7 and token = "''t''"])
    (auto simp: rotated_def conn0_def sys1_def env0_def map_get_def TrimSpace_def is_space_def)

end
