(* ===== verification/Instance_Fetcher.thy ===== *)
theory Instance_Fetcher
  imports Oxide_Client Go_Ints
begin

text \<open>
  \<^verbatim>\<open>pkg/oxideclient/fetcher.go\<close>: what the external watcher asks of the operator to find instances
  that drifted from their spec. The watcher passes values of type \<^verbatim>\<open>any\<close>; the model's \<open>any\<close> has the
  types the fetcher makes and tests for, and the rest.
\<close>

section \<open>Values\<close>

record instance_key =
  ik_Connection :: string
  ik_Project :: string
  ik_Name :: string

record drift_state =
  st_NCPUs :: int
  st_Memory :: int
  st_RunState :: string

text \<open>A pointer to an instance may be nil.\<close>

datatype any =
    AnyNil
  | AnyKey instance_key
  | AnyInstance "ox_instance option"
  | AnyState drift_state
  | AnyOther string  \<comment> \<open>a value of another type, with the name \<^verbatim>\<open>%T\<close> prints\<close>

fun any_type :: "any \<Rightarrow> string" where
  "any_type AnyNil = ''<nil>''"
| "any_type (AnyKey _) = ''oxideclient.InstanceKey''"
| "any_type (AnyInstance _) = ''*oxide.Instance''"
| "any_type (AnyState _) = ''oxideclient.InstanceState''"
| "any_type (AnyOther t) = t"

definition runState :: "lib \<Rightarrow> instance_state \<Rightarrow> string" where
  "runState l st =
     (case st of
        InstanceStateRunning \<Rightarrow> RunStateRunning
      | InstanceStateStarting \<Rightarrow> RunStateRunning
      | InstanceStateRebooting \<Rightarrow> RunStateRunning
      | InstanceStateMigrating \<Rightarrow> RunStateRunning
      | InstanceStateStopped \<Rightarrow> RunStateStopped
      | InstanceStateStopping \<Rightarrow> RunStateStopped
      | InstanceStateFailed \<Rightarrow> InstanceStateText l st
      | InstanceStateOther _ \<Rightarrow> InstanceStateText l st)"

section \<open>The fetcher\<close>

definition desired_state :: "instance_obj \<Rightarrow> drift_state" where
  "desired_state inst =
     \<lparr>st_NCPUs = ins_NCPUs (o_spec inst), st_Memory = q_Value (ins_Memory (o_spec inst)),
      st_RunState = ins_RunState (o_spec inst)\<rparr>"

definition observed_state :: "lib \<Rightarrow> ox_instance \<Rightarrow> drift_state" where
  "observed_state l inst =
     \<lparr>st_NCPUs = wrap64 (oin_Ncpus inst), st_Memory = wrap64 (oin_Memory inst),
      st_RunState = runState l (oin_RunState inst)\<rparr>"

definition GetDesiredState ::
  "('c, 'w) env \<Rightarrow> object_key \<Rightarrow> (('c, 'w) sys, any \<times> error option) go" where
  "GetDesiredState E key s = do {
     (r, s) \<leftarrow> kube_get InstanceKind (e_instance E) key s;
     (case r of
        Inl err \<Rightarrow> Some ((AnyNil, Some err), s)
      | Inr inst \<Rightarrow>
          if map_get (om_Annotations (o_meta inst)) ReconcileModeAnnotation = ReconcileModeDisable
          then Some ((AnyNil, None), s)
          else Some ((AnyState (desired_state inst), None), s))
   }"

definition FetchExternalResource ::
  "('c, 'w) env \<Rightarrow> any \<Rightarrow> (('c, 'w) sys, any \<times> error option) go" where
  "FetchExternalResource E objKey s =
     (case objKey of
        AnyKey key \<Rightarrow> do {
          (oc, s) \<leftarrow> NewClientFromRef E (ik_Connection key) s;
          (case oc of
             Inl err \<Rightarrow> Some ((AnyNil, Some err), s)
           | Inr oc \<Rightarrow> do {
               (inst, s) \<leftarrow> oxide (ox_instance (e_oxide E)) oc (InstanceView (ik_Project key) (ik_Name key)) s;
               (case inst of
                  Inl err \<Rightarrow> Some ((AnyInstance None, Some (ShortError err)), s)
                | Inr inst \<Rightarrow> Some ((AnyInstance (Some inst), None), s))
             })
        }
      | _ \<Rightarrow> Some ((AnyNil, Some (Plain (''unexpected resource key type '' @ any_type objKey))), s))"

text \<open>\<open>None\<close> is the nil dereference.\<close>

definition TransformExternalState :: "lib \<Rightarrow> any \<Rightarrow> (any \<times> error option) option" where
  "TransformExternalState l raw =
     (case raw of
        AnyInstance None \<Rightarrow> None
      | AnyInstance (Some inst) \<Rightarrow> Some (AnyState (observed_state l inst), None)
      | _ \<Rightarrow> Some (AnyNil, Some (Plain (''unexpected external state type '' @ any_type raw))))"

definition IsResourceReadyToWatch ::
  "('c, 'w) env \<Rightarrow> object_key \<Rightarrow> (('c, 'w) sys, bool) go" where
  "IsResourceReadyToWatch E key s = do {
     (r, s) \<leftarrow> kube_get InstanceKind (e_instance E) key s;
     (case r of
        Inl err \<Rightarrow> Some (False, s)
      | Inr inst \<Rightarrow> Some (rst_ID (inst_Resource (o_status inst)) \<noteq> '''', s))
   }"

definition UpdateResourceStatus ::
  "('c, 'w) env \<Rightarrow> object_key \<Rightarrow> any \<Rightarrow> (('c, 'w) sys, error option) go" where
  "UpdateResourceStatus E key raw s =
     (case raw of
        AnyInstance external \<Rightarrow> do {
          (r, s) \<leftarrow> kube_get InstanceKind (e_instance E) key s;
          (case r of
             Inl err \<Rightarrow> Some (Some err, s)
           | Inr inst \<Rightarrow>
               (case external of
                  None \<Rightarrow> None
                | Some external \<Rightarrow> do {
                    let base = inst;
                    let inst = inst\<lparr>o_status := (o_status inst)\<lparr>
                      inst_State := InstanceStateText (e_lib E) (oin_RunState external),
                      inst_LastObserved := Some (e_now E (world s))\<rparr>\<rparr>;
                    (p, s) \<leftarrow> kube_patch_status InstanceObj (e_instance E) base inst s;
                    Some (err_of p, s)
                  }))
        }
      | _ \<Rightarrow> Some (Some (Plain (''unexpected external state type '' @ any_type raw)), s))"

definition InstanceConfigExtractor :: "instance_obj \<Rightarrow> instance_key" where
  "InstanceConfigExtractor inst =
     \<lparr>ik_Connection = rs_ConnectionRef (ins_Resource (o_spec inst)),
      ik_Project = ProjectName (ins_ProjectRef (o_spec inst)),
      ik_Name = OxideName (ins_OxideName (o_spec inst)) (o_meta inst)\<rparr>"

section \<open>Facts\<close>

lemma run_state_names [simp]: "RunStateRunning \<noteq> RunStateStopped" "RunStateStopped \<noteq> RunStateRunning"
  by (simp_all add: RunStateRunning_def RunStateStopped_def)

text \<open>The fetcher only reads: no call to Oxide but views, and no update of an object.\<close>

fun is_watch_read :: "'c effect \<Rightarrow> bool" where
  "is_watch_read (Kube (KGet _ _) _) = True"
| "is_watch_read (Oxide _ q _) = is_view q"
| "is_watch_read _ = False"

lemma kube_get_is_watch_read: "is_kube_get e \<Longrightarrow> is_watch_read e"
  by (auto elim!: is_kube_get.elims)

lemma FetchExternalResource_adds: "adds_all (FetchExternalResource E k s) s is_watch_read"
  unfolding FetchExternalResource_def
  by (auto intro!: adds_all_ret adds_all_bind adds_all_oxide
      adds_all_weaken [OF NewClientFromRef_adds_all kube_get_is_watch_read] split: any.split sum.split)

end
