(* ===== verification/Manager.thy ===== *)
theory Manager
  imports Project_Controller Vpc_Subnet_Controller Snapshot_Controller Image_Controller Instance_Controller
    InstanceSet_Controller Connection_Controller Instance_Fetcher
begin

text \<open>
  \<^verbatim>\<open>cmd/main.go\<close>, \<^verbatim>\<open>internal/controller/oxide/predicate.go\<close> and the \<^verbatim>\<open>SetupWithManager\<close> of every
  controller: the flags, the options they become, the nine controllers with what each of them
  watches, and the steps \<^verbatim>\<open>main\<close> takes until the manager runs. controller-runtime itself is a parameter: the
  predicates it provides are fields of \<open>predicates\<close>, and whether a step of \<^verbatim>\<open>main\<close> succeeds is answered
  by a function of the steps taken so far.
\<close>

section \<open>Predicates on updates\<close>

text \<open>A predicate sees the metadata of an object before and after an update.\<close>

type_synonym update_predicate = "object_meta \<Rightarrow> object_meta \<Rightarrow> bool"

record predicates =
  GenerationChanged :: update_predicate
  AnnotationChanged :: update_predicate
  Or :: "update_predicate list \<Rightarrow> update_predicate"

definition changed :: "predicates \<Rightarrow> update_predicate" where
  "changed P = Or P [GenerationChanged P, AnnotationChanged P]"

text \<open>The documented behaviour of the predicates.\<close>

definition predicates_ok :: "predicates \<Rightarrow> bool" where
  "predicates_ok P \<longleftrightarrow>
     (\<forall>old new. GenerationChanged P old new = (om_Generation new \<noteq> om_Generation old))
   \<and> (\<forall>old new. AnnotationChanged P old new = (om_Annotations new \<noteq> om_Annotations old))
   \<and> (\<forall>ps old new. Or P ps old new = list_ex (\<lambda>p. p old new) ps)"

lemma changed_iff:
  "predicates_ok P \<Longrightarrow>
   changed P old new \<longleftrightarrow> om_Generation new \<noteq> om_Generation old \<or> om_Annotations new \<noteq> om_Annotations old"
  by (simp add: changed_def predicates_ok_def)

definition predicates0 :: predicates where
  "predicates0 =
     \<lparr>GenerationChanged = (\<lambda>old new. om_Generation new \<noteq> om_Generation old),
      AnnotationChanged = (\<lambda>old new. om_Annotations new \<noteq> om_Annotations old),
      Or = (\<lambda>ps old new. list_ex (\<lambda>p. p old new) ps)\<rparr>"

lemma predicates0_ok: "predicates_ok predicates0"
  by (simp add: predicates_ok_def predicates0_def)

section \<open>Flags and the external watcher\<close>

text \<open>Durations are in nanoseconds.\<close>

record flags =
  metrics_bind_address :: string
  health_probe_bind_address :: string
  leader_elect :: bool
  metrics_secure :: bool
  metrics_cert_path :: string
  metrics_cert_name :: string
  metrics_cert_key :: string
  enable_http2 :: bool
  instance_poll_interval :: int
  max_concurrent_reconciles :: int

definition default_flags :: flags where
  "default_flags =
     \<lparr>metrics_bind_address = ''0'', health_probe_bind_address = '':8081'', leader_elect = False,
      metrics_secure = True, metrics_cert_path = '''', metrics_cert_name = ''tls.crt'',
      metrics_cert_key = ''tls.key'', enable_http2 = False, instance_poll_interval = 60 * 10 ^ 9,
      max_concurrent_reconciles = 5\<rparr>"

text \<open>The external watcher registers every Instance on its own and again when an update passes the
  filter; it asks the fetcher of theory \<^verbatim>\<open>Instance_Fetcher\<close>.\<close>

record watcher_options =
  DefaultPollInterval :: int
  MetricsName :: string
  AutoRegister :: kind
  ConfigExtractor :: "instance_obj \<Rightarrow> instance_key"
  UpdateFilter :: update_predicate
  ReadinessRetryInterval :: int

definition instanceWatcher :: "flags \<Rightarrow> watcher_options" where
  "instanceWatcher fl =
     \<lparr>DefaultPollInterval = instance_poll_interval fl, MetricsName = ''Instance'', AutoRegister = InstanceKind,
      ConfigExtractor = InstanceConfigExtractor,
      UpdateFilter = (\<lambda>old new. om_Generation old \<noteq> om_Generation new), ReadinessRetryInterval = 20 * 10 ^ 9\<rparr>"

section \<open>Controllers\<close>

text \<open>What a \<^verbatim>\<open>SetupWithManager\<close> hands to \<^verbatim>\<open>Complete\<close>.\<close>

record ('c, 'w) controller =
  ct_For :: kind
  ct_Predicate :: update_predicate
  ct_Owns :: "kind list"
  ct_WatchesMetadata :: "(kind \<times> (object_key \<Rightarrow> (('c, 'w) sys, object_key list) go)) list"
  ct_WatchesRawSource :: "watcher_options option"
  ct_MaxConcurrentReconciles :: "int option"
  ct_Named :: string
  ct_Reconcile :: "object_key \<Rightarrow> (('c, 'w) sys, ctrl_result \<times> error option) go"

text \<open>The builder all of them start from: \<^verbatim>\<open>NewControllerManagedBy\<close>, \<^verbatim>\<open>For\<close> with the predicate, and
  \<^verbatim>\<open>Named\<close>.\<close>

definition controller_for ::
  "predicates \<Rightarrow> kind \<Rightarrow> string \<Rightarrow> (object_key \<Rightarrow> (('c, 'w) sys, ctrl_result \<times> error option) go)
   \<Rightarrow> ('c, 'w) controller" where
  "controller_for P k n r =
     \<lparr>ct_For = k, ct_Predicate = changed P, ct_Owns = [], ct_WatchesMetadata = [], ct_WatchesRawSource = None,
      ct_MaxConcurrentReconciles = None, ct_Named = n, ct_Reconcile = r\<rparr>"

definition ProjectReconciler_SetupWithManager :: "predicates \<Rightarrow> ('c, 'w) env \<Rightarrow> ('c, 'w) controller" where
  "ProjectReconciler_SetupWithManager P E =
     controller_for P ProjectKind ''oxide-project'' (ProjectReconciler_Reconcile E)"

definition VpcReconciler_SetupWithManager :: "predicates \<Rightarrow> ('c, 'w) env \<Rightarrow> ('c, 'w) controller" where
  "VpcReconciler_SetupWithManager P E =
     controller_for P VpcKind ''oxide-vpc'' (VpcReconciler_Reconcile E)"

definition VpcSubnetReconciler_SetupWithManager :: "predicates \<Rightarrow> ('c, 'w) env \<Rightarrow> ('c, 'w) controller" where
  "VpcSubnetReconciler_SetupWithManager P E =
     controller_for P VpcSubnetKind ''oxide-vpcsubnet'' (VpcSubnetReconciler_Reconcile E)"

definition DiskReconciler_SetupWithManager :: "predicates \<Rightarrow> ('c, 'w) env \<Rightarrow> ('c, 'w) controller" where
  "DiskReconciler_SetupWithManager P E =
     controller_for P DiskKind ''oxide-disk'' (DiskReconciler_Reconcile E)"

definition SnapshotReconciler_SetupWithManager :: "predicates \<Rightarrow> ('c, 'w) env \<Rightarrow> ('c, 'w) controller" where
  "SnapshotReconciler_SetupWithManager P E =
     controller_for P SnapshotKind ''oxide-snapshot'' (SnapshotReconciler_Reconcile E)"

definition ImageReconciler_SetupWithManager :: "predicates \<Rightarrow> ('c, 'w) env \<Rightarrow> ('c, 'w) controller" where
  "ImageReconciler_SetupWithManager P E =
     (controller_for P ImageKind ''oxide-image'' (ImageReconciler_Reconcile E))
       \<lparr>ct_MaxConcurrentReconciles := Some 1\<rparr>"

definition InstanceReconciler_SetupWithManager ::
  "predicates \<Rightarrow> ('c, 'w) env \<Rightarrow> watcher_options \<Rightarrow> ('c, 'w) controller" where
  "InstanceReconciler_SetupWithManager P E watcher =
     (controller_for P InstanceKind ''oxide-instance'' (InstanceReconciler_Reconcile E))
       \<lparr>ct_WatchesRawSource := Some watcher\<rparr>"

definition InstanceSetReconciler_SetupWithManager :: "predicates \<Rightarrow> ('c, 'w) env \<Rightarrow> ('c, 'w) controller" where
  "InstanceSetReconciler_SetupWithManager P E =
     (controller_for P InstanceSetKind ''oxide-instanceset'' (InstanceSetReconciler_Reconcile E))
       \<lparr>ct_Owns := [InstanceKind]\<rparr>"

definition ConnectionReconciler_SetupWithManager :: "predicates \<Rightarrow> ('c, 'w) env \<Rightarrow> ('c, 'w) controller" where
  "ConnectionReconciler_SetupWithManager P E =
     (controller_for P OxideConnectionKind ''oxide-oxideconnection'' (ConnectionReconciler_Reconcile E))
       \<lparr>ct_WatchesMetadata := [(SecretKind, connectionsForSecret E)]\<rparr>"

lemmas SetupWithManager_defs = controller_for_def
  ProjectReconciler_SetupWithManager_def VpcReconciler_SetupWithManager_def
  VpcSubnetReconciler_SetupWithManager_def DiskReconciler_SetupWithManager_def
  SnapshotReconciler_SetupWithManager_def ImageReconciler_SetupWithManager_def
  InstanceReconciler_SetupWithManager_def InstanceSetReconciler_SetupWithManager_def
  ConnectionReconciler_SetupWithManager_def

text \<open>The controllers, in the order \<^verbatim>\<open>main\<close> sets them up, with the name it logs if that fails.\<close>

definition controllers :: "predicates \<Rightarrow> ('c, 'w) env \<Rightarrow> flags \<Rightarrow> (string \<times> ('c, 'w) controller) list" where
  "controllers P E fl =
     [(''oxide-oxideconnection'', ConnectionReconciler_SetupWithManager P E),
      (''oxide-project'', ProjectReconciler_SetupWithManager P E),
      (''oxide-instance'', InstanceReconciler_SetupWithManager P E (instanceWatcher fl)),
      (''oxide-disk'', DiskReconciler_SetupWithManager P E),
      (''oxide-vpc'', VpcReconciler_SetupWithManager P E),
      (''oxide-vpcsubnet'', VpcSubnetReconciler_SetupWithManager P E),
      (''oxide-snapshot'', SnapshotReconciler_SetupWithManager P E),
      (''oxide-instanceset'', InstanceSetReconciler_SetupWithManager P E),
      (''oxide-image'', ImageReconciler_SetupWithManager P E)]"

section \<open>Options\<close>

record tls_config =
  NextProtos :: "string list"

definition disableHTTP2 :: "tls_config \<Rightarrow> tls_config" where
  "disableHTTP2 c = c\<lparr>NextProtos := [''http/1.1'']\<rparr>"

definition tlsOpts :: "flags \<Rightarrow> (tls_config \<Rightarrow> tls_config) list" where
  "tlsOpts fl = (if \<not> enable_http2 fl then [disableHTTP2] else [])"

datatype filter_provider = WithAuthenticationAndAuthorization

record metrics_options =
  BindAddress :: string
  SecureServing :: bool
  TLSOpts :: "(tls_config \<Rightarrow> tls_config) list"
  FilterProvider :: "filter_provider option"
  CertDir :: string
  CertName :: string
  KeyName :: string

definition metricsServerOptions :: "flags \<Rightarrow> metrics_options" where
  "metricsServerOptions fl =
     (let opts = \<lparr>BindAddress = metrics_bind_address fl, SecureServing = metrics_secure fl, TLSOpts = tlsOpts fl,
                  FilterProvider = None, CertDir = '''', CertName = '''', KeyName = ''''\<rparr>;
          opts = (if metrics_secure fl
                  then opts\<lparr>FilterProvider := Some WithAuthenticationAndAuthorization\<rparr> else opts)
      in if 0 < length (metrics_cert_path fl)
         then opts\<lparr>CertDir := metrics_cert_path fl, CertName := metrics_cert_name fl, KeyName := metrics_cert_key fl\<rparr>
         else opts)"

record manager_options =
  Metrics :: metrics_options
  HealthProbeBindAddress :: string
  LeaderElection :: bool
  LeaderElectionID :: string
  MaxConcurrentReconciles :: int
  CacheDisableFor :: "kind list"

definition managerOptions :: "flags \<Rightarrow> manager_options" where
  "managerOptions fl =
     \<lparr>Metrics = metricsServerOptions fl, HealthProbeBindAddress = health_probe_bind_address fl,
      LeaderElection = leader_elect fl, LeaderElectionID = ''d29486c8.100vms.com'',
      MaxConcurrentReconciles = max_concurrent_reconciles fl, CacheDisableFor = [SecretKind]\<rparr>"

section \<open>main\<close>

datatype ('c, 'w) boot_step =
    NewManager manager_options
  | Complete "('c, 'w) controller"
  | AddHealthzCheck string
  | AddReadyzCheck string
  | Start

text \<open>\<^verbatim>\<open>main\<close> logs the error of a step that fails, with these words, and exits with 1.\<close>

definition boot_plan :: "predicates \<Rightarrow> ('c, 'w) env \<Rightarrow> flags \<Rightarrow> (('c, 'w) boot_step \<times> string list) list" where
  "boot_plan P E fl =
     [(NewManager (managerOptions fl), [''Failed to start manager''])]
     @ map (\<lambda>(n, c). (Complete c, [''Failed to create controller'', n])) (controllers P E fl)
     @ [(AddHealthzCheck ''healthz'', [''Failed to set up health check'']),
        (AddReadyzCheck ''readyz'', [''Failed to set up ready check'']),
        (Start, [''Failed to run manager''])]"

text \<open>\<open>attempt done step\<close> answers whether \<open>step\<close> succeeds after \<open>done\<close>. The result is the exit code, the
  steps taken, and what was logged.\<close>

type_synonym ('c, 'w) attempt = "('c, 'w) boot_step list \<Rightarrow> ('c, 'w) boot_step \<Rightarrow> error option"

fun boot ::
  "('c, 'w) attempt \<Rightarrow> ('c, 'w) boot_step list \<Rightarrow> (('c, 'w) boot_step \<times> string list) list
   \<Rightarrow> nat \<times> ('c, 'w) boot_step list \<times> string list" where
  "boot attempt taken [] = (0, taken, [])"
| "boot attempt taken ((x, msg) # xs) =
     (case attempt taken x of
        Some err \<Rightarrow> (1, taken @ [x], msg @ [Error err])
      | None \<Rightarrow> boot attempt (taken @ [x]) xs)"

definition main ::
  "predicates \<Rightarrow> ('c, 'w) env \<Rightarrow> flags \<Rightarrow> ('c, 'w) attempt \<Rightarrow> nat \<times> ('c, 'w) boot_step list \<times> string list" where
  "main P E fl attempt = boot attempt [] (boot_plan P E fl)"

section \<open>Facts\<close>

lemma controllers_cases:
  assumes "c \<in> snd ` set (controllers P E fl)"
    and "c = ConnectionReconciler_SetupWithManager P E \<Longrightarrow> Q"
    and "c = ProjectReconciler_SetupWithManager P E \<Longrightarrow> Q"
    and "c = InstanceReconciler_SetupWithManager P E (instanceWatcher fl) \<Longrightarrow> Q"
    and "c = DiskReconciler_SetupWithManager P E \<Longrightarrow> Q"
    and "c = VpcReconciler_SetupWithManager P E \<Longrightarrow> Q"
    and "c = VpcSubnetReconciler_SetupWithManager P E \<Longrightarrow> Q"
    and "c = SnapshotReconciler_SetupWithManager P E \<Longrightarrow> Q"
    and "c = InstanceSetReconciler_SetupWithManager P E \<Longrightarrow> Q"
    and "c = ImageReconciler_SetupWithManager P E \<Longrightarrow> Q"
  shows Q
  using assms by (auto simp: controllers_def)

lemma boot_outcome:
  "boot attempt taken xs = (0, taken @ map fst xs, [])
   \<or> (\<exists>ys x msg zs err. xs = ys @ (x, msg) # zs \<and> attempt (taken @ map fst ys) x = Some err
        \<and> boot attempt taken xs = (1, taken @ map fst ys @ [x], msg @ [Error err]))"
proof (induction attempt taken xs rule: boot.induct)
  case (1 attempt taken)
  then show ?case by simp
next
  case (2 attempt taken x msg xs)
  show ?case
  proof (cases "attempt taken x")
    case None
    from "2.IH" [OF None] show ?thesis
    proof (elim disjE exE conjE)
      assume "boot attempt (taken @ [x]) xs = (0, (taken @ [x]) @ map fst xs, [])"
      with None show ?thesis by simp
    next
      fix ys y m zs err
      assume "xs = ys @ (y, m) # zs" "attempt ((taken @ [x]) @ map fst ys) y = Some err"
        "boot attempt (taken @ [x]) xs = (1, (taken @ [x]) @ map fst ys @ [y], m @ [Error err])"
      with None show ?thesis
        by (intro disjI2 exI [of _ "(x, msg) # ys"] exI [of _ y] exI [of _ m] exI [of _ zs] exI [of _ err]) simp
    qed
  next
    case (Some err)
    then show ?thesis
      by (intro disjI2 exI [of _ "[]"] exI [of _ x] exI [of _ msg] exI [of _ xs] exI [of _ err]) simp
  qed
qed

text \<open>The controllers a run of \<^verbatim>\<open>main\<close> has completed.\<close>

fun completed :: "('c, 'w) boot_step list \<Rightarrow> ('c, 'w) controller list" where
  "completed [] = []"
| "completed (Complete c # xs) = c # completed xs"
| "completed (_ # xs) = completed xs"

lemma completed_append [simp]: "completed (xs @ ys) = completed xs @ completed ys"
  by (induction xs rule: completed.induct) auto

lemma completed_map_Complete [simp]: "completed (map (\<lambda>x. Complete (f x)) xs) = map f xs"
  by (induction xs) auto

lemma completed_plan: "completed (map fst (boot_plan P E fl)) = map snd (controllers P E fl)"
  by (simp add: boot_plan_def comp_def split_def)

section \<open>Properties\<close>

text \<open>C28: \<^verbatim>\<open>main\<close> starts a complete manager or exits with 1. Either every step succeeds: the
  manager is started last, with exactly one controller for each of the nine kinds of resource, all of
  different names. Or a step fails: nothing after it is attempted, so the manager is not running with a
  controller missing, and the last thing logged is that step's error.\<close>

theorem main_starts_complete_manager:
  fixes attempt :: "('c, 'w) attempt"
  shows "case main P E fl attempt of (code, taken, log) \<Rightarrow>
    (if code = 0 then
       last taken = Start \<and> log = []
       \<and> length (completed taken) = 9 \<and> distinct (map ct_Named (completed taken))
       \<and> set (map ct_For (completed taken)) = UNIV - {SecretKind}
     else
       code = 1
       \<and> (\<exists>rest err. map fst (boot_plan P E fl) = taken @ rest
            \<and> attempt (butlast taken) (last taken) = Some err \<and> last log = Error err
            \<and> Start \<notin> set (butlast taken)))"
proof -
  let ?plan = "boot_plan P E fl"
  have kinds: "set (map ct_For (completed (map fst ?plan))) = UNIV - {SecretKind}"
    unfolding completed_plan
    by (auto simp: controllers_def SetupWithManager_defs) (metis kind.exhaust)
  have names: "distinct (map ct_Named (completed (map fst ?plan)))" "length (completed (map fst ?plan)) = 9"
    unfolding completed_plan by (simp_all add: controllers_def SetupWithManager_defs)
  have last: "last (map fst ?plan) = Start"
    by (simp add: boot_plan_def)
  have once: "Start \<notin> set (butlast (map fst ?plan))"
    by (auto simp: boot_plan_def split_def butlast_append)
  show ?thesis
  proof (rule disjE [OF boot_outcome [of attempt "[]" ?plan]], goal_cases)
    case 1
    then show ?case using kinds by (simp add: main_def names last)
  next
    case 2
    then obtain ys x msg zs err where plan: "?plan = ys @ (x, msg) # zs"
      and fail: "attempt (map fst ys) x = Some err"
      and res: "boot attempt [] ?plan = (1, map fst ys @ [x], msg @ [Error err])" by auto
    have "Start \<notin> set (map fst ys)"
      using once by (auto simp: plan butlast_append)
    moreover have "main P E fl attempt = (1, map fst ys @ [x], msg @ [Error err])"
      unfolding main_def by (rule res)
    ultimately show ?case using fail by (simp add: plan)
  qed
qed

end
