(* ===== verification/Api_Registration.thy ===== *)
theory Api_Registration
  imports Manager
begin

text \<open>
  The registration of the API types: \<^verbatim>\<open>api/oxide/v1alpha1/groupversion_info.go\<close>, the \<^verbatim>\<open>init\<close> of every
  \<^verbatim>\<open>*_types.go\<close>, and the \<^verbatim>\<open>init\<close> of \<^verbatim>\<open>cmd/main.go\<close>. The scheme and its builder are apimachinery's: they
  are the fields of \<open>scheme_lib\<close>, and what the code relies on is \<open>scheme_ok\<close>.
\<close>

section \<open>The library\<close>

record group_version =
  gv_Group :: string
  gv_Version :: string

text \<open>The Go types that are registered: those of the objects and of their lists. The kind that a type
  is registered under is the name of its struct.\<close>

datatype go_type = ObjectType kind | ListType kind

fun kind_name :: "kind \<Rightarrow> string" where
  "kind_name ProjectKind = ''Project''"
| "kind_name VpcKind = ''Vpc''"
| "kind_name VpcSubnetKind = ''VpcSubnet''"
| "kind_name DiskKind = ''Disk''"
| "kind_name SnapshotKind = ''Snapshot''"
| "kind_name ImageKind = ''Image''"
| "kind_name InstanceKind = ''Instance''"
| "kind_name InstanceSetKind = ''InstanceSet''"
| "kind_name OxideConnectionKind = ''OxideConnection''"
| "kind_name SecretKind = ''Secret''"

fun struct_name :: "go_type \<Rightarrow> string" where
  "struct_name (ObjectType k) = kind_name k"
| "struct_name (ListType k) = kind_name k @ ''List''"

text \<open>A function that is run on a scheme, and returns its error.\<close>

type_synonym 's scheme_fun = "'s \<Rightarrow> error option \<times> 's"

record ('b, 's) scheme_lib =
  NewScheme :: 's
  NewSchemeBuilder :: "'s scheme_fun list \<Rightarrow> 'b"
  builder_Register :: "'b \<Rightarrow> 's scheme_fun list \<Rightarrow> 'b"
  builder_AddToScheme :: "'b \<Rightarrow> 's scheme_fun"
  AddToGroupVersion :: "'s \<Rightarrow> group_version \<Rightarrow> 's"
  AddKnownTypes :: "'s \<Rightarrow> group_version \<Rightarrow> go_type list \<Rightarrow> 's"
  clientgo_AddToScheme :: "'s scheme_fun"
  KnownTypes :: "'s \<Rightarrow> group_version \<Rightarrow> string \<Rightarrow> go_type option"

section \<open>groupversion_info.go\<close>

definition SchemeGroupVersion :: group_version where
  "SchemeGroupVersion = \<lparr>gv_Group = ''oxide.100vms.com'', gv_Version = ''v1alpha1''\<rparr>"

definition GroupVersion :: group_version where
  "GroupVersion = SchemeGroupVersion"

definition SchemeBuilder :: "('b, 's) scheme_lib \<Rightarrow> 'b" where
  "SchemeBuilder S = NewSchemeBuilder S [\<lambda>scheme. (None, AddToGroupVersion S scheme SchemeGroupVersion)]"

section \<open>The init functions\<close>

text \<open>Each takes the builder as it is and leaves it with one more function.\<close>

definition disk_init :: "('b, 's) scheme_lib \<Rightarrow> 'b \<Rightarrow> 'b" where
  "disk_init S b = builder_Register S b
     [\<lambda>s. (None, AddKnownTypes S s SchemeGroupVersion [ObjectType DiskKind, ListType DiskKind])]"

definition image_init :: "('b, 's) scheme_lib \<Rightarrow> 'b \<Rightarrow> 'b" where
  "image_init S b = builder_Register S b
     [\<lambda>s. (None, AddKnownTypes S s SchemeGroupVersion [ObjectType ImageKind, ListType ImageKind])]"

definition instance_init :: "('b, 's) scheme_lib \<Rightarrow> 'b \<Rightarrow> 'b" where
  "instance_init S b = builder_Register S b
     [\<lambda>s. (None, AddKnownTypes S s SchemeGroupVersion [ObjectType InstanceKind, ListType InstanceKind])]"

definition instanceset_init :: "('b, 's) scheme_lib \<Rightarrow> 'b \<Rightarrow> 'b" where
  "instanceset_init S b = builder_Register S b
     [\<lambda>s. (None, AddKnownTypes S s SchemeGroupVersion [ObjectType InstanceSetKind, ListType InstanceSetKind])]"

definition oxideconnection_init :: "('b, 's) scheme_lib \<Rightarrow> 'b \<Rightarrow> 'b" where
  "oxideconnection_init S b = builder_Register S b
     [\<lambda>s. (None, AddKnownTypes S s SchemeGroupVersion [ObjectType OxideConnectionKind, ListType OxideConnectionKind])]"

definition project_init :: "('b, 's) scheme_lib \<Rightarrow> 'b \<Rightarrow> 'b" where
  "project_init S b = builder_Register S b
     [\<lambda>s. (None, AddKnownTypes S s SchemeGroupVersion [ObjectType ProjectKind, ListType ProjectKind])]"

definition snapshot_init :: "('b, 's) scheme_lib \<Rightarrow> 'b \<Rightarrow> 'b" where
  "snapshot_init S b = builder_Register S b
     [\<lambda>s. (None, AddKnownTypes S s SchemeGroupVersion [ObjectType SnapshotKind, ListType SnapshotKind])]"

definition vpc_init :: "('b, 's) scheme_lib \<Rightarrow> 'b \<Rightarrow> 'b" where
  "vpc_init S b = builder_Register S b
     [\<lambda>s. (None, AddKnownTypes S s SchemeGroupVersion [ObjectType VpcKind, ListType VpcKind])]"

definition vpcsubnet_init :: "('b, 's) scheme_lib \<Rightarrow> 'b \<Rightarrow> 'b" where
  "vpcsubnet_init S b = builder_Register S b
     [\<lambda>s. (None, AddKnownTypes S s SchemeGroupVersion [ObjectType VpcSubnetKind, ListType VpcSubnetKind])]"

text \<open>Go runs the \<^verbatim>\<open>init\<close> functions of a package in the order of its files.\<close>

definition inits :: "('b, 's) scheme_lib \<Rightarrow> ('b \<Rightarrow> 'b) list" where
  "inits S = [disk_init S, image_init S, instance_init S, instanceset_init S, oxideconnection_init S,
     project_init S, snapshot_init S, vpc_init S, vpcsubnet_init S]"

text \<open>\<^verbatim>\<open>AddToScheme\<close> is a method value of the variable \<^verbatim>\<open>SchemeBuilder\<close>, taken by its address: it sees
  what was registered after it was made.\<close>

definition AddToScheme :: "('b, 's) scheme_lib \<Rightarrow> 's scheme_fun" where
  "AddToScheme S = builder_AddToScheme S (fold (\<lambda>f b. f b) (inits S) (SchemeBuilder S))"

text \<open>The \<^verbatim>\<open>init\<close> of \<^verbatim>\<open>cmd/main.go\<close>: \<^verbatim>\<open>utilruntime.Must\<close> panics on an error.\<close>

definition main_init :: "('b, 's) scheme_lib \<Rightarrow> 's option" where
  "main_init S =
     (case clientgo_AddToScheme S (NewScheme S) of
        (Some _, _) \<Rightarrow> None
      | (None, scheme) \<Rightarrow>
          (case AddToScheme S scheme of
             (Some _, _) \<Rightarrow> None
           | (None, scheme) \<Rightarrow> Some scheme))"

section \<open>What the code relies on\<close>

text \<open>A builder runs its functions in order until one fails.\<close>

fun run_all :: "'s scheme_fun list \<Rightarrow> 's scheme_fun" where
  "run_all [] s = (None, s)"
| "run_all (f # fs) s = (case f s of (Some e, s') \<Rightarrow> (Some e, s') | (None, s') \<Rightarrow> run_all fs s')"

definition core_v1 :: group_version where
  "core_v1 = \<lparr>gv_Group = '''', gv_Version = ''v1''\<rparr>"

text \<open>The documented behaviour: of the builder; of \<^verbatim>\<open>AddKnownTypes\<close>, which registers each type under the
  name of its struct; of \<^verbatim>\<open>AddToGroupVersion\<close>, which adds the option and event kinds of the group and
  leaves the others alone; and of client-go's scheme, which has the Secret of the core group.\<close>

definition scheme_ok :: "('b, 's) scheme_lib \<Rightarrow> bool" where
  "scheme_ok S \<longleftrightarrow>
     (\<forall>fs. builder_AddToScheme S (NewSchemeBuilder S fs) = run_all fs)
   \<and> (\<forall>b fs s. builder_AddToScheme S (builder_Register S b fs) s =
        (case builder_AddToScheme S b s of (Some e, s') \<Rightarrow> (Some e, s') | (None, s') \<Rightarrow> run_all fs s'))
   \<and> (\<forall>s gv ts gv' n. KnownTypes S (AddKnownTypes S s gv ts) gv' n =
        (if gv' = gv \<and> n \<in> struct_name ` set ts then List.find (\<lambda>t. struct_name t = n) ts
         else KnownTypes S s gv' n))
   \<and> (\<forall>s gv gv' t. KnownTypes S (AddToGroupVersion S s gv) gv' (struct_name t) = KnownTypes S s gv' (struct_name t))
   \<and> (\<forall>s s'. clientgo_AddToScheme S s = (None, s') \<longrightarrow>
        KnownTypes S s' core_v1 (kind_name SecretKind) = Some (ObjectType SecretKind))"

text \<open>The group of a kind.\<close>

definition group_of :: "kind \<Rightarrow> group_version" where
  "group_of k = (if k = SecretKind then core_v1 else GroupVersion)"

definition kinds_of :: "('c, 'w) controller \<Rightarrow> kind list" where
  "kinds_of c = ct_For c # ct_Owns c @ map fst (ct_WatchesMetadata c)"

section \<open>Facts\<close>

lemma scheme_okD:
  assumes "scheme_ok S"
  shows "builder_AddToScheme S (NewSchemeBuilder S fs) = run_all fs"
    and "builder_AddToScheme S (builder_Register S b fs) s =
        (case builder_AddToScheme S b s of (Some e, s') \<Rightarrow> (Some e, s') | (None, s') \<Rightarrow> run_all fs s')"
    and "KnownTypes S (AddKnownTypes S s gv ts) gv' n =
        (if gv' = gv \<and> n \<in> struct_name ` set ts then List.find (\<lambda>t. struct_name t = n) ts
         else KnownTypes S s gv' n)"
    and "KnownTypes S (AddToGroupVersion S s gv) gv' (struct_name t) = KnownTypes S s gv' (struct_name t)"
    and "clientgo_AddToScheme S s = (None, s') \<Longrightarrow>
        KnownTypes S s' core_v1 (kind_name SecretKind) = Some (ObjectType SecretKind)"
  using assms unfolding scheme_ok_def by blast+

lemma kind_name_inject [simp]: "kind_name k = kind_name k' \<longleftrightarrow> k = k'"
  by (cases k; cases k'; simp)

lemma kind_name_no_list [simp]: "kind_name k \<noteq> kind_name k' @ ''List''"
  by (cases k; cases k'; simp)

lemma struct_name_inject: "struct_name t = struct_name t' \<longleftrightarrow> t = t'"
  by (cases t; cases t') (auto dest: sym)

text \<open>What is registered: the scheme is the one of client-go with a list of types added.\<close>

definition registered :: "kind list" where
  "registered = [DiskKind, ImageKind, InstanceKind, InstanceSetKind, OxideConnectionKind, ProjectKind,
     SnapshotKind, VpcKind, VpcSubnetKind]"

definition register_kind :: "('b, 's) scheme_lib \<Rightarrow> kind \<Rightarrow> 's \<Rightarrow> 's" where
  "register_kind S k s = AddKnownTypes S s SchemeGroupVersion [ObjectType k, ListType k]"

lemma AddToScheme_registers:
  "scheme_ok S \<Longrightarrow> AddToScheme S s = (None, fold (register_kind S) registered (AddToGroupVersion S s SchemeGroupVersion))"
  by (simp add: AddToScheme_def inits_def SchemeBuilder_def scheme_okD(1,2) registered_def register_kind_def
      disk_init_def image_init_def instance_init_def instanceset_init_def oxideconnection_init_def
      project_init_def snapshot_init_def vpc_init_def vpcsubnet_init_def)

lemma known_after:
  assumes "scheme_ok S"
  shows "KnownTypes S (fold (register_kind S) ks s) gv (struct_name t) =
    (if gv = SchemeGroupVersion \<and> (\<exists>k \<in> set ks. t = ObjectType k \<or> t = ListType k) then Some t
     else KnownTypes S s gv (struct_name t))"
proof (induction ks arbitrary: s)
  case Nil
  then show ?case by simp
next
  case (Cons k ks)
  have "KnownTypes S (register_kind S k s) gv (struct_name t) =
      (if gv = SchemeGroupVersion \<and> (t = ObjectType k \<or> t = ListType k) then Some t else KnownTypes S s gv (struct_name t))"
    by (auto simp: register_kind_def scheme_okD(3) [OF assms] struct_name_inject simp del: struct_name.simps)
  then show ?case unfolding fold.simps comp_apply Cons.IH by auto
qed

lemma registered_all: "k \<in> set registered \<longleftrightarrow> k \<noteq> SecretKind"
  by (cases k) (simp_all add: registered_def)

lemma not_core: "core_v1 \<noteq> SchemeGroupVersion"
  by (simp add: core_v1_def SchemeGroupVersion_def)

section \<open>Properties\<close>

text \<open>C27: the scheme knows every type that the controllers handle. \<^verbatim>\<open>init\<close> panics only if client-go's
  own registration fails; otherwise, whatever kind a controller reconciles, owns or watches, the scheme
  has the kind under its group and version with the right Go type, and the list of it too if it is a
  kind of the operator; no two of these types have one name.\<close>

theorem scheme_knows_every_kind:
  assumes ok: "scheme_ok S"
    and c: "c \<in> snd ` set (controllers P E fl)" and k: "k \<in> set (kinds_of c)"
  shows "(case main_init S of
       None \<Rightarrow> fst (clientgo_AddToScheme S (NewScheme S)) \<noteq> None
     | Some s \<Rightarrow>
         KnownTypes S s (group_of k) (struct_name (ObjectType k)) = Some (ObjectType k)
         \<and> (k = SecretKind \<or> KnownTypes S s (group_of k) (struct_name (ListType k)) = Some (ListType k)))
     \<and> inj struct_name"
proof -
  have inj: "inj struct_name"
    by (rule injI) (simp add: struct_name_inject)
  obtain err s1 where s1: "clientgo_AddToScheme S (NewScheme S) = (err, s1)" by fastforce
  show ?thesis
  proof (cases err)
    case (Some e)
    with s1 inj show ?thesis by (simp add: main_init_def)
  next
    case None
    let ?s = "fold (register_kind S) registered (AddToGroupVersion S s1 SchemeGroupVersion)"
    have s: "main_init S = Some ?s"
      using s1 None by (simp add: main_init_def AddToScheme_registers [OF ok])
    have secret: "KnownTypes S ?s core_v1 (struct_name (ObjectType SecretKind)) = Some (ObjectType SecretKind)"
      using scheme_okD(5) [OF ok s1 [unfolded None]]
      unfolding known_after [OF ok] scheme_okD(4) [OF ok] by (simp add: not_core)
    have own: "KnownTypes S ?s GroupVersion (struct_name t) = Some t"
      if "k \<noteq> SecretKind" "t = ObjectType k \<or> t = ListType k" for t
      using that unfolding known_after [OF ok] by (auto simp: GroupVersion_def registered_all)
    show ?thesis
      using secret own inj by (cases "k = SecretKind") (auto simp: s group_of_def simp del: struct_name.simps)
  qed
qed

text \<open>A scheme that is a map, and a builder that is a list.\<close>

type_synonym scheme0 = "group_version \<Rightarrow> string \<Rightarrow> go_type option"

definition scheme_lib0 :: "(scheme0 scheme_fun list, scheme0) scheme_lib" where
  "scheme_lib0 =
     \<lparr>NewScheme = (\<lambda>_ _. None), NewSchemeBuilder = id, builder_Register = (@), builder_AddToScheme = run_all,
      AddToGroupVersion = (\<lambda>s _. s),
      AddKnownTypes = (\<lambda>s gv ts gv' n.
        if gv' = gv \<and> n \<in> struct_name ` set ts then List.find (\<lambda>t. struct_name t = n) ts else s gv' n),
      clientgo_AddToScheme = (\<lambda>s. (None, s(core_v1 := [''Secret'' \<mapsto> ObjectType SecretKind]))),
      KnownTypes = id\<rparr>"

lemma run_all_append:
  "run_all (fs @ gs) s = (case run_all fs s of (Some e, s') \<Rightarrow> (Some e, s') | (None, s') \<Rightarrow> run_all gs s')"
  by (induction fs arbitrary: s) (auto split: prod.split option.split)

lemma scheme_lib0_ok: "scheme_ok scheme_lib0"
  by (simp add: scheme_ok_def scheme_lib0_def run_all_append)

theorem scheme_knows_every_kind_witness:
  "case main_init scheme_lib0 of
     None \<Rightarrow> False
   | Some s \<Rightarrow> KnownTypes scheme_lib0 s GroupVersion ''DiskList'' = Some (ListType DiskKind)"
proof -
  have c: "DiskReconciler_SetupWithManager predicates0 env0 \<in> snd ` set (controllers predicates0 env0 default_flags)"
    by (simp add: controllers_def)
  have k: "DiskKind \<in> set (kinds_of (DiskReconciler_SetupWithManager predicates0 env0))"
    by (simp add: kinds_of_def SetupWithManager_defs)
  have no_err: "fst (clientgo_AddToScheme scheme_lib0 (NewScheme scheme_lib0)) = None"
    by (simp add: scheme_lib0_def)
  from scheme_knows_every_kind [OF scheme_lib0_ok c k] no_err show ?thesis
    by (auto simp: group_of_def split: option.splits)
qed

end
