(* ===== verification/Client_Cache.thy ===== *)
theory Client_Cache
  imports Oxide_Client
begin

text \<open>
  The property of the cache of Oxide clients, \<^verbatim>\<open>pkg/oxideclient/client.go\<close>: two uses of a
  connection share a client exactly as long as the connection and its token have not changed.
\<close>

text \<open>The client \<open>oc\<close> was built from the connection's Secret as it is in \<open>w\<close>.\<close>

definition built_now :: "('c, 'w) env \<Rightarrow> oxideconnection \<Rightarrow> 'w \<Rightarrow> 'c \<Rightarrow> bool" where
  "built_now E conn w oc \<longleftrightarrow>
     (\<exists>secret. fst (e_secret E (secret_key conn) w) = Inr secret
        \<and> e_new_client E (client_options conn
             (TrimSpace (map_get (sec_Data secret) (skr_Key (ocs_TokenSecretRef (o_spec conn)))))) = Inr oc)"

definition same_version :: "oxideconnection \<Rightarrow> oxideconnection \<Rightarrow> bool" where
  "same_version c d \<longleftrightarrow>
     om_UID (o_meta c) = om_UID (o_meta d) \<and> om_Generation (o_meta c) = om_Generation (o_meta d)
     \<and> ocst_ObservedSecretResourceVersion (o_status c) = ocst_ObservedSecretResourceVersion (o_status d)"

text \<open>C17: a client is reused exactly while its connection is unchanged. After a client was handed
  out for a connection, the next call for a connection of that name hands out the same client, with no
  effect at all, if it has the same UID, the same generation and the same observed version of the token
  Secret; and if any of the three differs, a client that it hands out has been built from the
  Secret's present token.\<close>

theorem client_reused_while_unchanged:
  assumes first: "ClientFor E c s = Some (Inr oc, s1)" and name: "om_Name (o_meta d) = om_Name (o_meta c)"
    and "CHR ''/'' \<notin> set (om_UID (o_meta c))" and "CHR ''/'' \<notin> set (om_UID (o_meta d))"
  shows "if same_version c d then ClientFor E d s1 = Some (Inr oc, s1)
    else case ClientFor E d s1 of
           Some (Inr oc', s2) \<Rightarrow> built_now E d (world s1) oc' \<and> clients s2 (om_Name (o_meta d)) = Some (client_spec d, oc')
         | Some (Inl err, s2) \<Rightarrow> clients s2 = clients s1
         | None \<Rightarrow> False"
proof (cases "same_version c d")
  case True
  with client_spec_eq_iff [OF assms(3,4)] have "client_spec d = client_spec c" by (simp add: same_version_def)
  with oxide_cache.fetch_again [OF first, of d] name True show ?thesis by simp
next
  case False
  with client_spec_eq_iff [OF assms(3,4)] have tag: "client_spec c \<noteq> client_spec d" by (simp add: same_version_def)
  have cached: "clients s1 (om_Name (o_meta d)) = Some (client_spec c, oc)"
    using oxide_cache.fetch_tag [OF first] name by simp
  obtain r s2 where r: "ClientFor E d s1 = Some (r, s2)"
    using ClientFor_no_panic [of E d s1] by auto
  show ?thesis
  proof (cases r)
    case (Inl err)
    with r False oxide_cache.fetch_fails [of E d s1 err s2] show ?thesis by simp
  next
    case (Inr oc')
    have "built_now E d (world s1) oc'"
      using ClientFor_rebuilds [of E d s1 oc' s2] r Inr cached tag
      by (auto simp: built_now_def)
    with r Inr False oxide_cache.fetch_tag [of E d s1 oc' s2] show ?thesis by simp
  qed
qed

theorem client_reused_while_unchanged_witness: "ClientFor (connected env0) conn0 sys1 = Some (Inr 7, sys1)"
proof -
  have first: "ClientFor (connected env0) conn0 sys1 = Some (Inr 7, sys1)"
    by (rule oxide_cache.fetch_fresh) (simp add: sys1_def conn0_def)
  from client_reused_while_unchanged [OF first, of conn0] show ?thesis
    by (simp add: same_version_def conn0_def meta0_def)
qed

end
