(* ===== verification/Client_Lock.thy ===== *)
theory Client_Lock
  imports Client_Cache
begin

text \<open>
  The mutex of \<^verbatim>\<open>pkg/oxideclient/client.go\<close>. Every controller reconciles several objects at a time
  (\<^verbatim>\<open>max-concurrent-reconciles\<close>), and all of them share one map of clients. Here \<^verbatim>\<open>ClientFor\<close> is taken
  apart into the steps of a goroutine, and any number of goroutines and the outside world take steps
  in any order. The theory shows that this is the same as calls of \<open>ClientFor\<close> one after the other,
  which is how the rest of the development has them.
\<close>

section \<open>Goroutines in ClientFor\<close>

text \<open>Where a goroutine is: outside; at \<^verbatim>\<open>clientsMu.Lock()\<close>; past it; past \<^verbatim>\<open>newClient\<close> with its result.\<close>

datatype (plugins only: code size) 'c point =
    Outside
  | Locking oxideconnection
  | Locked oxideconnection
  | Built oxideconnection "error + 'c"

type_synonym goroutine = nat

text \<open>The calls that have returned, in the order of their \<^verbatim>\<open>Unlock\<close>: the goroutine, the connection and
  the result. Nothing reads it.\<close>

type_synonym 'c answers = "(goroutine \<times> oxideconnection \<times> (error + 'c)) list"

record ('c, 'w) process =
  memory :: "('c, 'w) sys"
  clientsMu :: "goroutine option"
  points :: "goroutine \<Rightarrow> 'c point"
  answers :: "'c answers"

definition idle :: "('c, 'w) sys \<Rightarrow> ('c, 'w) process" where
  "idle s = \<lparr>memory = s, clientsMu = None, points = (\<lambda>_. Outside), answers = []\<rparr>"

text \<open>The cache has the client that the connection asks for.\<close>

definition cached :: "('c, 'w) sys \<Rightarrow> oxideconnection \<Rightarrow> 'c option" where
  "cached s conn =
     (case clients s (om_Name (o_meta conn)) of
        Some (spec, oc) \<Rightarrow> if spec = client_spec conn then Some oc else None
      | None \<Rightarrow> None)"

definition stored :: "oxideconnection \<Rightarrow> 'c \<Rightarrow> ('c, 'w) sys \<Rightarrow> ('c, 'w) sys" where
  "stored conn oc s = s\<lparr>clients := (clients s)(om_Name (o_meta conn) \<mapsto> (client_spec conn, oc))\<rparr>"

text \<open>The \<^verbatim>\<open>return\<close> of a call, with the deferred \<^verbatim>\<open>Unlock\<close>.\<close>

definition returned ::
  "goroutine \<Rightarrow> oxideconnection \<Rightarrow> error + 'c \<Rightarrow> ('c, 'w) process \<Rightarrow> ('c, 'w) process" where
  "returned t conn r p =
     p\<lparr>clientsMu := None, points := (points p)(t := Outside), answers := answers p @ [(t, conn, r)]\<rparr>"

inductive step :: "('c, 'w) env \<Rightarrow> ('c, 'w) process \<Rightarrow> ('c, 'w) process \<Rightarrow> bool" for E where
  call: "points p t = Outside \<Longrightarrow> step E p (p\<lparr>points := (points p)(t := Locking conn)\<rparr>)"
| lock: "points p t = Locking conn \<Longrightarrow> clientsMu p = None \<Longrightarrow>
    step E p (p\<lparr>clientsMu := Some t, points := (points p)(t := Locked conn)\<rparr>)"
| hit: "points p t = Locked conn \<Longrightarrow> cached (memory p) conn = Some oc \<Longrightarrow>
    step E p (returned t conn (Inr oc) p)"
| miss: "points p t = Locked conn \<Longrightarrow> cached (memory p) conn = None \<Longrightarrow>
    newClient E conn (memory p) = Some (r, s') \<Longrightarrow>
    step E p (p\<lparr>memory := s', points := (points p)(t := Built conn r)\<rparr>)"
| fail: "points p t = Built conn (Inl err) \<Longrightarrow> step E p (returned t conn (Inl err) p)"
| store: "points p t = Built conn (Inr oc) \<Longrightarrow>
    step E p (returned t conn (Inr oc) (p\<lparr>memory := stored conn oc (memory p)\<rparr>))"
| elsewhere: "step E p (p\<lparr>memory := (memory p)\<lparr>world := w, trace := trace (memory p) @ tr\<rparr>\<rparr>)"

inductive run :: "('c, 'w) env \<Rightarrow> ('c, 'w) process \<Rightarrow> ('c, 'w) process \<Rightarrow> bool" for E where
  stay: "run E p p"
| move: "run E p q \<Longrightarrow> step E q r \<Longrightarrow> run E p r"

section \<open>Calls one after the other\<close>

text \<open>The specification: \<open>ClientFor\<close> is one step.\<close>

inductive atomic :: "('c, 'w) env \<Rightarrow> ('c, 'w) sys \<Rightarrow> ('c, 'w) sys \<times> 'c answers \<Rightarrow> bool" for E s where
  start: "atomic E s (s, [])"
| serve: "atomic E s (s1, as) \<Longrightarrow> ClientFor E conn s1 = Some (r, s2) \<Longrightarrow> atomic E s (s2, as @ [(t, conn, r)])"
| elsewhere: "atomic E s (s1, as) \<Longrightarrow> atomic E s (s1\<lparr>world := w, trace := trace s1 @ tr\<rparr>, as)"

text \<open>What a process looks like to such a run: a client that has been built is already in the map.\<close>

definition settled_memory :: "('c, 'w) process \<Rightarrow> ('c, 'w) sys \<times> 'c answers" where
  "settled_memory p =
     (case clientsMu p of
        None \<Rightarrow> (memory p, answers p)
      | Some t \<Rightarrow>
          (case points p t of
             Built conn r \<Rightarrow>
               (case r of Inl _ \<Rightarrow> memory p | Inr oc \<Rightarrow> stored conn oc (memory p), answers p @ [(t, conn, r)])
           | _ \<Rightarrow> (memory p, answers p)))"

text \<open>Between \<^verbatim>\<open>Lock\<close> and \<^verbatim>\<open>Unlock\<close>.\<close>

fun inside :: "'c point \<Rightarrow> bool" where
  "inside (Locked _) = True"
| "inside (Built _ _) = True"
| "inside _ = False"

definition exclusive :: "('c, 'w) process \<Rightarrow> bool" where
  "exclusive p \<longleftrightarrow> (\<forall>t. inside (points p t) = (clientsMu p = Some t))"

section \<open>Mutual exclusion\<close>

lemma exclusive_idle: "exclusive (idle s)"
  by (simp add: exclusive_def idle_def)

lemma exclusive_changes:
  assumes "exclusive p"
  shows "\<not> inside (points p t) \<Longrightarrow> \<not> inside x \<Longrightarrow> exclusive (p\<lparr>points := (points p)(t := x)\<rparr>)"
    and "clientsMu p = None \<Longrightarrow> inside x \<Longrightarrow> exclusive (p\<lparr>clientsMu := Some t, points := (points p)(t := x)\<rparr>)"
    and "inside (points p t) \<Longrightarrow> inside x \<Longrightarrow> exclusive (p\<lparr>memory := m, points := (points p)(t := x)\<rparr>)"
    and "inside (points p t) \<Longrightarrow> exclusive (returned t conn r p)"
    and "exclusive (p\<lparr>memory := m\<rparr>)"
  using assms by (simp_all add: exclusive_def returned_def)

lemma exclusive_step: "step E p q \<Longrightarrow> exclusive p \<Longrightarrow> exclusive q"
  by (induction rule: step.induct) (simp_all add: exclusive_changes)

lemma exclusive_run: "run E p q \<Longrightarrow> exclusive p \<Longrightarrow> exclusive q"
  by (induction rule: run.induct) (auto intro: exclusive_step)

section \<open>Simulation\<close>

lemma ClientFor_hit: "cached s conn = Some oc \<Longrightarrow> ClientFor E conn s = Some (Inr oc, s)"
  by (auto simp: cached_def ClientFor_def split: option.splits if_splits)

lemma ClientFor_miss:
  "cached s conn = None \<Longrightarrow> newClient E conn s = Some (r, s') \<Longrightarrow>
   ClientFor E conn s = Some (r, case r of Inl _ \<Rightarrow> s' | Inr oc \<Rightarrow> stored conn oc s')"
  by (auto simp: cached_def ClientFor_def stored_def Let_def split: option.splits if_splits sum.splits)

lemma held: "exclusive p \<Longrightarrow> inside (points p t) \<Longrightarrow> clientsMu p = Some t"
  by (simp add: exclusive_def)

lemma atomic_step:
  assumes "step E p q" and "exclusive p" and "atomic E s (settled_memory p)"
  shows "atomic E s (settled_memory q)"
  using assms
proof (induction rule: step.induct)
  case (call p t conn)
  then have "settled_memory (p\<lparr>points := (points p)(t := Locking conn)\<rparr>) = settled_memory p"
    by (auto simp: settled_memory_def split: option.split point.split sum.split)
  with call show ?case by simp
next
  case (lock p t conn)
  then show ?case by (simp add: settled_memory_def)
next
  case (hit p t conn oc)
  with held [of p t] have "atomic E s (memory p, answers p)" by (simp add: settled_memory_def)
  from atomic.serve [OF this ClientFor_hit] hit show ?case
    by (simp add: settled_memory_def returned_def)
next
  case (miss p t conn r s')
  with held [of p t] have "clientsMu p = Some t" "atomic E s (memory p, answers p)"
    by (simp_all add: settled_memory_def)
  with atomic.serve [OF this(2) ClientFor_miss] miss show ?case
    by (simp add: settled_memory_def)
next
  case (fail p t conn err)
  with held [of p t] show ?case by (simp add: settled_memory_def returned_def)
next
  case (store p t conn oc)
  with held [of p t] show ?case by (simp add: settled_memory_def returned_def)
next
  case (elsewhere p tr w)
  obtain s1 as where s1: "settled_memory p = (s1, as)" by (cases "settled_memory p")
  have "settled_memory (p\<lparr>memory := (memory p)\<lparr>world := w, trace := trace (memory p) @ tr\<rparr>\<rparr>)
      = (s1\<lparr>world := w, trace := trace s1 @ tr\<rparr>, as)"
    using s1 by (auto simp: settled_memory_def stored_def split: option.splits point.splits sum.splits)
  with atomic.elsewhere [of E s s1 as tr w] elsewhere s1 show ?case by simp
qed

lemma atomic_run: "run E p q \<Longrightarrow> exclusive p \<Longrightarrow> atomic E s (settled_memory p) \<Longrightarrow> atomic E s (settled_memory q)"
  by (induction rule: run.induct) (auto intro: atomic_step exclusive_run)

section \<open>Every call returns\<close>

lemma newClient_no_panic: "newClient E conn s \<noteq> None"
  by (auto simp: newClient_def perform_def Let_def split: sum.split)

lemma run_trans: "run E q r \<Longrightarrow> run E p q \<Longrightarrow> run E p r"
  by (induction rule: run.induct) (auto intro: run.move)

lemma run_step: "step E p q \<Longrightarrow> run E p q"
  by (rule run.move [OF run.stay])

text \<open>Whoever holds the mutex can go on and give it back, and no other goroutine moves.\<close>

lemma inside_returns:
  assumes "exclusive p" and "clientsMu p = Some t"
  shows "\<exists>q conn r. run E p q \<and> exclusive q \<and> clientsMu q = None \<and> points q = (points p)(t := Outside)
    \<and> (points p t = Locked conn \<or> points p t = Built conn r) \<and> answers q = answers p @ [(t, conn, r)]"
proof -
  have built: "\<exists>q. run E p q \<and> exclusive q \<and> clientsMu q = None \<and> points q = (points p)(t := Outside)
      \<and> answers q = answers p @ [(t, conn, r)]"
    if "points p t = Built conn r" "exclusive p" for p :: "('a, 'b) process" and conn r
  proof (cases r)
    case (Inl err)
    from step.fail [of p t conn err E] that Inl show ?thesis
      by (intro exI [of _ "returned t conn r p"]) (auto simp: returned_def intro: run_step exclusive_step)
  next
    case (Inr oc)
    from step.store [of p t conn oc E] that Inr show ?thesis
      by (intro exI [of _ "returned t conn r (p\<lparr>memory := stored conn oc (memory p)\<rparr>)"])
        (auto simp: returned_def intro: run_step exclusive_step)
  qed
  have "inside (points p t)" using assms by (simp add: exclusive_def)
  then consider conn where "points p t = Locked conn" | conn r where "points p t = Built conn r"
    by (cases "points p t") auto
  then show ?thesis
  proof cases
    case (1 conn)
    show ?thesis
    proof (cases "cached (memory p) conn")
      case (Some oc)
      from step.hit [of p t conn oc E] 1 Some assms(1) show ?thesis
        by (intro exI [of _ "returned t conn (Inr oc) p"] exI [of _ conn] exI [of _ "Inr oc"])
          (auto simp: returned_def intro: run_step exclusive_step)
    next
      case None
      obtain r s' where r: "newClient E conn (memory p) = Some (r, s')"
        using newClient_no_panic [of E conn "memory p"] by auto
      let ?p = "p\<lparr>memory := s', points := (points p)(t := Built conn r)\<rparr>"
      have p: "step E p ?p" using 1 None r by (rule step.miss)
      have "\<exists>q. run E ?p q \<and> exclusive q \<and> clientsMu q = None \<and> points q = (points ?p)(t := Outside)
          \<and> answers q = answers ?p @ [(t, conn, r)]"
        by (rule built) (use exclusive_step [OF p assms(1)] in simp_all)
      then show ?thesis using 1 run_step [OF p] run_trans by fastforce
    qed
  next
    case (2 conn r)
    with built [OF 2 assms(1)] show ?thesis by blast
  qed
qed

text \<open>So a goroutine that waits for the mutex, or holds it, returns if it is let run.\<close>

lemma waiting_returns:
  assumes "exclusive p" and "points p t = Locking conn"
  shows "\<exists>q r. run E p q \<and> points q t = Outside \<and> (t, conn, r) \<in> set (answers q)"
proof -
  have free: "\<exists>q r. run E p q \<and> points q t = Outside \<and> (t, conn, r) \<in> set (answers q)"
    if p: "exclusive p" "points p t = Locking conn" "clientsMu p = None" for p
  proof -
    let ?p = "p\<lparr>clientsMu := Some t, points := (points p)(t := Locked conn)\<rparr>"
    have s: "step E p ?p" using p by (intro step.lock)
    have "exclusive ?p" by (rule exclusive_step [OF s p(1)])
    from inside_returns [OF this, of t E] obtain q r where
      "run E ?p q" "points q = (points ?p)(t := Outside)" "answers q = answers p @ [(t, conn, r)]"
      by auto
    with run_trans [OF _ run_step [OF s]] show ?thesis by fastforce
  qed
  show ?thesis
  proof (cases "clientsMu p")
    case None
    with free assms show ?thesis by blast
  next
    case (Some u)
    from inside_returns [OF assms(1) Some, of E] obtain q where q: "run E p q" "exclusive q" "clientsMu q = None"
        "points q = (points p)(u := Outside)" by blast
    have "u \<noteq> t" using assms Some by (auto simp: exclusive_def dest: spec [of _ t])
    with q(4) assms(2) have "points q t = Locking conn" by simp
    from free [OF q(2) this q(3)] q(1) run_trans show ?thesis by metis
  qed
qed

section \<open>What is handed out\<close>

text \<open>The client \<open>oc\<close> was built for this connection, from a token that its Secret had at some moment.\<close>

definition genuine :: "('c, 'w) env \<Rightarrow> oxideconnection \<Rightarrow> 'c \<Rightarrow> bool" where
  "genuine E conn oc \<longleftrightarrow> (\<exists>w. built_now E conn w oc)"

definition same_tag :: "oxideconnection \<Rightarrow> oxideconnection \<Rightarrow> bool" where
  "same_tag c d \<longleftrightarrow> om_Name (o_meta c) = om_Name (o_meta d) \<and> client_spec c = client_spec d"

definition traceable :: "('c, 'w) env \<Rightarrow> ('c, 'w) sys \<times> 'c answers \<Rightarrow> bool" where
  "traceable E = (\<lambda>(s, as).
     (\<forall>n tag oc. clients s n = Some (tag, oc) \<longrightarrow>
        (\<exists>t c. (t, c, Inr oc) \<in> set as \<and> om_Name (o_meta c) = n \<and> client_spec c = tag \<and> genuine E c oc))
     \<and> (\<forall>t d oc. (t, d, Inr oc) \<in> set as \<longrightarrow> (\<exists>t' c. (t', c, Inr oc) \<in> set as \<and> same_tag c d \<and> genuine E c oc)))"

lemma ClientFor_traceable:
  assumes "ClientFor E conn s = Some (r, s')" and "traceable E (s, as)"
  shows "traceable E (s', as @ [(t, conn, r)])"
proof (cases r)
  case (Inl err)
  with assms oxide_cache.fetch_fails [of E conn s err s'] show ?thesis
    by (fastforce simp: traceable_def)
next
  case (Inr oc)
  note run = assms(1) [unfolded Inr]
  have here: "\<exists>t' c. (t', c, Inr oc) \<in> set (as @ [(t, conn, r)]) \<and> same_tag c conn \<and> genuine E c oc"
  proof (cases "\<exists>oc. clients s (om_Name (o_meta conn)) = Some (client_spec conn, oc)")
    case True
    then have "clients s (om_Name (o_meta conn)) = Some (client_spec conn, oc)"
      using oxide_cache.fetch_fresh [of s conn _ E] run by auto
    with assms(2) show ?thesis by (fastforce simp: traceable_def same_tag_def)
  next
    case False
    with ClientFor_rebuilds [OF run] have "genuine E conn oc"
      by (auto simp: genuine_def built_now_def intro!: exI [of _ "world s"])
    with Inr show ?thesis by (auto simp: same_tag_def intro!: exI [of _ t] exI [of _ conn])
  qed
  let ?as = "as @ [(t, conn, r)]"
  have old: "\<exists>t' c. (t', c, Inr oc') \<in> set ?as \<and> om_Name (o_meta c) = n \<and> client_spec c = tag \<and> genuine E c oc'"
    if "clients s n = Some (tag, oc')" for n tag oc'
    using assms(2) that by (fastforce simp: traceable_def)
  have cache: "\<exists>t' c. (t', c, Inr oc') \<in> set ?as \<and> om_Name (o_meta c) = n \<and> client_spec c = tag \<and> genuine E c oc'"
    if "clients s' n = Some (tag, oc')" for n tag oc'
  proof (cases "n = om_Name (o_meta conn)")
    case True
    with that have "tag = client_spec conn" "oc' = oc" by (simp_all add: oxide_cache.fetch_stores [OF run])
    with here True show ?thesis unfolding same_tag_def by metis
  next
    case False
    with that old show ?thesis by (simp add: oxide_cache.fetch_stores [OF run])
  qed
  have "\<exists>t' c. (t', c, Inr oc') \<in> set ?as \<and> same_tag c d \<and> genuine E c oc'" if "(u, d, Inr oc') \<in> set ?as" for u d oc'
  proof (cases "(u, d, Inr oc') \<in> set as")
    case True
    with assms(2) show ?thesis by (fastforce simp: traceable_def)
  next
    case False
    with that Inr here show ?thesis by simp
  qed
  with cache show ?thesis unfolding traceable_def by blast
qed

lemma atomic_traceable: "atomic E s x \<Longrightarrow> clients s = (\<lambda>_. None) \<Longrightarrow> traceable E x"
proof (induction rule: atomic.induct)
  case start
  then show ?case by (simp add: traceable_def)
next
  case (serve s1 as conn r s2 t)
  then show ?case by (blast intro: ClientFor_traceable)
next
  case (elsewhere s1 as w tr)
  then show ?case by (simp add: traceable_def)
qed

text \<open>A run without its last answer is a run.\<close>

lemma atomic_butlast: "atomic E s x \<Longrightarrow> snd x = as @ [a] \<Longrightarrow> \<exists>s1. atomic E s (s1, as)"
proof (induction rule: atomic.induct)
  case start
  then show ?case by simp
next
  case (serve s1 as' conn r s2 t)
  then show ?case by auto
next
  case (elsewhere s1 as' w tr)
  then show ?case by simp
qed

lemma answered_run: "atomic E s (settled_memory p) \<Longrightarrow> \<exists>s1. atomic E s (s1, answers p)"
  using atomic_butlast [of E s "settled_memory p" "answers p"]
  by (auto simp: settled_memory_def split: option.splits point.splits)

section \<open>Properties\<close>

text \<open>C9: concurrent uses of the cache of clients are as good as one after the other. Let any
  number of goroutines call \<^verbatim>\<open>ClientFor\<close> at any time, take their steps in any order, and the outside
  world change in between. Then the goroutine that holds the mutex is the only one between \<^verbatim>\<open>Lock\<close> and
  \<^verbatim>\<open>Unlock\<close>; the cache, the effects and the answers so far, in the order they were given, are those of
  a run in which each call is a single step; and every goroutine that waits for the mutex can be let run
  to its answer.\<close>

theorem concurrent_clients_as_if_alone:
  assumes "run E (idle s) p"
  shows "inside (points p t) = (clientsMu p = Some t)
    \<and> atomic E s (settled_memory p)
    \<and> (case points p t of
         Locking conn \<Rightarrow> \<exists>q r. run E p q \<and> points q t = Outside \<and> (t, conn, r) \<in> set (answers q)
       | _ \<Rightarrow> True)"
proof (intro conjI)
  note p = exclusive_run [OF assms exclusive_idle]
  from p show "inside (points p t) = (clientsMu p = Some t)" by (simp add: exclusive_def)
  have "atomic E s (settled_memory (idle s))"
    by (simp add: settled_memory_def idle_def atomic.start)
  with atomic_run [OF assms exclusive_idle] show "atomic E s (settled_memory p)" by blast
  show "case points p t of
           Locking conn \<Rightarrow> \<exists>q r. run E p q \<and> points q t = Outside \<and> (t, conn, r) \<in> set (answers q)
         | _ \<Rightarrow> True"
    using waiting_returns [OF p] by (simp split: point.split)
qed

text \<open>Two goroutines ask for the client of one connection; the first has built it while the second waits.\<close>

definition token_env :: "(nat, unit) env" where
  "token_env = (connected env0)\<lparr>e_secret :=
     (\<lambda>_ w. (Inr \<lparr>sec_ResourceVersion = ''1'', sec_Data = [''token'' \<mapsto> ''t'']\<rparr>, w))\<rparr>"

definition crowded :: "(nat, unit) process" where
  "crowded =
     \<lparr>memory = logged sys0 () (Kube (KGet SecretKind (secret_key conn0)) None), clientsMu = Some 0,
      points = (\<lambda>_. Outside)(0 := Built conn0 (Inr 0), 1 := Locking conn0), answers = []\<rparr>"

lemma token_env_client: "newClient token_env conn0 sys0 = Some (Inr 0, memory crowded)"
  by (simp add: newClient_def perform_def token_env_def connected_def env0_def conn0_def map_get_def TrimSpace_def
      is_space_def sys0_def crowded_def Let_def)

lemma run_crowded: "run token_env (idle sys0) crowded"
proof -
  let ?p1 = "(idle sys0 :: (nat, unit) process)\<lparr>points := (\<lambda>_. Outside)(0 := Locking conn0)\<rparr>"
  let ?p2 = "?p1\<lparr>points := (points ?p1)(1 := Locking conn0)\<rparr>"
  let ?p3 = "?p2\<lparr>clientsMu := Some 0, points := (points ?p2)(0 := Locked conn0)\<rparr>"
  let ?p4 = "?p3\<lparr>memory := memory crowded, points := (points ?p3)(0 := Built conn0 (Inr 0))\<rparr>"
  have s1: "step token_env (idle sys0) ?p1"
    using step.call [of "idle sys0" 0 token_env conn0] by (simp add: idle_def)
  have s2: "step token_env ?p1 ?p2" by (rule step.call) (simp add: idle_def)
  have s3: "step token_env ?p2 ?p3" by (rule step.lock) (simp_all add: idle_def)
  have s4: "step token_env ?p3 ?p4"
    by (rule step.miss) (simp_all add: idle_def cached_def sys0_def token_env_client [unfolded sys0_def])
  have "?p4 = crowded"
    by (simp add: idle_def crowded_def fun_eq_iff)
  moreover have "run token_env (idle sys0) ?p4"
    by (rule run.move [OF run.move [OF run.move [OF run_step [OF s1] s2] s3] s4])
  ultimately show ?thesis by simp
qed

theorem concurrent_clients_as_if_alone_witness:
  "atomic token_env sys0 (settled_memory crowded) \<and> snd (settled_memory crowded) = [(0, conn0, Inr 0)]
   \<and> (\<exists>q r. run token_env crowded q \<and> (1, conn0, r) \<in> set (answers q))"
  using concurrent_clients_as_if_alone [OF run_crowded, of 1]
  by (auto simp: crowded_def settled_memory_def)

text \<open>The versions of connections that the API server has handed out: UIDs have no slash, and the
  generation of an object changes with its spec.\<close>

definition history :: "oxideconnection set \<Rightarrow> bool" where
  "history H \<longleftrightarrow>
     (\<forall>c \<in> H. CHR ''/'' \<notin> set (om_UID (o_meta c)))
   \<and> (\<forall>c \<in> H. \<forall>d \<in> H. om_UID (o_meta c) = om_UID (o_meta d) \<and> om_Generation (o_meta c) = om_Generation (o_meta d) \<longrightarrow>
        o_spec c = o_spec d)"

lemma same_tag_genuine:
  assumes "history H" and "c \<in> H" and "d \<in> H" and "same_tag c d" and "genuine E c oc"
  shows "genuine E d oc"
proof -
  have uid: "CHR ''/'' \<notin> set (om_UID (o_meta c))" "CHR ''/'' \<notin> set (om_UID (o_meta d))"
    using assms(1-3) unfolding history_def by blast+
  have "client_spec c = client_spec d" using assms(4) unfolding same_tag_def by blast
  then have "om_UID (o_meta c) = om_UID (o_meta d) \<and> om_Generation (o_meta c) = om_Generation (o_meta d)"
    unfolding client_spec_eq_iff [OF uid] by blast
  then have "o_spec c = o_spec d" using assms(1-3) unfolding history_def by blast
  with assms(5) show ?thesis
    by (simp add: genuine_def built_now_def secret_key_def client_options_def)
qed

text \<open>C8: no reconcile is ever given a client of another connection, or of an older version of
  its connection. Start with an empty cache, and let any number of goroutines call \<^verbatim>\<open>ClientFor\<close> in any
  interleaving, for whatever versions of whatever connections, also ones that were deleted and made
  again under the same name. Then every client that was handed out was built with the host and the TLS
  setting of the very spec that the call was made with, and with a token that the Secret named in that
  spec held at some moment.\<close>

theorem clients_handed_out_genuine:
  assumes "run E (idle s) p" and "clients s = (\<lambda>_. None)"
    and "history H" and "\<And>t c r. (t, c, r) \<in> set (answers p) \<Longrightarrow> c \<in> H"
    and "(t, conn, Inr oc) \<in> set (answers p)"
  shows "\<exists>w secret. fst (e_secret E (secret_key conn) w) = Inr secret
    \<and> e_new_client E (client_options conn
         (TrimSpace (map_get (sec_Data secret) (skr_Key (ocs_TokenSecretRef (o_spec conn)))))) = Inr oc"
proof -
  have "atomic E s (settled_memory p)"
    by (rule atomic_run [OF assms(1) exclusive_idle]) (simp add: settled_memory_def idle_def atomic.start)
  then obtain s1 where "atomic E s (s1, answers p)" using answered_run by blast
  from atomic_traceable [OF this assms(2)] assms(5) obtain t' c where
    "(t', c, Inr oc) \<in> set (answers p)" "same_tag c conn" "genuine E c oc"
    by (force simp: traceable_def)
  with same_tag_genuine [OF assms(3)] assms(4,5) have "genuine E conn oc" by metis
  then show ?thesis by (auto simp: genuine_def built_now_def)
qed

text \<open>The first of the two goroutines above returns.\<close>

theorem clients_handed_out_genuine_witness:
  "\<exists>p. run token_env (idle sys0) p \<and> (0, conn0, Inr 0) \<in> set (answers p)
     \<and> (\<exists>w secret. fst (e_secret token_env (secret_key conn0) w) = Inr secret
          \<and> e_new_client token_env (client_options conn0
               (TrimSpace (map_get (sec_Data secret) (skr_Key (ocs_TokenSecretRef (o_spec conn0)))))) = Inr 0)"
proof -
  let ?p = "returned 0 conn0 (Inr 0) (crowded\<lparr>memory := stored conn0 0 (memory crowded)\<rparr>)"
  have run: "run token_env (idle sys0) ?p"
    by (rule run.move [OF run_crowded step.store]) (simp add: crowded_def)
  have ans: "answers ?p = [(0, conn0, Inr 0)]" by (simp add: returned_def crowded_def)
  have "\<exists>w secret. fst (e_secret token_env (secret_key conn0) w) = Inr secret
      \<and> e_new_client token_env (client_options conn0
           (TrimSpace (map_get (sec_Data secret) (skr_Key (ocs_TokenSecretRef (o_spec conn0)))))) = Inr 0"
  proof (rule clients_handed_out_genuine [OF run, where H = "{conn0}" and t = 0])
    show "clients sys0 = (\<lambda>_. None)" by (simp add: sys0_def)
    show "history {conn0}" by (simp add: history_def conn0_def meta0_def)
  qed (simp_all add: ans)
  with run ans show ?thesis by (intro exI [of _ ?p]) simp
qed

end
