(* ===== verification/Import_Convergence.thy ===== *)
theory Import_Convergence
  imports Image_Controller
begin

text \<open>
  The Image controller in closed loop with the API server, Oxide and the web server: reconciles of an
  Image with a URL, one after the other, end with an image in Oxide that is the file, wherever an
  earlier import was interrupted. What Oxide does with the import's disk, its snapshot and the image is
  the hypothesis \<open>oxide_imports\<close>; their contents are kept beside them, though Oxide does not report
  them, so that the end can be stated in terms of the bytes of the file.
\<close>

section \<open>What Oxide has for an import\<close>

record import_rack =
  ir_disk :: "ox_disk option"
  ir_disk_bytes :: "nat \<Rightarrow> char"
  ir_snapshot :: "ox_snapshot option"
  ir_snapshot_bytes :: "nat \<Rightarrow> char"
  ir_image :: "ox_image option"
  ir_image_bytes :: "nat \<Rightarrow> char"
  ir_coming :: bool  \<comment> \<open>a finalization under way has yet to make its snapshot\<close>
  ir_due :: nat  \<comment> \<open>how many more looks, at most, find something under way\<close>

definition disk_is :: "disk_state \<Rightarrow> import_rack \<Rightarrow> bool" where
  "disk_is st rack \<longleftrightarrow> (\<exists>d. ir_disk rack = Some d \<and> od_State d = st)"

definition to_state :: "disk_state \<Rightarrow> import_rack \<Rightarrow> import_rack" where
  "to_state st rack = rack\<lparr>ir_disk := map_option (\<lambda>d. d\<lparr>od_State := st\<rparr>) (ir_disk rack)\<rparr>"

lemma to_state_simps [simp]:
  "ir_snapshot (to_state st rack) = ir_snapshot rack" "ir_image (to_state st rack) = ir_image rack"
  "ir_disk_bytes (to_state st rack) = ir_disk_bytes rack" "ir_snapshot_bytes (to_state st rack) = ir_snapshot_bytes rack"
  "ir_image_bytes (to_state st rack) = ir_image_bytes rack" "ir_coming (to_state st rack) = ir_coming rack"
  "ir_due (to_state st rack) = ir_due rack"
  "ir_disk (to_state st rack) = map_option (\<lambda>d. d\<lparr>od_State := st\<rparr>) (ir_disk rack)"
  by (simp_all add: to_state_def)

definition snapshot_ready :: snapshot_state where
  "snapshot_ready = SnapshotStateOther ''ready''"

definition snapshot_is :: "snapshot_state \<Rightarrow> import_rack \<Rightarrow> bool" where
  "snapshot_is st rack \<longleftrightarrow> (\<exists>snap. ir_snapshot rack = Some snap \<and> os_State snap = st)"

text \<open>What Oxide does in the background: it makes a disk ready for the import, finalizes it, and makes
  a snapshot.\<close>

definition pending :: "import_rack \<Rightarrow> bool" where
  "pending rack \<longleftrightarrow>
     disk_is DiskStateCreating rack \<or> disk_is DiskStateFinalizing rack \<or> snapshot_is SnapshotStateCreating rack"

text \<open>Finalizing an import may be done at once or in the background, and it makes a snapshot of the disk
  if it is given a name for one, which may be there at once, be made in the background, or not be
  there yet.\<close>

definition finalized :: "string \<Rightarrow> import_rack \<Rightarrow> import_rack \<Rightarrow> bool" where
  "finalized snapshot rack rack' \<longleftrightarrow>
     (\<exists>st \<in> {DiskStateFinalizing, DiskStateDetached}. \<exists>n.
        if snapshot = '''' then rack' = (to_state st rack)\<lparr>ir_due := n\<rparr>
        else \<exists>snap. (\<forall>sn. snap = Some sn \<longrightarrow> os_State sn \<in> {SnapshotStateCreating, snapshot_ready})
           \<and> (st = DiskStateDetached \<longrightarrow> snap \<noteq> None)
           \<and> rack' = (to_state st rack)\<lparr>ir_snapshot := snap, ir_snapshot_bytes := ir_disk_bytes rack,
               ir_coming := (snap = None), ir_due := n\<rparr>)"

text \<open>An error of Oxide that is not ``not found''.\<close>

definition refused :: "error option \<Rightarrow> bool" where
  "refused r \<longleftrightarrow> (\<exists>h. r = Some (HTTPErr h) \<and> \<not> he_ObjectNotFound h)"

section \<open>The hypotheses\<close>

definition not_found_answer :: "error + 'a \<Rightarrow> bool" where
  "not_found_answer r \<longleftrightarrow> (\<exists>e. r = Inl e \<and> is_object_not_found e)"

definition shows_option :: "'a option \<Rightarrow> error + 'a \<Rightarrow> bool" where
  "shows_option x r \<longleftrightarrow> (case x of None \<Rightarrow> not_found_answer r | Some a \<Rightarrow> r = Inr a)"

text \<open>What is there is shown; an image of the project under the project, one of the silo without it.\<close>

definition oxide_shows ::
  "('c, 'w) env \<Rightarrow> string \<Rightarrow> string \<Rightarrow> string \<Rightarrow> ('w \<Rightarrow> 'o) \<Rightarrow> ('w \<Rightarrow> import_rack) \<Rightarrow> 'c \<Rightarrow> 'w \<Rightarrow> bool" where
  "oxide_shows E p name img held rest oc w \<longleftrightarrow>
     answers (ox_disk (e_oxide E) oc (DiskView p name)) held rest w
       (\<lambda>r rack. rack = rest w \<and> shows_option (ir_disk rack) r)
   \<and> answers (ox_snapshot (e_oxide E) oc (SnapshotView p name)) held rest w
       (\<lambda>r rack. rack = rest w \<and> shows_option (ir_snapshot rack) r)
   \<and> answers (ox_image (e_oxide E) oc (ImageView p img)) held rest w
       (\<lambda>r rack. rack = rest w \<and> (case ir_image rack of
          Some i \<Rightarrow> if oi_ProjectId i \<noteq> '''' then r = Inr i else not_found_answer r
        | None \<Rightarrow> not_found_answer r))
   \<and> answers (ox_image (e_oxide E) oc (ImageView '''' img)) held rest w
       (\<lambda>r rack. rack = rest w \<and> (case ir_image rack of
          Some i \<Rightarrow> if oi_ProjectId i \<noteq> '''' then not_found_answer r else r = Inr i
        | None \<Rightarrow> not_found_answer r))"

text \<open>The requests on the import's disk and snapshot, each accepted in the states that Oxide documents
  for it: a disk that still takes writes can be neither finalized nor deleted. A stop or a
  finalization in another state changes nothing, whatever it answers. A disk that is being finalized may
  be deleted, or the request is refused.\<close>

definition oxide_imports_disk ::
  "('c, 'w) env \<Rightarrow> string \<Rightarrow> string \<Rightarrow> ('w \<Rightarrow> 'o) \<Rightarrow> ('w \<Rightarrow> import_rack) \<Rightarrow> 'c \<Rightarrow> 'w \<Rightarrow> bool" where
  "oxide_imports_disk E p name held rest oc w \<longleftrightarrow>
     (ir_disk (rest w) = None \<longrightarrow>
        (\<forall>body. answers (ox_disk (e_oxide E) oc (DiskCreate p body)) held rest w
          (\<lambda>r rack. \<exists>d n. r = Inr d \<and> od_Size d = dc_Size body \<and> od_State d \<in> {DiskStateCreating, DiskStateImportReady}
             \<and> rack = (rest w)\<lparr>ir_disk := Some d, ir_disk_bytes := blank_disk, ir_due := n\<rparr>)))
   \<and> (disk_is DiskStateImportReady (rest w) \<longrightarrow>
        answers (ox_done (e_oxide E) oc (DiskBulkWriteImportStart p name)) held rest w
          (\<lambda>r rack. r = None \<and> rack = to_state DiskStateImportingFromBulkWrites (rest w)))
   \<and> (disk_is DiskStateImportingFromBulkWrites (rest w) \<longrightarrow>
        (\<forall>b offset. answers (ox_done (e_oxide E) oc (DiskBulkWriteImport p name b offset)) held rest w
          (\<lambda>r rack. r = None
             \<and> rack = (rest w)\<lparr>ir_disk_bytes := disk_write (offset, base64_decode b) (ir_disk_bytes (rest w))\<rparr>)))
   \<and> answers (ox_done (e_oxide E) oc (DiskBulkWriteImportStop p name)) held rest w
        (\<lambda>r rack. if disk_is DiskStateImportingFromBulkWrites (rest w)
                  then r = None \<and> rack = to_state DiskStateImportReady (rest w) else rack = rest w)
   \<and> (\<forall>snapshot. snapshot = '''' \<or> ir_snapshot (rest w) = None \<longrightarrow>
        answers (ox_done (e_oxide E) oc (DiskFinalizeImport p name snapshot)) held rest w
        (\<lambda>r rack. if disk_is DiskStateImportReady (rest w) then r = None \<and> finalized snapshot (rest w) rack
                  else rack = rest w))
   \<and> (ir_disk (rest w) = None \<or> disk_is DiskStateCreating (rest w) \<or> disk_is DiskStateDetached (rest w) \<longrightarrow>
        answers (ox_done (e_oxide E) oc (DiskDelete p name)) held rest w
          (\<lambda>r rack. ok_or_gone r \<and> rack = (rest w)\<lparr>ir_disk := None\<rparr>))
   \<and> (disk_is DiskStateFinalizing (rest w) \<longrightarrow>
        answers (ox_done (e_oxide E) oc (DiskDelete p name)) held rest w
          (\<lambda>r rack. ok_or_gone r \<and> rack = (rest w)\<lparr>ir_disk := None\<rparr> \<or> refused r \<and> rack = rest w))
   \<and> (\<not> snapshot_is SnapshotStateCreating (rest w) \<longrightarrow>
        answers (ox_done (e_oxide E) oc (SnapshotDelete p name)) held rest w
          (\<lambda>r rack. ok_or_gone r \<and> rack = (rest w)\<lparr>ir_snapshot := None\<rparr>))"

text \<open>The requests that make an image of a snapshot, under an ID that is not in use, and move it between
  the project and the silo.\<close>

definition oxide_makes_image ::
  "('c, 'w) env \<Rightarrow> string \<Rightarrow> ('w \<Rightarrow> image option) \<Rightarrow> ('w \<Rightarrow> import_rack) \<Rightarrow> 'c \<Rightarrow> 'w \<Rightarrow> bool" where
  "oxide_makes_image E p held rest oc w \<longleftrightarrow>
     (\<forall>snap body. ir_image (rest w) = None \<and> ir_snapshot (rest w) = Some snap \<and> os_State snap = snapshot_ready
          \<and> imc_SourceSnapshot body = os_Id snap \<longrightarrow>
        answers (ox_image (e_oxide E) oc (ImageCreate p body)) held rest w
          (\<lambda>r rack. \<exists>i. r = Inr i \<and> oi_ProjectId i \<noteq> ''''
             \<and> (\<forall>obj. held w = Some obj \<longrightarrow> oi_Id i \<noteq> rst_ID (ist_Resource (o_status obj)))
             \<and> rack = (rest w)\<lparr>ir_image := Some i, ir_image_bytes := ir_snapshot_bytes (rest w)\<rparr>))
   \<and> (\<forall>i. ir_image (rest w) = Some i \<longrightarrow>
        answers (ox_image (e_oxide E) oc (ImagePromote (oi_Id i))) held rest w
          (\<lambda>r rack. (\<exists>x. r = Inr x) \<and> rack = (rest w)\<lparr>ir_image := Some (i\<lparr>oi_ProjectId := ''''\<rparr>)\<rparr>)
      \<and> answers (ox_image (e_oxide E) oc (ImageDemote p (oi_Id i))) held rest w
          (\<lambda>r rack. (\<exists>x. r = Inr x)
             \<and> (\<exists>pid. pid \<noteq> '''' \<and> rack = (rest w)\<lparr>ir_image := Some (i\<lparr>oi_ProjectId := pid\<rparr>)\<rparr>)))"

text \<open>What time does: as long as something is under way it may stay so or end, but it is under way for
  fewer looks than before; a finalization that has ended has made its snapshot. Otherwise nothing
  changes.\<close>

definition disk_moves :: "disk_state \<Rightarrow> disk_state \<Rightarrow> bool" where
  "disk_moves st st' \<longleftrightarrow> st' = st \<or> st = DiskStateCreating \<and> st' = DiskStateImportReady
     \<or> st = DiskStateFinalizing \<and> st' = DiskStateDetached"

definition snapshot_moves :: "bool \<Rightarrow> ox_snapshot option \<Rightarrow> ox_snapshot option \<Rightarrow> bool" where
  "snapshot_moves coming a b \<longleftrightarrow>
     (case a of
        None \<Rightarrow> b = None \<or> coming \<and> (\<exists>sn. b = Some sn \<and> os_State sn \<in> {SnapshotStateCreating, snapshot_ready})
      | Some sn \<Rightarrow> b = a \<or> os_State sn = SnapshotStateCreating \<and> b = Some (sn\<lparr>os_State := snapshot_ready\<rparr>))"

definition import_moves :: "import_rack \<Rightarrow> import_rack \<Rightarrow> bool" where
  "import_moves rack rack' \<longleftrightarrow>
     (if pending rack
      then (\<exists>st snap n.
          rack' = (to_state st rack)\<lparr>ir_snapshot := snap, ir_coming := (ir_coming rack \<and> snap = None), ir_due := n\<rparr>
        \<and> (\<forall>d. ir_disk rack = Some d \<longrightarrow> disk_moves (od_State d) st)
        \<and> snapshot_moves (ir_coming rack) (ir_snapshot rack) snap
        \<and> (disk_is DiskStateDetached rack' \<longrightarrow> \<not> ir_coming rack')
        \<and> (pending rack' \<longrightarrow> n < ir_due rack))
      else rack' = rack)"

text \<open>The web server has the file, and says how long it is.\<close>

definition web_serves ::
  "('c, 'w) env \<Rightarrow> string \<Rightarrow> char list \<Rightarrow> ('w \<Rightarrow> 'o) \<Rightarrow> ('w \<Rightarrow> import_rack) \<Rightarrow> 'w \<Rightarrow> bool" where
  "web_serves E url file held rest w \<longleftrightarrow>
     e_new_http_request E url = None
   \<and> answers (e_http_do E url) held rest w
       (\<lambda>r rack. rack = rest w
          \<and> (\<exists>resp. r = Inr resp \<and> hr_StatusCode resp = 200 \<and> hr_ContentLength resp = int (length file)
               \<and> rd_bytes (hr_Body resp) = file \<and> rd_end (hr_Body resp) = IoEOF))"

definition oxide_imports ::
  "('c, 'w) env \<Rightarrow> image \<Rightarrow> string \<Rightarrow> char list \<Rightarrow> ('w \<Rightarrow> image option) \<Rightarrow> ('w \<Rightarrow> import_rack) \<Rightarrow> ('w \<Rightarrow> 'w)
   \<Rightarrow> nat \<Rightarrow> bool" where
  "oxide_imports E img name file held rest tick lag \<longleftrightarrow>
     (let p = ProjectName (is_ProjectRef (o_spec img)) in
        connects (NewClientFromRef E (rs_ConnectionRef (is_Resource (o_spec img)))) held rest
      \<and> (\<forall>oc w. oxide_shows E p name (OxideName (is_OxideName (o_spec img)) (o_meta img)) held rest oc w)
      \<and> (\<forall>oc w. oxide_imports_disk E p name held rest oc w)
      \<and> (\<forall>oc w. oxide_makes_image E p held rest oc w)
      \<and> (\<forall>w. web_serves E (is_URL (o_spec img)) file held rest w)
      \<and> (\<forall>w. ir_due (rest w) \<le> lag \<and> held (tick w) = held w \<and> import_moves (rest w) (rest (tick w))))"

section \<open>Steps\<close>

text \<open>The bytes of a disk that only writes of this file have touched.\<close>

definition partly :: "char list \<Rightarrow> (nat \<Rightarrow> char) \<Rightarrow> bool" where
  "partly file bytes \<longleftrightarrow> (\<forall>i. bytes i = zero_byte \<or> bytes i = bytes_at file i)"

text \<open>Where an import of the file can be, also after an interruption at any point.\<close>

definition disk_ok :: "char list \<Rightarrow> import_rack \<Rightarrow> ox_disk \<Rightarrow> bool" where
  "disk_ok file rack d \<longleftrightarrow>
     (if od_State d = DiskStateCreating \<or> od_State d = DiskStateImportReady
      then partly file (ir_disk_bytes rack) \<and> int (length file) \<le> wrap64 (od_Size d)
      else od_State d \<in> {DiskStateImportingFromBulkWrites, DiskStateFinalizing, DiskStateDetached})"

definition import_ok :: "char list \<Rightarrow> import_rack \<Rightarrow> bool" where
  "import_ok file rack \<longleftrightarrow>
     (\<forall>d. ir_disk rack = Some d \<longrightarrow> disk_ok file rack d)
   \<and> (\<forall>snap. ir_snapshot rack = Some snap \<longrightarrow>
        os_State snap \<in> {SnapshotStateCreating, snapshot_ready} \<and> ir_snapshot_bytes rack = bytes_at file)
   \<and> (ir_coming rack \<longrightarrow>
        disk_is DiskStateFinalizing rack \<and> ir_snapshot rack = None \<and> ir_snapshot_bytes rack = bytes_at file)
   \<and> (\<forall>i. ir_image rack = Some i \<longrightarrow>
        ir_image_bytes rack = bytes_at file \<and> \<not> ir_coming rack \<and> \<not> snapshot_is SnapshotStateCreating rack)"

text \<open>How many reconciles are left, at most: to clean up after a snapshot, with a snapshot being made, and
  without one.\<close>

definition clean_time :: "nat \<Rightarrow> import_rack \<Rightarrow> nat" where
  "clean_time lag rack =
     (if disk_is DiskStateFinalizing rack then ir_due rack + 2
      else if disk_is DiskStateImportReady rack \<or> disk_is DiskStateImportingFromBulkWrites rack then lag + 2
      else 1)"

definition wait_time :: "nat \<Rightarrow> import_rack \<Rightarrow> nat" where
  "wait_time lag rack =
     (if disk_is DiskStateCreating rack \<or> disk_is DiskStateImportReady rack
         \<or> disk_is DiskStateImportingFromBulkWrites rack
      then ir_due rack + lag + 3 else ir_due rack + 2)"

definition make_time :: "nat \<Rightarrow> import_rack \<Rightarrow> nat" where
  "make_time lag rack =
     (if ir_disk rack = None then 2 * lag + 3
      else if disk_is DiskStateImportReady rack then lag + 2
      else if disk_is DiskStateCreating rack then ir_due rack + lag + 3
      else if disk_is DiskStateFinalizing rack then if ir_coming rack then ir_due rack + 2 else ir_due rack + 2 * lag + 5
      else if disk_is DiskStateDetached rack then 2 * lag + 4
      else 3 * lag + 5)"

definition import_time :: "nat \<Rightarrow> import_rack \<Rightarrow> nat" where
  "import_time lag rack =
     (if ir_image rack \<noteq> None then clean_time lag rack
      else if ir_snapshot rack = None then make_time lag rack
      else if snapshot_is SnapshotStateCreating rack then wait_time lag rack
      else clean_time lag rack)"

lemmas time_defs = import_time_def clean_time_def wait_time_def make_time_def

lemma import_time_bound:
  "0 < import_time lag rack" "ir_due rack \<le> lag \<Longrightarrow> import_time lag rack \<le> 5 + 3 * lag"
  by (simp_all add: time_defs)

text \<open>What one reconcile makes of it: an image, or progress.\<close>

definition image_made :: "image \<Rightarrow> char list \<Rightarrow> image_status \<Rightarrow> import_rack \<Rightarrow> bool" where
  "image_made img file st rack \<longleftrightarrow>
     (\<exists>i. ir_image rack = Some i \<and> (oi_ProjectId i = '''') = is_Promote (o_spec img)
        \<and> rst_ID (ist_Resource st) = oi_Id i)
     \<and> ir_image_bytes rack = bytes_at file \<and> ir_disk rack = None \<and> ir_snapshot rack = None"

text \<open>After progress, or an error of Oxide, there is less to do once what is under way has gone on.\<close>

definition import_progress :: "nat \<Rightarrow> char list \<Rightarrow> string \<Rightarrow> import_rack \<Rightarrow> error \<Rightarrow> import_rack \<Rightarrow> bool" where
  "import_progress lag file uid rack e rack' \<longleftrightarrow>
     ((\<exists>m. e = Progressing m) \<or> (\<exists>h. e = HTTPErr h))
     \<and> import_ok file rack'
     \<and> (disk_is DiskStateCreating rack' \<longrightarrow> ir_image rack' = None \<and> \<not> snapshot_is snapshot_ready rack')
     \<and> (ir_due rack' \<le> lag \<longrightarrow> import_time lag rack' \<le> import_time lag rack
          \<and> (pending rack' \<or> import_time lag rack' < import_time lag rack))
     \<and> (\<forall>i. ir_image rack' = Some i \<longrightarrow> oi_Id i \<noteq> uid)"

section \<open>The disk\<close>

lemma to_state_gone [simp]: "(to_state st rack)\<lparr>ir_disk := None\<rparr> = rack\<lparr>ir_disk := None\<rparr>"
  by (simp add: to_state_def)

lemma to_state_again [simp]:
  "to_state st (to_state st' rack) = to_state st rack"
  "to_state st (rack\<lparr>ir_disk_bytes := b\<rparr>) = (to_state st rack)\<lparr>ir_disk_bytes := b\<rparr>"
  "to_state st (rack\<lparr>ir_due := n\<rparr>) = (to_state st rack)\<lparr>ir_due := n\<rparr>"
  by (simp_all add: to_state_def option.map_comp comp_def)

lemma disk_is_to_state [simp]:
  "disk_is st (to_state st' rack) \<longleftrightarrow> ir_disk rack \<noteq> None \<and> st = st'"
  by (auto simp: disk_is_def)

lemma disk_is_simps [simp]:
  "disk_is st (rack\<lparr>ir_disk_bytes := b\<rparr>) = disk_is st rack"
  "disk_is st (rack\<lparr>ir_snapshot := x\<rparr>) = disk_is st rack"
  "disk_is st (rack\<lparr>ir_snapshot_bytes := y\<rparr>) = disk_is st rack"
  "disk_is st (rack\<lparr>ir_image := i\<rparr>) = disk_is st rack"
  "disk_is st (rack\<lparr>ir_image_bytes := y\<rparr>) = disk_is st rack"
  "disk_is st (rack\<lparr>ir_coming := c\<rparr>) = disk_is st rack"
  "disk_is st (rack\<lparr>ir_due := n\<rparr>) = disk_is st rack"
  "disk_is st (rack\<lparr>ir_disk := None\<rparr>) \<longleftrightarrow> False"
  "disk_is st (rack\<lparr>ir_disk := Some d\<rparr>) \<longleftrightarrow> od_State d = st"
  by (auto simp: disk_is_def)

lemma snapshot_is_simps [simp]:
  "snapshot_is st (to_state st' rack) = snapshot_is st rack"
  "snapshot_is st (rack\<lparr>ir_disk := d\<rparr>) = snapshot_is st rack"
  "snapshot_is st (rack\<lparr>ir_disk_bytes := b\<rparr>) = snapshot_is st rack"
  "snapshot_is st (rack\<lparr>ir_snapshot_bytes := b\<rparr>) = snapshot_is st rack"
  "snapshot_is st (rack\<lparr>ir_image := i\<rparr>) = snapshot_is st rack"
  "snapshot_is st (rack\<lparr>ir_image_bytes := b\<rparr>) = snapshot_is st rack"
  "snapshot_is st (rack\<lparr>ir_coming := c\<rparr>) = snapshot_is st rack"
  "snapshot_is st (rack\<lparr>ir_due := n\<rparr>) = snapshot_is st rack"
  "snapshot_is st (rack\<lparr>ir_snapshot := None\<rparr>) \<longleftrightarrow> False"
  "snapshot_is st (rack\<lparr>ir_snapshot := Some sn\<rparr>) \<longleftrightarrow> os_State sn = st"
  by (auto simp: snapshot_is_def)

lemma snapshot_ready_not_creating [simp]:
  "snapshot_ready \<noteq> SnapshotStateCreating" "SnapshotStateCreating \<noteq> snapshot_ready"
  by (simp_all add: snapshot_ready_def)

lemma disk_isD: "disk_is st rack \<Longrightarrow> disk_is st' rack \<longleftrightarrow> st' = st" "disk_is st rack \<Longrightarrow> ir_disk rack \<noteq> None"
  by (auto simp: disk_is_def)

text \<open>Time keeps a rack in order, and brings it on if anything is under way.\<close>

lemma import_movesD:
  assumes "import_moves rack rack'" and "pending rack"
  shows "\<exists>st snap n.
    rack' = (to_state st rack)\<lparr>ir_snapshot := snap, ir_coming := (ir_coming rack \<and> snap = None), ir_due := n\<rparr>
    \<and> (\<forall>d. ir_disk rack = Some d \<longrightarrow> disk_moves (od_State d) st)
    \<and> snapshot_moves (ir_coming rack) (ir_snapshot rack) snap
    \<and> (disk_is DiskStateDetached rack' \<longrightarrow> \<not> ir_coming rack') \<and> (pending rack' \<longrightarrow> n < ir_due rack)"
  using assms(1) [unfolded import_moves_def if_P [OF assms(2)]] .

lemma moves_ok:
  assumes ok: "import_ok file rack" and moves: "import_moves rack rack'"
  shows "import_ok file rack'" and "ir_image rack' = ir_image rack"
proof -
  have "import_ok file rack' \<and> ir_image rack' = ir_image rack"
  proof (cases "pending rack")
    case True
    from import_movesD [OF moves this] obtain st snap n where
      rack': "rack' = (to_state st rack)\<lparr>ir_snapshot := snap, ir_coming := (ir_coming rack \<and> snap = None), ir_due := n\<rparr>"
      and disk: "\<And>d. ir_disk rack = Some d \<Longrightarrow> disk_moves (od_State d) st"
      and snap: "snapshot_moves (ir_coming rack) (ir_snapshot rack) snap"
      and coming: "disk_is DiskStateDetached rack' \<Longrightarrow> \<not> ir_coming rack'"
      by blast
    have "disk_ok file rack' d'" if "ir_disk rack' = Some d'" for d'
    proof -
      from that rack' obtain d where d: "ir_disk rack = Some d" "d' = d\<lparr>od_State := st\<rparr>" by auto
      with ok have "disk_ok file rack d" by (simp add: import_ok_def)
      with disk [OF d(1)] show ?thesis by (auto simp: disk_ok_def disk_moves_def d(2) rack' split: if_splits)
    qed
    moreover have "os_State sn \<in> {SnapshotStateCreating, snapshot_ready} \<and> ir_snapshot_bytes rack' = bytes_at file"
      if "ir_snapshot rack' = Some sn" for sn
      using that ok snap by (auto simp: import_ok_def snapshot_moves_def rack' split: option.splits)
    moreover have "disk_is DiskStateFinalizing rack' \<and> ir_snapshot rack' = None \<and> ir_snapshot_bytes rack' = bytes_at file"
      if "ir_coming rack'"
    proof -
      have c: "ir_coming rack" "snap = None" using that rack' by auto
      with ok obtain d where d: "ir_disk rack = Some d" "od_State d = DiskStateFinalizing" "ir_snapshot_bytes rack = bytes_at file"
        by (auto simp: import_ok_def disk_is_def)
      with disk [OF d(1)] coming that show ?thesis by (auto simp: disk_moves_def rack' c)
    qed
    moreover have "ir_image_bytes rack' = bytes_at file \<and> \<not> ir_coming rack' \<and> \<not> snapshot_is SnapshotStateCreating rack'"
      if "ir_image rack' = Some i" for i
      using that ok snap by (auto simp: import_ok_def snapshot_moves_def rack' snapshot_is_def split: option.splits)
    ultimately show ?thesis unfolding import_ok_def using rack' by simp
  next
    case False
    with moves ok show ?thesis by (simp add: import_moves_def)
  qed
  then show "import_ok file rack'" "ir_image rack' = ir_image rack" by simp_all
qed

lemma moves_time:
  assumes ok: "import_ok file rack" and moves: "import_moves rack rack'" and pending: "pending rack"
    and creating: "disk_is DiskStateCreating rack \<Longrightarrow> ir_image rack = None \<and> \<not> snapshot_is snapshot_ready rack"
  shows "import_time lag rack' < import_time lag rack"
proof -
  from import_movesD [OF moves pending] obtain st snap n where
    rack': "rack' = (to_state st rack)\<lparr>ir_snapshot := snap, ir_coming := (ir_coming rack \<and> snap = None), ir_due := n\<rparr>"
    and disk: "\<And>d. ir_disk rack = Some d \<Longrightarrow> disk_moves (od_State d) st"
    and snap: "snapshot_moves (ir_coming rack) (ir_snapshot rack) snap"
    and coming: "disk_is DiskStateDetached rack' \<Longrightarrow> \<not> ir_coming rack'"
    and due: "pending rack' \<Longrightarrow> n < ir_due rack"
    by blast
  have after: "ir_snapshot rack' = snap" "ir_coming rack' = (ir_coming rack \<and> snap = None)" "ir_due rack' = n"
      "ir_image rack' = ir_image rack" "ir_disk rack' = None \<longleftrightarrow> ir_disk rack = None"
    by (simp_all add: rack')
  have image: "ir_image rack \<noteq> None \<Longrightarrow> \<not> ir_coming rack \<and> \<not> snapshot_is SnapshotStateCreating rack"
    using ok by (auto simp: import_ok_def)
  have image': "ir_coming rack \<or> snapshot_is SnapshotStateCreating rack \<Longrightarrow> ir_image rack = None"
    using image by blast
  have none: "ir_snapshot rack \<noteq> None \<Longrightarrow> snap \<noteq> None"
    using snap by (auto simp: snapshot_moves_def split: option.splits)
  have made: "snap \<noteq> None \<Longrightarrow> ir_snapshot rack = None \<Longrightarrow> ir_coming rack"
    using snap by (auto simp: snapshot_moves_def split: option.splits)
  have was: "ir_snapshot rack \<noteq> None \<Longrightarrow> \<not> snapshot_is SnapshotStateCreating rack \<Longrightarrow> snap = ir_snapshot rack"
    using snap by (auto simp: snapshot_moves_def snapshot_is_def split: option.splits)
  have same: "snapshot_is SnapshotStateCreating rack' \<longleftrightarrow> (\<exists>sn. snap = Some sn \<and> os_State sn = SnapshotStateCreating)"
    by (simp add: snapshot_is_def rack')
  have ready: "ir_snapshot rack \<noteq> None \<Longrightarrow> \<not> snapshot_is SnapshotStateCreating rack \<Longrightarrow> snapshot_is snapshot_ready rack"
    using ok by (auto simp: import_ok_def snapshot_is_def)
  have c: "ir_coming rack \<Longrightarrow> disk_is DiskStateFinalizing rack \<and> ir_snapshot rack = None"
    using ok by (simp add: import_ok_def)
  show ?thesis
  proof (cases "ir_disk rack")
    case None
    then have no: "\<And>x. \<not> disk_is x rack" "\<And>x. \<not> disk_is x rack'" by (simp_all add: disk_is_def rack')
    from pending no have creating: "snapshot_is SnapshotStateCreating rack" by (simp add: pending_def)
    then have "ir_snapshot rack \<noteq> None" "snap \<noteq> None" using none by (auto simp: snapshot_is_def)
    with no creating image' due show ?thesis by (auto simp: time_defs after pending_def)
  next
    case (Some d)
    then have dk: "\<And>x. disk_is x rack \<longleftrightarrow> od_State d = x" "\<And>x. disk_is x rack' \<longleftrightarrow> st = x"
      by (simp_all add: disk_is_def rack')
    from ok Some consider (creating) "od_State d = DiskStateCreating" | (finalizing) "od_State d = DiskStateFinalizing"
      | (idle) "od_State d \<in> {DiskStateImportReady, DiskStateImportingFromBulkWrites, DiskStateDetached}"
      by (auto simp: import_ok_def disk_ok_def split: if_splits)
    then show ?thesis
    proof cases
      case creating
      then have i: "ir_image rack = None" "\<not> snapshot_is snapshot_ready rack" "\<not> ir_coming rack"
        using dk assms(4) c by auto
      have st: "st = DiskStateCreating \<or> st = DiskStateImportReady" using disk [OF Some] creating by (auto simp: disk_moves_def)
      show ?thesis
      proof (cases "ir_snapshot rack")
        case None
        with i made have "snap = None" by blast
        with None i st due dk show ?thesis by (auto simp: time_defs after creating Some pending_def)
      next
        case (Some sn)
        with ready i none have "snapshot_is SnapshotStateCreating rack" "snap \<noteq> None" by auto
        with Some i st due dk show ?thesis by (auto simp: time_defs after creating \<open>ir_disk rack = Some d\<close> pending_def)
      qed
    next
      case finalizing
      have st: "st = DiskStateFinalizing \<or> st = DiskStateDetached" using disk [OF Some] finalizing by (auto simp: disk_moves_def)
      show ?thesis
      proof (cases "ir_image rack = None")
        case False
        with st due dk image show ?thesis by (auto simp: time_defs after finalizing Some pending_def)
      next
        case True
        show ?thesis
        proof (cases "ir_snapshot rack")
          case None
          have "st = DiskStateDetached \<Longrightarrow> snap = None \<Longrightarrow> \<not> ir_coming rack" using coming dk by (simp add: after)
          with True None made st due dk show ?thesis
            by (cases "snap = None"; cases "ir_coming rack") (auto simp: time_defs after finalizing Some pending_def)
        next
          case (Some sn)
          with none have "snap \<noteq> None" by auto
          with True Some was st due dk show ?thesis
            by (cases "snapshot_is SnapshotStateCreating rack")
              (auto simp: time_defs after finalizing \<open>ir_disk rack = Some d\<close> pending_def)
        qed
      qed
    next
      case idle
      with pending dk have sc: "snapshot_is SnapshotStateCreating rack" by (auto simp: pending_def)
      then have there: "ir_snapshot rack \<noteq> None" "snap \<noteq> None" "ir_image rack = None"
        using none image' by (auto simp: snapshot_is_def)
      have "st = od_State d" using disk [OF Some] idle by (auto simp: disk_moves_def)
      with dk(2) have dk': "\<And>x. disk_is x rack' \<longleftrightarrow> od_State d = x" by simp
      from there idle have now: "import_time lag rack =
          (if od_State d = DiskStateDetached then ir_due rack + 2 else ir_due rack + lag + 3)"
        by (auto simp: import_time_def wait_time_def sc dk(1))
      show ?thesis
      proof (cases "snapshot_is SnapshotStateCreating rack'")
        case True
        with due have "n < ir_due rack" by (simp add: pending_def)
        moreover from there idle True have "import_time lag rack' =
            (if od_State d = DiskStateDetached then n + 2 else n + lag + 3)"
          by (auto simp: import_time_def wait_time_def after dk')
        ultimately show ?thesis by (simp add: now)
      next
        case False
        with there idle have "import_time lag rack' = (if od_State d = DiskStateDetached then 1 else lag + 2)"
          by (auto simp: import_time_def clean_time_def after dk')
        then show ?thesis by (simp add: now)
      qed
    qed
  qed
qed

lemma progress_arrives:
  assumes "import_progress lag file uid rack e rack'" and "import_moves rack' rack''" and "ir_due rack' \<le> lag"
  shows "import_ok file rack''" and "import_time lag rack'' < import_time lag rack"
    and "\<forall>i. ir_image rack'' = Some i \<longrightarrow> oi_Id i \<noteq> uid"
proof -
  from assms(1,3) have p: "import_ok file rack'" "disk_is DiskStateCreating rack' \<Longrightarrow> ir_image rack' = None \<and> \<not> snapshot_is snapshot_ready rack'"
      "import_time lag rack' \<le> import_time lag rack" "pending rack' \<or> import_time lag rack' < import_time lag rack"
      "\<forall>i. ir_image rack' = Some i \<longrightarrow> oi_Id i \<noteq> uid"
    by (simp_all add: import_progress_def)
  show "import_ok file rack''" "\<forall>i. ir_image rack'' = Some i \<longrightarrow> oi_Id i \<noteq> uid"
    using moves_ok [OF p(1) assms(2)] p(5) by simp_all
  show "import_time lag rack'' < import_time lag rack"
  proof (cases "pending rack'")
    case True
    from moves_time [OF p(1) assms(2) this p(2), of lag] p(3) show ?thesis by simp
  next
    case False
    with assms(2) p(4) show ?thesis by (simp add: import_moves_def)
  qed
qed

lemma disk_requests:
  assumes "\<And>oc w. oxide_imports_disk E p name held rest oc w"
  shows "ir_disk (rest (world s)) = None \<Longrightarrow>
      goes (oxide (ox_disk (e_oxide E)) oc (DiskCreate p body) s) held rest s
        (\<lambda>r rack. \<exists>d n. r = Inr d \<and> od_Size d = dc_Size body \<and> od_State d \<in> {DiskStateCreating, DiskStateImportReady}
           \<and> rack = (rest (world s))\<lparr>ir_disk := Some d, ir_disk_bytes := blank_disk, ir_due := n\<rparr>)"
    and "disk_is DiskStateImportReady (rest (world s)) \<Longrightarrow>
      goes (oxide_do E oc (DiskBulkWriteImportStart p name) s) held rest s
        (\<lambda>r rack. r = None \<and> rack = to_state DiskStateImportingFromBulkWrites (rest (world s)))"
    and "disk_is DiskStateImportingFromBulkWrites (rest (world s)) \<Longrightarrow>
      goes (oxide_do E oc (DiskBulkWriteImport p name b offset) s) held rest s
        (\<lambda>r rack. r = None
           \<and> rack = (rest (world s))\<lparr>ir_disk_bytes := disk_write (offset, base64_decode b) (ir_disk_bytes (rest (world s)))\<rparr>)"
    and "goes (oxide_do E oc (DiskBulkWriteImportStop p name) s) held rest s
        (\<lambda>r rack. if disk_is DiskStateImportingFromBulkWrites (rest (world s))
                  then r = None \<and> rack = to_state DiskStateImportReady (rest (world s)) else rack = rest (world s))"
    and "snapshot = '''' \<or> ir_snapshot (rest (world s)) = None \<Longrightarrow>
      goes (oxide_do E oc (DiskFinalizeImport p name snapshot) s) held rest s
        (\<lambda>r rack. if disk_is DiskStateImportReady (rest (world s)) then r = None \<and> finalized snapshot (rest (world s)) rack
                  else rack = rest (world s))"
    and "ir_disk (rest (world s)) = None \<or> disk_is DiskStateCreating (rest (world s)) \<or> disk_is DiskStateDetached (rest (world s)) \<Longrightarrow>
      goes (oxide_do E oc (DiskDelete p name) s) held rest s
        (\<lambda>r rack. ok_or_gone r \<and> rack = (rest (world s))\<lparr>ir_disk := None\<rparr>)"
    and "disk_is DiskStateFinalizing (rest (world s)) \<Longrightarrow>
      goes (oxide_do E oc (DiskDelete p name) s) held rest s
        (\<lambda>r rack. ok_or_gone r \<and> rack = (rest (world s))\<lparr>ir_disk := None\<rparr> \<or> refused r \<and> rack = rest (world s))"
    and "\<not> snapshot_is SnapshotStateCreating (rest (world s)) \<Longrightarrow>
      goes (oxide_do E oc (SnapshotDelete p name) s) held rest s
        (\<lambda>r rack. ok_or_gone r \<and> rack = (rest (world s))\<lparr>ir_snapshot := None\<rparr>)"
  using assms [of oc "world s", unfolded oxide_imports_disk_def]
  by (blast intro: goes_calls)+

text \<open>The clean-up works whatever the interrupted import was doing, unless the disk is still being
  finalized when it is to be deleted.\<close>

definition disposable :: "import_rack \<Rightarrow> bool" where
  "disposable rack \<longleftrightarrow>
     ir_disk rack = None \<or> disk_is DiskStateCreating rack \<or> disk_is DiskStateImportReady rack
     \<or> disk_is DiskStateImportingFromBulkWrites rack \<or> disk_is DiskStateFinalizing rack \<or> disk_is DiskStateDetached rack"

definition still_finalizing :: "import_rack \<Rightarrow> import_rack \<Rightarrow> bool" where
  "still_finalizing rack rack' \<longleftrightarrow>
     disk_is DiskStateFinalizing rack \<and> rack' = rack
     \<or> (disk_is DiskStateImportReady rack \<or> disk_is DiskStateImportingFromBulkWrites rack)
       \<and> (\<exists>n. rack' = (to_state DiskStateFinalizing rack)\<lparr>ir_due := n\<rparr>)"

definition disk_cleared :: "import_rack \<Rightarrow> error option \<Rightarrow> import_rack \<Rightarrow> bool" where
  "disk_cleared rack err rack' \<longleftrightarrow>
     err = None \<and> (\<exists>n. rack' = rack\<lparr>ir_disk := None, ir_due := n\<rparr>)
     \<or> refused err \<and> still_finalizing rack rack'"

lemma refused_kept: "refused err \<Longrightarrow> \<not> not_found_err err"
  by (auto simp: refused_def not_found_err_def is_object_not_found_def)

lemma stop_finalize:
  assumes "disposable rack"
    and "if disk_is DiskStateImportingFromBulkWrites rack then rack1 = to_state DiskStateImportReady rack else rack1 = rack"
    and "if disk_is DiskStateImportReady rack1 then finalized '''' rack1 rack2 else rack2 = rack1"
  shows "(ir_disk rack2 = None \<or> disk_is DiskStateCreating rack2 \<or> disk_is DiskStateDetached rack2)
      \<and> (\<exists>n. rack2\<lparr>ir_disk := None\<rparr> = rack\<lparr>ir_disk := None, ir_due := n\<rparr>)
    \<or> disk_is DiskStateFinalizing rack2 \<and> still_finalizing rack rack2
      \<and> (\<exists>n. rack2\<lparr>ir_disk := None\<rparr> = rack\<lparr>ir_disk := None, ir_due := n\<rparr>)"
proof -
  have same: "\<exists>n. rack\<lparr>ir_disk := None\<rparr> = rack\<lparr>ir_disk := None, ir_due := n\<rparr>"
    by (rule exI [of _ "ir_due rack"]) simp
  consider (idle) "ir_disk rack = None \<or> disk_is DiskStateCreating rack \<or> disk_is DiskStateDetached rack"
    | (fin) "disk_is DiskStateFinalizing rack"
    | (ready) "disk_is DiskStateImportReady rack \<or> disk_is DiskStateImportingFromBulkWrites rack"
    using assms(1) by (auto simp: disposable_def)
  then show ?thesis
  proof cases
    case idle
    then have "\<not> disk_is DiskStateImportingFromBulkWrites rack" "\<not> disk_is DiskStateImportReady rack"
      by (auto simp: disk_is_def)
    with assms(2,3) idle same show ?thesis by simp
  next
    case fin
    with assms(2,3) same show ?thesis by (simp add: disk_isD still_finalizing_def)
  next
    case ready
    then have some: "ir_disk rack \<noteq> None" by (auto simp: disk_is_def)
    have rack1: "disk_is DiskStateImportReady rack1" "\<And>st. to_state st rack1 = to_state st rack"
      using assms(2) ready some by (cases "disk_is DiskStateImportingFromBulkWrites rack"; simp)+
    with assms(3) obtain st n where
      rack2: "st = DiskStateFinalizing \<or> st = DiskStateDetached" "rack2 = (to_state st rack)\<lparr>ir_due := n\<rparr>"
      by (auto simp: finalized_def)
    have gone: "rack2\<lparr>ir_disk := None\<rparr> = rack\<lparr>ir_disk := None, ir_due := n\<rparr>"
      by (simp add: rack2(2) to_state_def)
    from rack2(1) show ?thesis
    proof
      assume "st = DiskStateFinalizing"
      with rack2(2) some ready have "disk_is DiskStateFinalizing rack2" "still_finalizing rack rack2"
        by (auto simp: still_finalizing_def)
      with gone show ?thesis by blast
    next
      assume "st = DiskStateDetached"
      with rack2(2) some have "disk_is DiskStateDetached rack2" by simp
      with gone show ?thesis by blast
    qed
  qed
qed

lemma deleteImportDisk_goes:
  fixes s :: "('c, 'w) sys"
  assumes disk: "\<And>oc w. oxide_imports_disk E p name held rest oc w" and ok: "disposable (rest (world s))"
  shows "goes (deleteImportDisk E oc p name s) held rest s (disk_cleared (rest (world s)))"
  unfolding deleteImportDisk_def
proof (rule goes_bind [OF disk_requests(4) [OF disk]], simp only: prod.case, rule goes_bind [OF disk_requests(5) [OF disk disjI1 [OF refl]]],
    simp only: prod.case)
  fix a b and s1 s2 :: "('c, 'w) sys"
  assume "if disk_is DiskStateImportingFromBulkWrites (rest (world s))
      then a = None \<and> rest (world s1) = to_state DiskStateImportReady (rest (world s)) else rest (world s1) = rest (world s)"
    and "if disk_is DiskStateImportReady (rest (world s1)) then b = None \<and> finalized '''' (rest (world s1)) (rest (world s2))
      else rest (world s2) = rest (world s1)"
  then have "if disk_is DiskStateImportingFromBulkWrites (rest (world s))
      then rest (world s1) = to_state DiskStateImportReady (rest (world s)) else rest (world s1) = rest (world s)"
    and "if disk_is DiskStateImportReady (rest (world s1)) then finalized '''' (rest (world s1)) (rest (world s2))
      else rest (world s2) = rest (world s1)"
    by (auto split: if_splits)
  from stop_finalize [OF ok this]
  show "goes (do { (err, s) \<leftarrow> oxide_do E oc (DiskDelete p name) s2; Some (if not_found_err err then None else err, s) })
      held rest s2 (disk_cleared (rest (world s)))"
  proof (elim disjE conjE exE)
    fix n
    assume s2: "disk_is DiskStateFinalizing (rest (world s2))" "still_finalizing (rest (world s)) (rest (world s2))"
      "(rest (world s2))\<lparr>ir_disk := None\<rparr> = (rest (world s))\<lparr>ir_disk := None, ir_due := n\<rparr>"
    show ?thesis
      by (rule goes_bind [OF disk_requests(7) [OF disk s2(1)]])
        (use s2(2,3) in \<open>auto simp: disk_cleared_def ok_or_gone_def dest: refused_kept intro!: goes_ret\<close>)
  qed (rule goes_bind [OF disk_requests(6) [OF disk]],
      auto simp: disk_cleared_def ok_or_gone_def intro!: goes_ret)+
qed

section \<open>Writing the disk\<close>

lemma download_goes:
  assumes "web_serves E url file held rest (world s)"
  shows "goes (download E url s) held rest s (\<lambda>r rack. rack = rest (world s)
    \<and> (\<exists>resp. r = Inr resp \<and> hr_ContentLength resp = int (length file)
         \<and> rd_bytes (hr_Body resp) = file \<and> rd_end (hr_Body resp) = IoEOF))"
  using assms
  by (auto simp: download_def web_serves_def intro!: goes_bind [OF goes_calls(6)] goes_ret)

text \<open>A write overwrites a byte with the same byte whatever was there, or leaves it alone.\<close>

lemma fold_writes:
  "(\<forall>d d'. fold disk_write ws d i = fold disk_write ws d' i) \<or> (\<forall>d. fold disk_write ws d i = d i)"
proof (induction ws)
  case (Cons w ws)
  then show ?case
    by (cases w) (auto simp: disk_write_def)
qed simp

text \<open>So the file can be written over what an interrupted import has left of the same file.\<close>

lemma rewritten:
  assumes "partly file d"
  shows "fold disk_write (chunk_writes bs 0 file) d = bytes_at file"
proof
  fix i
  have blank: "fold disk_write (chunk_writes bs 0 file) blank_disk i = bytes_at file i"
    using disk_after_chunk_writes [where bs = bs and xs = "file"] by (simp add: disk_after_def)
  from fold_writes [of "chunk_writes bs 0 file" i] show "fold disk_write (chunk_writes bs 0 file) d i = bytes_at file i"
  proof
    assume "\<forall>d d'. fold disk_write (chunk_writes bs 0 file) d i = fold disk_write (chunk_writes bs 0 file) d' i"
    with blank show ?thesis by metis
  next
    assume "\<forall>d. fold disk_write (chunk_writes bs 0 file) d i = d i"
    with blank assms show ?thesis by (auto simp: partly_def blank_disk_def)
  qed
qed

lemma run_writes_goes:
  fixes s :: "('c, 'w) sys"
  assumes disk: "\<And>oc w. oxide_imports_disk E p name held rest oc w"
    and "disk_is DiskStateImportingFromBulkWrites (rest (world s))"
  shows "goes (run_writes (bulk_write E oc p name) ws s) held rest s
    (\<lambda>err rack. err = None \<and> rack = (rest (world s))\<lparr>ir_disk_bytes := fold disk_write ws (ir_disk_bytes (rest (world s)))\<rparr>)"
  using assms(2)
proof (induction ws arbitrary: s)
  case Nil
  then show ?case by (simp add: goes_ret)
next
  case (Cons w ws)
  obtain offset data where w: "w = (offset, data)" by (cases w)
  show ?case
    unfolding w run_writes.simps bulk_write_def [of E oc p name offset data]
  proof (rule goes_bind [OF disk_requests(3) [OF disk Cons.prems]], goal_cases)
    case (1 a s1)
    with Cons.prems have "disk_is DiskStateImportingFromBulkWrites (rest (world s1))" by simp
    from Cons.IH [OF this] 1(2) show ?case by simp
  qed
qed

definition digest_ok :: "lib \<Rightarrow> image \<Rightarrow> char list \<Rightarrow> bool" where
  "digest_ok l img file \<longleftrightarrow> is_SHA256 (o_spec img) = '''' \<or> hex_encode (Sha256Sum l file) = is_SHA256 (o_spec img)"

lemma goes_forget:
  "goes (forget_reader m) held rest s (\<lambda>err rack. Q err rack) \<Longrightarrow> goes m held rest s (\<lambda>(err, r) rack. Q err rack)"
  by (cases m) (auto simp: goes_def forget_reader_def)

lemma copyBody_goes:
  fixes s :: "('c, 'w) sys"
  assumes disk: "\<And>oc w. oxide_imports_disk E (ProjectName (is_ProjectRef (o_spec img))) name held rest oc w"
    and "disk_is DiskStateImportingFromBulkWrites (rest (world s))"
    and resp: "rd_bytes (hr_Body resp) = file" "rd_end (hr_Body resp) = IoEOF"
    and bs: "block_size_ok (is_BlockSize (o_spec img))" and len: "length file + importChunkSize < 2 ^ 64"
    and digest: "digest_ok (e_lib E) img file" and partly: "partly file (ir_disk_bytes (rest (world s)))"
  shows "goes (copyBody E oc img name resp s) held rest s
    (\<lambda>err rack. err = None \<and> rack = (rest (world s))\<lparr>ir_disk_bytes := bytes_at file\<rparr>)"
proof -
  let ?p = "ProjectName (is_ProjectRef (o_spec img))"
  let ?m = "writeChunks (hr_Body resp) (is_BlockSize (o_spec img)) (bulk_write E oc ?p name) s"
  have "goes (forget_reader ?m) held rest s (\<lambda>err rack. err = None \<and> rack = (rest (world s))\<lparr>ir_disk_bytes := bytes_at file\<rparr>)"
    using run_writes_goes [OF disk assms(2), of oc "chunk_writes (is_BlockSize (o_spec img)) 0 file"] resp len
    by (simp add: writeChunks_refines [OF bs] body_ends_def rewritten [OF partly])
  then have copied: "goes ?m held rest s (\<lambda>(err, r) rack. err = None \<and> rack = (rest (world s))\<lparr>ir_disk_bytes := bytes_at file\<rparr>)"
    by (rule goes_forget)
  show ?thesis
    unfolding copyBody_def Let_def
  proof (rule goes_bind [OF copied], goal_cases)
    case (1 a s1)
    moreover from 1(1) have "fst a = None \<Longrightarrow> rd_bytes (snd a) = []"
      using writeChunks_consumes [of "hr_Body resp" "is_BlockSize (o_spec img)" "bulk_write E oc ?p name" s]
      by (simp add: wlp_def)
    ultimately show ?case
      using digest resp(1) by (cases a) (auto simp: digest_ok_def intro!: goes_ret)
  qed
qed

text \<open>An import that can be done: a name for its temporaries, a size that a disk can have, and the
  digest of the spec if there is one.\<close>

definition importable :: "lib \<Rightarrow> image \<Rightarrow> string \<Rightarrow> char list \<Rightarrow> bool" where
  "importable l img name file \<longleftrightarrow>
     is_URL (o_spec img) \<noteq> '''' \<and> importName img = Some name \<and> block_size_ok (is_BlockSize (o_spec img))
     \<and> int (length file) + gib < 2 ^ 63 \<and> digest_ok l img file"

lemma importable_name: "importable l img name file \<Longrightarrow> name \<noteq> ''''"
  by (auto simp: importable_def dest: importName_not_empty)

lemma importable_length: "importable l img name file \<Longrightarrow> length file + importChunkSize < 2 ^ 64"
proof -
  assume "importable l img name file"
  then have "int (length file + importChunkSize) < int (2 ^ 64)"
    by (simp add: importable_def importChunkSize_def gib_def)
  then show ?thesis by (simp only: of_nat_less_iff)
qed

lemma finishImport_goes:
  fixes s :: "('c, 'w) sys"
  assumes disk: "\<And>oc w. oxide_imports_disk E p name held rest oc w"
    and "disk_is DiskStateImportingFromBulkWrites (rest (world s))" and "ir_snapshot (rest (world s)) = None"
  shows "goes (finishImport E oc p name None s) held rest s
    (\<lambda>err rack. (\<exists>m. err = Some (Progressing m))
       \<and> finalized name (to_state DiskStateImportReady (rest (world s))) rack)"
  unfolding finishImport_def if_P [OF refl]
proof (rule goes_bind [OF _], rule disk_requests(4) [OF disk], goal_cases)
  case (1 a s1)
  with assms(2) have "a = None \<and> rest (world s1) = to_state DiskStateImportReady (rest (world s))" by simp
  with disk_isD(2) [OF assms(2)] assms(3) have s1: "a = None"
      "rest (world s1) = to_state DiskStateImportReady (rest (world s))"
      "disk_is DiskStateImportReady (rest (world s1))" "ir_snapshot (rest (world s1)) = None"
    by simp_all
  have fin: "goes (oxide_do E oc (DiskFinalizeImport p name name) s1) held rest s1
      (\<lambda>r rack. r = None \<and> finalized name (rest (world s1)) rack)"
    using disk_requests(5) [OF disk disjI2 [OF s1(4)], of oc name] s1(3) by simp
  show ?case
    unfolding s1(1) by (simp, rule goes_bind [OF fin]) (simp add: s1(2) goes_ret)
qed

lemma writeDisk_goes:
  fixes s :: "('c, 'w) sys"
  assumes disk: "\<And>oc w. oxide_imports_disk E (ProjectName (is_ProjectRef (o_spec img))) name held rest oc w"
    and web: "\<And>w. web_serves E (is_URL (o_spec img)) file held rest w"
    and img: "importable (e_lib E) img name file"
    and ready: "disk_is DiskStateImportReady (rest (world s))" and fits: "int (length file) \<le> diskSize"
    and partly: "partly file (ir_disk_bytes (rest (world s)))" and none: "ir_snapshot (rest (world s)) = None"
  shows "goes (writeDisk E oc img name diskSize s) held rest s
    (\<lambda>err rack. (\<exists>m. err = Some (Progressing m))
       \<and> finalized name ((rest (world s))\<lparr>ir_disk_bytes := bytes_at file\<rparr>) rack)"
  unfolding writeDisk_def Let_def
proof (rule goes_bind [OF download_goes [OF web]], goal_cases)
  case (1 a s1)
  then obtain resp where resp: "a = Inr resp" "rest (world s1) = rest (world s)"
      "hr_ContentLength resp = int (length file)" "rd_bytes (hr_Body resp) = file" "rd_end (hr_Body resp) = IoEOF"
    by blast
  from ready resp(2) have ready1: "disk_is DiskStateImportReady (rest (world s1))" by simp
  show ?case
    unfolding resp(1) prod.case sum.case resp(3) using fits
  proof (simp, rule_tac goes_bind [OF disk_requests(2) [OF disk ready1]], goal_cases)
    case (1 a s2)
    then have s2: "a = None" "rest (world s2) = to_state DiskStateImportingFromBulkWrites (rest (world s1))"
        "disk_is DiskStateImportingFromBulkWrites (rest (world s2))" "partly file (ir_disk_bytes (rest (world s2)))"
      using ready1 partly resp(2) by (auto dest: disk_isD)
    show ?case
      unfolding s2(1) prod.case option.case
    proof (rule goes_bind [OF copyBody_goes [OF disk s2(3) resp(4,5) _ importable_length [OF img] _ s2(4)]], goal_cases)
      case (3 a s3)
      then have s3: "a = None" "rest (world s3) = (rest (world s2))\<lparr>ir_disk_bytes := bytes_at file\<rparr>"
          "disk_is DiskStateImportingFromBulkWrites (rest (world s3))" "ir_snapshot (rest (world s3)) = None"
        using s2(2,3) none resp(2) by simp_all
      show ?case
        unfolding s3(1) prod.case
        by (rule goes_weaken [OF finishImport_goes [OF disk s3(3,4)]])
          (use importable_name [OF img] in \<open>auto simp: s3(2) s2(2) resp(2) finalized_def\<close>)
    qed (use img in \<open>simp_all add: importable_def\<close>)
  qed
qed

lemma createImportDisk_goes:
  fixes s :: "('c, 'w) sys"
  assumes disk: "\<And>oc w. oxide_imports_disk E (ProjectName (is_ProjectRef (o_spec img))) name held rest oc w"
    and web: "\<And>w. web_serves E (is_URL (o_spec img)) file held rest w"
    and img: "importable (e_lib E) img name file" and none: "ir_disk (rest (world s)) = None"
  shows "goes (createImportDisk E oc img name s) held rest s
    (\<lambda>err rack. (\<exists>m. err = Some (Progressing m))
       \<and> (\<exists>d n. od_State d \<in> {DiskStateCreating, DiskStateImportReady} \<and> int (length file) \<le> wrap64 (od_Size d)
            \<and> rack = (rest (world s))\<lparr>ir_disk := Some d, ir_disk_bytes := blank_disk, ir_due := n\<rparr>))"
proof -
  obtain sz where sz: "import_disk_size (int (length file)) = Some sz" "int (length file) \<le> wrap64 sz"
    using import_disk_size_fits [of "int (length file)"] img by (auto simp: importable_def wrap64_id)
  show ?thesis
    unfolding createImportDisk_def Let_def
  proof (rule goes_bind [OF download_goes [OF web]], goal_cases)
    case (1 a s1)
    then obtain resp where resp: "a = Inr resp" "rest (world s1) = rest (world s)"
        "hr_ContentLength resp = int (length file)" by blast
    from none resp(2) have none1: "ir_disk (rest (world s1)) = None" by simp
    show ?case
      unfolding resp(1) prod.case sum.case resp(3) sz(1) option.case
    proof (rule goes_bind [OF disk_requests(1) [OF disk none1]], goal_cases)
      case (1 a s2)
      then obtain d n where "a = Inr d" "od_Size d = sz" "od_State d \<in> {DiskStateCreating, DiskStateImportReady}"
          "rest (world s2) = (rest (world s))\<lparr>ir_disk := Some d, ir_disk_bytes := blank_disk, ir_due := n\<rparr>"
        by (auto simp: resp(2))
      with sz(2) show ?case by (auto intro!: goes_ret exI [of _ d] exI [of _ n])
    qed
  qed
qed

section \<open>One step of the import\<close>

text \<open>Waiting for the disk or for the snapshot.\<close>

lemma waiting_progress:
  assumes ok: "import_ok file rack" and none: "ir_image rack = None"
    and wait: "snapshot_is SnapshotStateCreating rack
      \<or> ir_snapshot rack = None \<and> (disk_is DiskStateCreating rack \<or> disk_is DiskStateFinalizing rack)"
  shows "import_progress lag file uid rack (Progressing m) rack"
  using assms by (auto simp: import_progress_def pending_def snapshot_is_def)

text \<open>Starting over: the disk is deleted, or on its way out.\<close>

lemma idle_ok:
  assumes "import_ok file rack" and "ir_snapshot rack = None" and "ir_image rack = None" and "\<not> ir_coming rack"
  shows "import_ok file (rack\<lparr>ir_disk := None, ir_due := n\<rparr>)"
    and "ir_disk rack \<noteq> None \<Longrightarrow> import_ok file ((to_state DiskStateFinalizing rack)\<lparr>ir_due := n\<rparr>)"
  using assms by (auto simp: import_ok_def disk_ok_def)

lemma restarted_progress:
  assumes ok: "import_ok file rack" and none: "ir_image rack = None" "ir_snapshot rack = None"
    and disk: "disk_is DiskStateImportingFromBulkWrites rack \<or> disk_is DiskStateDetached rack"
    and cleared: "disk_cleared rack err rack'"
  shows "import_progress lag file uid rack (case err of Some e \<Rightarrow> e | None \<Rightarrow> Progressing m) rack'"
proof -
  have coming: "\<not> ir_coming rack" using ok disk by (auto simp: import_ok_def dest: disk_isD)
  have some: "ir_disk rack \<noteq> None" using disk by (auto simp: disk_is_def)
  from disk have before: "2 * lag + 4 \<le> import_time lag rack"
    "disk_is DiskStateImportingFromBulkWrites rack \<Longrightarrow> import_time lag rack = 3 * lag + 5"
    using none some by (auto simp: import_time_def make_time_def disk_isD)
  note ok' = idle_ok [OF ok none(2,1) coming]
  from cleared consider (gone) n where "err = None" "rack' = rack\<lparr>ir_disk := None, ir_due := n\<rparr>"
    | (fin) n where "refused err" "disk_is DiskStateImportingFromBulkWrites rack"
        "rack' = (to_state DiskStateFinalizing rack)\<lparr>ir_due := n\<rparr>"
    using disk by (auto simp: disk_cleared_def still_finalizing_def dest: disk_isD)
  then show ?thesis
  proof cases
    case gone
    with ok'(1) [of n] none before(1) show ?thesis
      by (simp add: import_progress_def import_time_def make_time_def)
  next
    case fin
    with ok'(2) [OF some, of n] none before(2) some coming show ?thesis
      by (auto simp: import_progress_def import_time_def make_time_def refused_def pending_def)
  qed
qed

lemma created_progress:
  assumes ok: "import_ok file rack" and "ir_image rack = None" and "ir_snapshot rack = None" and "ir_disk rack = None"
    and "od_State d \<in> {DiskStateCreating, DiskStateImportReady}" and "int (length file) \<le> wrap64 (od_Size d)"
  shows "import_progress lag file uid rack (Progressing m) (rack\<lparr>ir_disk := Some d, ir_disk_bytes := blank_disk, ir_due := n\<rparr>)"
proof -
  have "\<not> ir_coming rack" using ok assms(4) by (auto simp: import_ok_def disk_is_def)
  with assms show ?thesis
    by (auto simp: import_progress_def import_ok_def disk_ok_def partly_def blank_disk_def pending_def
        import_time_def make_time_def snapshot_is_def)
qed

lemma finalized_progress:
  assumes ok: "import_ok file rack" and none: "ir_image rack = None" "ir_snapshot rack = None"
    and ready: "disk_is DiskStateImportReady rack"
    and fin: "finalized name (rack\<lparr>ir_disk_bytes := bytes_at file\<rparr>) rack'" and "name \<noteq> ''''"
  shows "import_progress lag file uid rack (Progressing m) rack'"
proof -
  from fin \<open>name \<noteq> ''''\<close> obtain st snap n where
    st: "st = DiskStateFinalizing \<or> st = DiskStateDetached \<and> snap \<noteq> None"
    and snap: "\<And>sn. snap = Some sn \<Longrightarrow> os_State sn \<in> {SnapshotStateCreating, snapshot_ready}"
    and rack': "rack' = (to_state st (rack\<lparr>ir_disk_bytes := bytes_at file\<rparr>))\<lparr>ir_snapshot := snap,
        ir_snapshot_bytes := bytes_at file, ir_coming := (snap = None), ir_due := n\<rparr>"
    by (auto simp: finalized_def)
  have some: "ir_disk rack \<noteq> None" using ready by (auto simp: disk_is_def)
  have before: "import_time lag rack = lag + 2" using none some ready by (simp add: import_time_def make_time_def)
  have disk: "\<And>x. disk_is x rack' \<longleftrightarrow> st = x" using some by (auto simp: rack')
  have "import_ok file rack'"
    using st snap none some by (auto simp: import_ok_def disk_ok_def rack' snapshot_is_def)
  moreover have "ir_due rack' \<le> lag \<Longrightarrow> import_time lag rack' \<le> lag + 2 \<and> (pending rack' \<or> import_time lag rack' < lag + 2)"
  proof (cases snap)
    case None
    with st none some show "ir_due rack' \<le> lag \<Longrightarrow> ?thesis"
      by (simp add: import_time_def make_time_def pending_def disk) (simp add: rack')
  next
    case (Some sn)
    with st none some snap [OF Some] show "ir_due rack' \<le> lag \<Longrightarrow> ?thesis"
      by (auto simp: import_time_def wait_time_def clean_time_def pending_def disk) (auto simp: rack')
  qed
  moreover have "\<not> disk_is DiskStateCreating rack'" "ir_image rack' = None" using st none by (auto simp: disk) (simp_all add: rack')
  ultimately show ?thesis by (simp add: import_progress_def before)
qed

lemma importDisk_goes:
  fixes s :: "('c, 'w) sys"
  assumes seen: "\<And>oc w. oxide_shows E (ProjectName (is_ProjectRef (o_spec img))) name i held rest oc w"
    and disk: "\<And>oc w. oxide_imports_disk E (ProjectName (is_ProjectRef (o_spec img))) name held rest oc w"
    and web: "\<And>w. web_serves E (is_URL (o_spec img)) file held rest w"
    and img: "importable (e_lib E) img name file"
    and ok: "import_ok file (rest (world s))" and none: "ir_image (rest (world s)) = None" "ir_snapshot (rest (world s)) = None"
  shows "goes (importDisk E oc img s) held rest s
    (\<lambda>err rack. \<exists>e. err = Some e \<and> import_progress lag file uid (rest (world s)) e rack)"
proof -
  let ?p = "ProjectName (is_ProjectRef (o_spec img))"
  have view: "goes (oxide (ox_disk (e_oxide E)) oc (DiskView ?p name) s) held rest s
      (\<lambda>r rack. rack = rest (world s) \<and> shows_option (ir_disk rack) r)"
    using seen [of oc "world s"] by (intro goes_calls) (simp add: oxide_shows_def)
  have name: "importName img = Some name" using img by (simp add: importable_def)
  show ?thesis
    unfolding importDisk_def Let_def name option.case
  proof (rule goes_bind [OF view], goal_cases)
    case (1 a s1)
    then have s1: "rest (world s1) = rest (world s)" and a: "shows_option (ir_disk (rest (world s))) a" by auto
    show ?case
    proof (cases "ir_disk (rest (world s))")
      case None
      with a have "\<exists>e. a = Inl e \<and> is_object_not_found e" by (simp add: shows_option_def not_found_answer_def)
      then obtain e where e: "a = Inl e" "is_object_not_found e" by blast
      have none1: "ir_disk (rest (world s1)) = None" using None s1 by simp
      show ?thesis
        unfolding e(1) prod.case sum.case if_P [OF e(2)]
        by (rule goes_weaken [OF createImportDisk_goes [OF disk web img none1, of oc]])
          (use created_progress [OF ok none None] in \<open>auto simp: s1\<close>)
    next
      case (Some d)
      with a have a: "a = Inr d" by (simp add: shows_option_def)
      have d: "disk_ok file (rest (world s)) d" using ok Some by (simp add: import_ok_def)
      consider (ready) "od_State d = DiskStateImportReady" | (wait) "od_State d = DiskStateCreating \<or> od_State d = DiskStateFinalizing"
        | (restart) "od_State d = DiskStateImportingFromBulkWrites \<or> od_State d = DiskStateDetached"
        using d by (auto simp: disk_ok_def split: if_splits)
      then show ?thesis
      proof cases
        case ready
        with d Some s1 have "disk_is DiskStateImportReady (rest (world s1))" "int (length file) \<le> wrap64 (od_Size d)"
            "partly file (ir_disk_bytes (rest (world s1)))"
          by (auto simp: disk_ok_def disk_is_def)
        note written = writeDisk_goes [OF disk web img this, of oc]
        have none1: "ir_snapshot (rest (world s1)) = None" using none(2) s1 by simp
        have "disk_is DiskStateImportReady (rest (world s))" using ready Some by (simp add: disk_is_def)
        note progress = finalized_progress [OF ok none this _ importable_name [OF img]]
        show ?thesis
          unfolding a prod.case sum.case ready disk_state.simps
          by (rule goes_weaken [OF written [OF none1]]) (use progress in \<open>auto simp: s1\<close>)
      next
        case wait
        with waiting_progress [OF ok none(1)] none(2) Some s1 show ?thesis
          unfolding a by (auto simp: disk_is_def intro!: goes_ret)
      next
        case restart
        then have "disposable (rest (world s1))" using Some s1 by (auto simp: disposable_def disk_is_def)
        note clear = deleteImportDisk_goes [OF disk this, of oc]
        have disk_restart: "disk_is DiskStateImportingFromBulkWrites (rest (world s)) \<or> disk_is DiskStateDetached (rest (world s))"
          using restart Some by (simp add: disk_is_def)
        note progress = restarted_progress [OF ok none disk_restart, of _ _ lag uid "''restarting interrupted import''"]
        have "goes (do {
             (err, s) \<leftarrow> deleteImportDisk E oc ?p name s1;
             Some (case err of Some err \<Rightarrow> Some err | None \<Rightarrow> Some (Progressing ''restarting interrupted import''), s) })
            held rest s1 (\<lambda>err rack. \<exists>e. err = Some e \<and> import_progress lag file uid (rest (world s)) e rack)"
        proof (rule goes_bind [OF clear], goal_cases)
          case (1 e s2)
          with progress [of e "rest (world s2)"] s1 show ?case by (cases e) (auto intro!: goes_ret)
        qed
        with restart show ?thesis unfolding a by auto
      qed
    qed
  qed
qed

section \<open>One pass\<close>

lemma oxide_importsD:
  fixes s :: "('c, 'w) sys"
  assumes "oxide_imports E img name file held rest tick lag"
  shows "\<exists>oc s'. NewClientFromRef E (rs_ConnectionRef (is_Resource (o_spec img))) s = Some (Inr oc, s')
      \<and> held (world s') = held (world s) \<and> rest (world s') = rest (world s)"
    and "oxide_shows E (ProjectName (is_ProjectRef (o_spec img))) name (OxideName (is_OxideName (o_spec img)) (o_meta img)) held rest oc w"
    and "oxide_imports_disk E (ProjectName (is_ProjectRef (o_spec img))) name held rest oc w"
    and "oxide_makes_image E (ProjectName (is_ProjectRef (o_spec img))) held rest oc w"
    and "web_serves E (is_URL (o_spec img)) file held rest w"
    and "held (tick w) = held w" "import_moves (rest w) (rest (tick w))" "ir_due (rest w) \<le> lag"
  using assms unfolding oxide_imports_def Let_def connects_def by blast+

lemma viewImage_goes:
  fixes s :: "('c, 'w) sys"
  assumes seen: "\<And>oc w. oxide_shows E p name i held rest oc w"
  shows "goes (viewImage E oc p i s) held rest s
    (\<lambda>r rack. rack = rest (world s) \<and> (case ir_image rack of Some x \<Rightarrow> r = Inr x | None \<Rightarrow> not_found_answer r))"
proof -
  have project: "goes (oxide (ox_image (e_oxide E)) oc (ImageView p i) s) held rest s
      (\<lambda>r rack. rack = rest (world s) \<and> (case ir_image rack of
          Some i \<Rightarrow> if oi_ProjectId i \<noteq> '''' then r = Inr i else not_found_answer r
        | None \<Rightarrow> not_found_answer r))"
    using seen [of oc "world s"] by (intro goes_calls) (simp add: oxide_shows_def)
  have silo: "goes (oxide (ox_image (e_oxide E)) oc (ImageView '''' i) s) held rest s
      (\<lambda>r rack. rack = rest (world s) \<and> (case ir_image rack of
          Some i \<Rightarrow> if oi_ProjectId i \<noteq> '''' then not_found_answer r else r = Inr i
        | None \<Rightarrow> not_found_answer r))" for s :: "('c, 'w) sys"
    using seen [of oc "world s"] by (intro goes_calls) (simp add: oxide_shows_def)
  show ?thesis
    unfolding viewImage_def
  proof (rule goes_bind [OF project], goal_cases)
    case (1 a s1)
    show ?case
    proof (cases a)
      case (Inl e)
      with 1 have "is_object_not_found e"
          "ir_image (rest (world s)) = None \<or> (\<exists>x. ir_image (rest (world s)) = Some x \<and> oi_ProjectId x = '''')"
        by (auto simp: not_found_answer_def split: option.splits if_splits)
      with 1 Inl goes_weaken [OF silo [of s1]] show ?thesis
        by (auto split: if_splits)
    next
      case (Inr x)
      with 1 show ?thesis by (auto simp: not_found_answer_def intro!: goes_ret split: option.splits if_splits)
    qed
  qed
qed

text \<open>The image as it is, or newly made of the snapshot under an ID that the status does not have.\<close>

definition image_there ::
  "nat \<Rightarrow> char list \<Rightarrow> image \<Rightarrow> import_rack \<Rightarrow> ox_image option \<Rightarrow> error option \<Rightarrow> import_rack \<Rightarrow> bool" where
  "image_there lag file img rack cur err rack' \<longleftrightarrow>
     (case err of
        Some e \<Rightarrow> import_progress lag file (rst_ID (ist_Resource (o_status img))) rack e rack'
      | None \<Rightarrow> (\<exists>i. cur = Some i
          \<and> (ir_image rack = Some i \<and> rack' = rack
             \<or> ir_image rack = None \<and> snapshot_is snapshot_ready rack
               \<and> rack' = rack\<lparr>ir_image := Some i, ir_image_bytes := bytes_at file\<rparr>
               \<and> oi_Id i \<noteq> rst_ID (ist_Resource (o_status img)))))"

lemma ok_disposable: "import_ok file rack \<Longrightarrow> disposable rack"
  by (cases "ir_disk rack") (auto simp: disposable_def disk_is_def import_ok_def disk_ok_def split: if_splits)

lemma there_ok:
  assumes "import_ok file rack" and "image_there lag file img rack cur None rack'"
  shows "import_ok file rack'" and "import_time lag' rack' = import_time lag' rack"
    and "ir_image rack' \<noteq> None" and "ir_image_bytes rack' = bytes_at file" and "ir_image rack' = cur"
proof -
  have new: "import_ok file (rack\<lparr>ir_image := Some i, ir_image_bytes := bytes_at file\<rparr>)
      \<and> import_time lag' (rack\<lparr>ir_image := Some i, ir_image_bytes := bytes_at file\<rparr>) = import_time lag' rack"
    if "ir_image rack = None" "snapshot_is snapshot_ready rack" for i
    using that assms(1) by (auto simp: import_ok_def disk_ok_def import_time_def clean_time_def snapshot_is_def)
  from assms(2) new show "import_ok file rack'" "import_time lag' rack' = import_time lag' rack"
    "ir_image rack' \<noteq> None" "ir_image_bytes rack' = bytes_at file" "ir_image rack' = cur"
    using assms(1) by (auto simp: image_there_def import_ok_def)
qed

lemma createImage_goes:
  fixes s :: "('c, 'w) sys"
  assumes ox: "oxide_imports E img name file held rest tick lag" and img: "importable (e_lib E) img name file"
    and ok: "import_ok file (rest (world s))" and none: "ir_image (rest (world s)) = None" and here: "held (world s) = Some img"
  shows "goes (createImage E oc img s) held rest s (\<lambda>(cur, err) rack. image_there lag file img (rest (world s)) cur err rack)"
proof -
  let ?p = "ProjectName (is_ProjectRef (o_spec img))"
  note oxD = oxide_importsD [OF ox]
  have view: "goes (oxide (ox_snapshot (e_oxide E)) oc (SnapshotView ?p name) s) held rest s
      (\<lambda>r rack. rack = rest (world s) \<and> shows_option (ir_snapshot rack) r)"
    using oxD(2) [of oc "world s"] by (intro goes_calls) (simp add: oxide_shows_def)
  have name: "importName img = Some name" "is_URL (o_spec img) \<noteq> ''''" using img by (simp_all add: importable_def)
  show ?thesis
    unfolding createImage_def Let_def if_P [OF name(2)] name(1) option.case
  proof (rule goes_bind_held [OF view], goal_cases)
    case (1 a s1)
    then have s1: "rest (world s1) = rest (world s)" "held (world s1) = Some img" and a: "shows_option (ir_snapshot (rest (world s))) a"
      using here by auto
    show ?case
    proof (cases "ir_snapshot (rest (world s))")
      case None
      with a obtain e where e: "a = Inl e" "is_URL (o_spec img) \<noteq> '''' \<and> is_object_not_found e"
        using name(2) by (auto simp: shows_option_def not_found_answer_def)
      show ?thesis
        unfolding e(1) prod.case sum.case if_P [OF e(2)]
        by (rule goes_bind [OF importDisk_goes [OF oxD(2,3,5) img, where lag = lag
              and uid = "rst_ID (ist_Resource (o_status img))"]])
          (use ok none None in \<open>auto simp: s1 image_there_def intro!: goes_ret\<close>)
    next
      case (Some snap)
      with a have a: "a = Inr snap" by (simp add: shows_option_def)
      show ?thesis
      proof (cases "os_State snap = SnapshotStateCreating")
        case True
        with a Some s1 waiting_progress [OF ok none, of lag] show ?thesis
          by (auto simp: image_there_def snapshot_is_def intro!: goes_ret)
      next
        case False
        with ok Some have ready: "os_State snap = snapshot_ready" "ir_snapshot_bytes (rest (world s)) = bytes_at file"
          by (auto simp: import_ok_def)
        from Some ready have "snapshot_is snapshot_ready (rest (world s))" by (simp add: snapshot_is_def)
        with none have made: "image_there lag file img (rest (world s)) (Some i) None
              ((rest (world s))\<lparr>ir_image := Some i, ir_image_bytes := bytes_at file\<rparr>)"
          if "oi_Id i \<noteq> rst_ID (ist_Resource (o_status img))" for i
          using that by (simp add: image_there_def)
        have create: "goes (oxide (ox_image (e_oxide E)) oc (ImageCreate ?p body) s1) held rest s1
            (\<lambda>r rack. \<exists>i. r = Inr i \<and> oi_ProjectId i \<noteq> ''''
             \<and> (\<forall>obj. held (world s1) = Some obj \<longrightarrow> oi_Id i \<noteq> rst_ID (ist_Resource (o_status obj)))
             \<and> rack = (rest (world s1))\<lparr>ir_image := Some i, ir_image_bytes := ir_snapshot_bytes (rest (world s1))\<rparr>)"
          if "imc_SourceSnapshot body = os_Id snap" for body
          using oxD(4) [of oc "world s1"] none Some ready(1) that s1(1)
          by (intro goes_calls) (auto simp: oxide_makes_image_def)
        show ?thesis
          unfolding a prod.case sum.case if_not_P [OF False]
          by (rule goes_bind [OF create])
            (use made ready(2) s1 in \<open>auto intro!: goes_ret\<close>)
      qed
    qed
  qed
qed

lemma viewOrCreateImage_goes:
  fixes s :: "('c, 'w) sys"
  assumes ox: "oxide_imports E img name file held rest tick lag" and img: "importable (e_lib E) img name file"
    and ok: "import_ok file (rest (world s))" and here: "held (world s) = Some img"
  shows "goes (viewOrCreateImage E oc img s) held rest s (\<lambda>(cur, err) rack. image_there lag file img (rest (world s)) cur err rack)"
  unfolding viewOrCreateImage_def Let_def
proof (rule goes_bind_held [OF viewImage_goes [OF oxide_importsD(2) [OF ox]]], goal_cases)
  case (1 a s1)
  then have s1: "rest (world s1) = rest (world s)" "held (world s1) = Some img"
    and a: "case ir_image (rest (world s)) of Some x \<Rightarrow> a = Inr x | None \<Rightarrow> not_found_answer a"
    using here by auto
  show ?case
  proof (cases "ir_image (rest (world s))")
    case None
    with a obtain e where e: "a = Inl e" "is_object_not_found e" by (auto simp: not_found_answer_def)
    note create = createImage_goes [OF ox img, of s1 oc, unfolded s1, OF ok None refl]
    show ?thesis
      unfolding e(1) prod.case sum.case if_P [OF e(2)]
      by (rule goes_bind [OF create]) (auto intro!: goes_ret)
  next
    case (Some i)
    with a s1 show ?thesis by (auto simp: image_there_def intro!: goes_ret)
  qed
qed

lemma deleteImport_goes:
  fixes s :: "('c, 'w) sys"
  assumes disk: "\<And>oc w. oxide_imports_disk E (ProjectName (is_ProjectRef (o_spec img))) name held rest oc w"
    and img: "importable (e_lib E) img name file" and ok: "disposable (rest (world s))"
    and settled: "\<not> snapshot_is SnapshotStateCreating (rest (world s))"
  shows "goes (deleteImport E oc img s) held rest s (disk_cleared ((rest (world s))\<lparr>ir_snapshot := None\<rparr>))"
proof -
  have name: "importName img = Some name" "is_URL (o_spec img) \<noteq> ''''" using img by (simp_all add: importable_def)
  show ?thesis
    unfolding deleteImport_def Let_def if_not_P [OF name(2)] name(1) option.case
  proof (rule goes_bind [OF disk_requests(8) [OF disk settled]], goal_cases)
    case (1 a s1)
    then have cleared: "\<not> (a \<noteq> None \<and> \<not> not_found_err a)" "disposable (rest (world s1))"
      using ok by (auto simp: ok_or_gone_def disposable_def)
    show ?case
      unfolding prod.case if_not_P [OF cleared(1)]
      by (rule goes_weaken [OF deleteImportDisk_goes [OF disk cleared(2), of oc]]) (use 1 in auto)
  qed
qed

text \<open>If the disk is still being finalized, the image is there and its clean-up has to be tried again.\<close>

lemma cleanup_progress:
  assumes ok: "import_ok file rack" and image: "ir_image rack = Some i" and fresh: "oi_Id i \<noteq> uid"
    and cleared: "disk_cleared (rack\<lparr>ir_snapshot := None\<rparr>) (Some e) rack'"
  shows "import_progress lag file uid rack e rack'"
proof -
  from cleared have e: "refused (Some e)" and fin: "still_finalizing (rack\<lparr>ir_snapshot := None\<rparr>) rack'"
    by (auto simp: disk_cleared_def)
  from ok image have coming: "\<not> ir_coming rack" by (simp add: import_ok_def)
  have some: "ir_disk rack \<noteq> None" using fin by (auto simp: still_finalizing_def disk_is_def)
  from fin consider (same) "disk_is DiskStateFinalizing rack" "rack' = rack\<lparr>ir_snapshot := None\<rparr>"
    | (new) n where "disk_is DiskStateImportReady rack \<or> disk_is DiskStateImportingFromBulkWrites rack"
        "rack' = (to_state DiskStateFinalizing (rack\<lparr>ir_snapshot := None\<rparr>))\<lparr>ir_due := n\<rparr>"
    by (auto simp: still_finalizing_def)
  then have "import_ok file rack' \<and> disk_is DiskStateFinalizing rack' \<and> ir_image rack' = Some i
      \<and> (ir_due rack' \<le> lag \<longrightarrow> import_time lag rack' \<le> import_time lag rack)"
  proof cases
    case same
    with ok image coming show ?thesis
      by (auto simp: import_ok_def disk_ok_def import_time_def clean_time_def)
  next
    case new
    then have "import_time lag rack = lag + 2"
      using image by (auto simp: import_time_def clean_time_def dest: disk_isD)
    with new ok image coming some show ?thesis
      by (auto simp: import_ok_def disk_ok_def import_time_def clean_time_def)
  qed
  with e fresh show ?thesis
    by (auto simp: import_progress_def refused_def pending_def dest: disk_isD)
qed

lemma placeImage_goes:
  fixes s :: "('c, 'w) sys"
  assumes makes: "\<And>oc w. oxide_makes_image E (ProjectName (is_ProjectRef (o_spec img))) held rest oc w"
    and cur: "ir_image (rest (world s)) = Some cur"
  shows "goes (placeImage E oc img cur s) held rest s
    (\<lambda>err rack. err = None \<and> (\<exists>i. oi_Id i = oi_Id cur \<and> (oi_ProjectId i = '''') = is_Promote (o_spec img)
       \<and> rack = (rest (world s))\<lparr>ir_image := Some i\<rparr>))"
proof -
  let ?p = "ProjectName (is_ProjectRef (o_spec img))"
  have promote: "goes (oxide (ox_image (e_oxide E)) oc (ImagePromote (oi_Id cur)) s) held rest s
      (\<lambda>r rack. (\<exists>x. r = Inr x) \<and> rack = (rest (world s))\<lparr>ir_image := Some (cur\<lparr>oi_ProjectId := ''''\<rparr>)\<rparr>)"
    and demote: "goes (oxide (ox_image (e_oxide E)) oc (ImageDemote ?p (oi_Id cur)) s) held rest s
      (\<lambda>r rack. (\<exists>x. r = Inr x) \<and> (\<exists>pid. pid \<noteq> '''' \<and> rack = (rest (world s))\<lparr>ir_image := Some (cur\<lparr>oi_ProjectId := pid\<rparr>)\<rparr>))"
    using makes [of oc "world s"] cur by (auto intro!: goes_calls simp: oxide_makes_image_def)
  have same: "rest (world s) = (rest (world s))\<lparr>ir_image := Some cur\<rparr>" using cur by simp
  consider (promote) "is_Promote (o_spec img) \<and> oi_ProjectId cur \<noteq> ''''"
    | (demote) "\<not> is_Promote (o_spec img) \<and> oi_ProjectId cur = ''''"
    | (placed) "(oi_ProjectId cur = '''') = is_Promote (o_spec img)" by blast
  then show ?thesis
  proof cases
    case promote': promote
    then show ?thesis
      by (auto simp: placeImage_def intro!: goes_bind [OF promote] goes_ret exI [of _ "cur\<lparr>oi_ProjectId := ''''\<rparr>"])
  next
    case demote': demote
    have "(\<exists>i. oi_Id i = oi_Id cur \<and> (oi_ProjectId i = '''') = is_Promote (o_spec img)
        \<and> (rest (world s))\<lparr>ir_image := Some (cur\<lparr>oi_ProjectId := pid\<rparr>)\<rparr> = (rest (world s))\<lparr>ir_image := Some i\<rparr>)"
      if "pid \<noteq> ''''" for pid
      using demote' that by (intro exI [of _ "cur\<lparr>oi_ProjectId := pid\<rparr>"]) simp
    with demote' show ?thesis by (auto simp: placeImage_def intro!: goes_bind [OF demote] goes_ret)
  next
    case placed
    with same show ?thesis by (auto simp: placeImage_def intro!: goes_ret exI [of _ cur])
  qed
qed

text \<open>What is true of the rack from one reconcile to the next: an image that the status knows has been
  cleaned up after.\<close>

definition import_state :: "char list \<Rightarrow> image \<Rightarrow> import_rack \<Rightarrow> bool" where
  "import_state file img rack \<longleftrightarrow>
     import_ok file rack
     \<and> (\<forall>i. ir_image rack = Some i \<and> oi_Id i = rst_ID (ist_Resource (o_status img)) \<longrightarrow>
          ir_disk rack = None \<and> ir_snapshot rack = None)"

definition import_pass ::
  "nat \<Rightarrow> char list \<Rightarrow> image \<Rightarrow> import_rack \<Rightarrow> error option \<Rightarrow> image_status \<Rightarrow> import_rack \<Rightarrow> bool" where
  "import_pass lag file img rack err st rack' \<longleftrightarrow>
     (case err of
        None \<Rightarrow> image_made img file st rack'
      | Some e \<Rightarrow> import_progress lag file (rst_ID (ist_Resource st)) rack e rack')"

text \<open>With the image there, its import is cleaned up after once, and the image put in its place.\<close>

lemma cleanup_pass:
  fixes s :: "('c, 'w) sys"
  assumes disk: "\<And>oc w. oxide_imports_disk E (ProjectName (is_ProjectRef (o_spec img))) name held rest oc w"
    and img: "importable (e_lib E) img name file" and ok: "import_ok file (rest (world s))"
    and image: "ir_image (rest (world s)) = Some i"
    and known: "oi_Id i = rst_ID (ist_Resource (o_status img)) \<Longrightarrow>
      ir_disk (rest (world s)) = None \<and> ir_snapshot (rest (world s)) = None"
  shows "goes (if oi_Id i \<noteq> rst_ID (ist_Resource (o_status img)) then deleteImport E oc img s else Some (None, s)) held rest s
    (\<lambda>err rack. case err of
        None \<Rightarrow> ir_image rack = Some i \<and> ir_image_bytes rack = bytes_at file \<and> ir_disk rack = None \<and> ir_snapshot rack = None
      | Some e \<Rightarrow> import_progress lag file (rst_ID (ist_Resource (o_status img))) (rest (world s)) e rack)"
proof (cases "oi_Id i = rst_ID (ist_Resource (o_status img))")
  case True
  with known image ok show ?thesis by (auto simp: import_ok_def intro!: goes_ret)
next
  case False
  have settled: "\<not> snapshot_is SnapshotStateCreating (rest (world s))" and bytes: "ir_image_bytes (rest (world s)) = bytes_at file"
    using ok image by (simp_all add: import_ok_def)
  show ?thesis
    unfolding if_P [OF False]
  proof (rule goes_weaken [OF deleteImport_goes [OF disk img ok_disposable [OF ok] settled]], goal_cases)
    case (1 err rack)
    show ?case
    proof (cases err)
      case None
      with 1 image bytes show ?thesis by (auto simp: disk_cleared_def refused_def)
    next
      case (Some e)
      with 1 cleanup_progress [OF ok image False] show ?thesis by simp
    qed
  qed
qed

lemma handleImageOperations_pass:
  fixes s :: "('c, 'w) sys"
  assumes ox: "oxide_imports E img name file held rest tick lag" and img: "importable (e_lib E) img name file"
    and state: "import_state file img (rest (world s))" and here: "held (world s) = Some img"
  shows "\<exists>err img' s'. handleImageOperations E img s = Some ((err, img'), s') \<and> held (world s') = Some img
    \<and> import_pass lag file img (rest (world s)) err (o_status img') (rest (world s'))"
proof -
  note oxD = oxide_importsD [OF ox]
  obtain oc s1 where s1: "NewClientFromRef E (rs_ConnectionRef (is_Resource (o_spec img))) s = Some (Inr oc, s1)"
      "held (world s1) = Some img" "rest (world s1) = rest (world s)"
    using oxD(1) [of s] here by auto
  have ok: "import_ok file (rest (world s1))" using state s1(3) by (simp add: import_state_def)
  from goesD [OF viewOrCreateImage_goes [OF ox img ok s1(2), of oc]] obtain cur err s2 where
    s2: "viewOrCreateImage E oc img s1 = Some ((cur, err), s2)" "held (world s2) = Some img"
      "image_there lag file img (rest (world s)) cur err (rest (world s2))"
    using s1(2,3) by auto
  show ?thesis
  proof (cases err)
    case (Some e)
    with s1 s2 show ?thesis
      by (simp add: handleImageOperations_def import_pass_def image_there_def)
  next
    case None
    note there = there_ok [OF ok [unfolded s1(3)] s2(3) [unfolded None]]
    from there(3,5) obtain i where i: "cur = Some i" "ir_image (rest (world s2)) = Some i" by auto
    have known: "ir_disk (rest (world s2)) = None \<and> ir_snapshot (rest (world s2)) = None"
      if "oi_Id i = rst_ID (ist_Resource (o_status img))"
      using s2(3) that state None i by (auto simp: image_there_def import_state_def)
    let ?clean = "if oi_Id i \<noteq> rst_ID (ist_Resource (o_status img)) then deleteImport E oc img s2 else Some (None, s2)"
    from goesD [OF cleanup_pass [OF oxD(3) img there(1) i(2) known, of oc lag]] obtain cerr s3 where
      s3: "?clean = Some (cerr, s3)" "held (world s3) = Some img"
        "case cerr of
           None \<Rightarrow> ir_image (rest (world s3)) = Some i \<and> ir_image_bytes (rest (world s3)) = bytes_at file
             \<and> ir_disk (rest (world s3)) = None \<and> ir_snapshot (rest (world s3)) = None
         | Some e \<Rightarrow> import_progress lag file (rst_ID (ist_Resource (o_status img))) (rest (world s2)) e (rest (world s3))"
      using s2(2) by auto
    show ?thesis
    proof (cases cerr)
      case (Some e)
      have "handleImageOperations E img s = Some ((Some e, img), s3)"
        unfolding handleImageOperations_def Let_def
        by (simp only: s1(1) s2(1) None i(1) s3(1) Some bind.simps prod.case sum.case option.case)
      moreover have "import_progress lag file (rst_ID (ist_Resource (o_status img))) (rest (world s)) e (rest (world s3))"
        using s3(3) there(2) by (simp add: Some import_progress_def)
      ultimately show ?thesis using s3(2)
        by (intro exI [of _ "Some e"] exI [of _ img] exI [of _ s3]) (simp add: import_pass_def)
    next
      case cleared: None
      let ?img = "img\<lparr>o_status := (o_status img)\<lparr>
        ist_Resource := (ist_Resource (o_status img))\<lparr>rst_ID := oi_Id i, rst_Project := ProjectName (is_ProjectRef (o_spec img))\<rparr>,
        ist_Size := Some (NewQuantity (e_lib E) (wrap64 (oi_Size i)))\<rparr>\<rparr>"
      have gone: "ir_image (rest (world s3)) = Some i" "ir_image_bytes (rest (world s3)) = bytes_at file"
        "ir_disk (rest (world s3)) = None" "ir_snapshot (rest (world s3)) = None"
        using s3(3) by (simp_all add: cleared)
      have "goes (placeImage E oc ?img i s3) held rest s3
        (\<lambda>err rack. err = None \<and> (\<exists>j. oi_Id j = oi_Id i \<and> (oi_ProjectId j = '''') = is_Promote (o_spec ?img)
           \<and> rack = (rest (world s3))\<lparr>ir_image := Some j\<rparr>))"
        by (rule placeImage_goes) (simp_all add: oxD(4) gone(1))
      from goesD [OF this] obtain j s4 where
        s4: "placeImage E oc ?img i s3 = Some (None, s4)" "held (world s4) = Some img"
          "oi_Id j = oi_Id i" "(oi_ProjectId j = '''') = is_Promote (o_spec img)"
          "rest (world s4) = (rest (world s3))\<lparr>ir_image := Some j\<rparr>"
        using s3(2) by auto
      have "handleImageOperations E img s = Some ((None, ?img), s4)"
        unfolding handleImageOperations_def Let_def
        by (simp only: s1(1) s2(1) None i(1) s3(1) cleared s4(1) bind.simps prod.case sum.case option.case)
      moreover have "image_made img file (o_status ?img) (rest (world s4))"
        using gone s4(3-5) by (simp add: image_made_def)
      ultimately show ?thesis using s4(2)
        by (intro exI [of _ None] exI [of _ ?img] exI [of _ s4]) (simp add: import_pass_def)
    qed
  qed
qed

section \<open>The loop\<close>

text \<open>It is about the resource, not about what the operator adds to its object.\<close>

lemma import_same:
  assumes "same_resource img i"
  shows "oxide_imports E i name file held rest tick lag = oxide_imports E img name file held rest tick lag"
    and "importable l i name file = importable l img name file"
    and "image_made i file st rack = image_made img file st rack"
proof -
  note same = same_resourceD [OF assms]
  have name: "importName i = importName img"
    unfolding importName_def same(1,3,7) by (rule refl)
  show "oxide_imports E i name file held rest tick lag = oxide_imports E img name file held rest tick lag"
    "importable l i name file = importable l img name file"
    "image_made i file st rack = image_made img file st rack"
    using same by (simp_all add: oxide_imports_def importable_def digest_ok_def name image_made_def)
qed

text \<open>The last reconcile: the image is the file and in the place that the spec asks for, nothing is left
  of the import, and the object says Ready for the generation of its spec.\<close>

definition image_up ::
  "('c, 'w) env \<Rightarrow> image \<Rightarrow> char list \<Rightarrow> ('w \<Rightarrow> image option) \<Rightarrow> ('w \<Rightarrow> import_rack)
   \<Rightarrow> ctrl_result \<times> error option \<Rightarrow> ('c, 'w) sys \<Rightarrow> bool" where
  "image_up E img file held rest r s \<longleftrightarrow>
     in_sync_now r
     \<and> (\<exists>obj. held (world s) = Some obj \<and> same_resource img obj
          \<and> finalizerName \<in> set (om_Finalizers (o_meta obj))
          \<and> IsStatusConditionTrue (e_lib E) (rst_Conditions (ist_Resource (o_status obj))) typeReady
          \<and> rst_ObservedGeneration (ist_Resource (o_status obj)) = om_Generation (o_meta img)
          \<and> image_made img file (o_status obj) (rest (world s)))"

definition importing ::
  "('c, 'w) env \<Rightarrow> object_key \<Rightarrow> image \<Rightarrow> string \<Rightarrow> char list \<Rightarrow> ('w \<Rightarrow> image option) \<Rightarrow> ('w \<Rightarrow> import_rack) \<Rightarrow> ('w \<Rightarrow> 'w)
   \<Rightarrow> nat \<Rightarrow> ('c, 'w) sys \<Rightarrow> bool" where
  "importing E req img name file held rest tick lag s \<longleftrightarrow>
     lib_ok (e_lib E) \<and> serves_object (e_image E) req held rest \<and> oxide_imports E img name file held rest tick lag
     \<and> importable (e_lib E) img name file
     \<and> \<not> reconcileDisabled (o_meta img) \<and> om_DeletionTimestamp (o_meta img) = None
     \<and> (\<exists>obj. held (world s) = Some obj \<and> same_resource img obj \<and> import_state file obj (rest (world s)))"

lemma import_state_status:
  "o_status a = o_status b \<Longrightarrow> import_state file a rack = import_state file b rack"
  by (simp add: import_state_def)

lemma import_state_unknown:
  "import_ok file rack \<Longrightarrow> \<forall>i. ir_image rack = Some i \<longrightarrow> oi_Id i \<noteq> rst_ID (ist_Resource (o_status obj)) \<Longrightarrow>
   import_state file obj rack"
  by (auto simp: import_state_def)

text \<open>A reconcile that ends with an error of Oxide is run again with backoff: the error is not a terminal
  one.\<close>

definition retried :: "ctrl_result \<times> error option \<Rightarrow> bool" where
  "retried r \<longleftrightarrow> fst r = no_requeue
     \<and> (\<exists>e. snd r = Some e \<and> list_all (\<lambda>x. case x of Terminal _ \<Rightarrow> False | _ \<Rightarrow> True) (err_chain e))"

definition runs_again :: "ctrl_result \<times> error option \<Rightarrow> bool" where
  "runs_again r \<longleftrightarrow> look_again r \<or> retried r"

lemma progress_runs_again:
  assumes "import_progress lag file uid rack e rack'"
  shows "runs_again (snd (setReady_outcome (Some e)))"
proof -
  from assms consider (progress) m where "e = Progressing m" | (refused) h where "e = HTTPErr h"
    by (auto simp: import_progress_def)
  then show ?thesis
  proof cases
    case progress
    then show ?thesis by (simp add: runs_again_def outcome_results)
  next
    case refused
    then show ?thesis
      by (auto simp: runs_again_def retried_def setReady_outcome_def Let_def ShortError_def as_http_def split: option.split)
  qed
qed

lemma image_pass:
  fixes s :: "('c, 'w) sys"
  assumes good: "importing E req img name file held rest tick lag s"
  shows "\<exists>err st obj' s'. ImageReconciler_Reconcile E req s = Some (snd (setReady_outcome err), s')
    \<and> import_pass lag file img (rest (world s)) err st (rest (world s')) \<and> held (world s') = Some obj' \<and> same_resource img obj'
    \<and> finalizerName \<in> set (om_Finalizers (o_meta obj'))
    \<and> published_as (e_lib E) (\<lambda>st. rst_Conditions (ist_Resource st))
        (\<lambda>cs st. st\<lparr>ist_Resource := (ist_Resource st)\<lparr>rst_Conditions := cs\<rparr>\<rparr>)
        (\<lambda>g st. st\<lparr>ist_Resource := (ist_Resource st)\<lparr>rst_ObservedGeneration := g\<rparr>\<rparr>) err st obj'"
proof -
  from good obtain obj where obj: "held (world s) = Some obj" "same_resource img obj" "import_state file obj (rest (world s))"
    and lib: "lib_ok (e_lib E)" and kube: "serves_object (e_image E) req held rest"
    and ox: "oxide_imports E img name file held rest tick lag" and imp: "importable (e_lib E) img name file"
    by (auto simp: importing_def)
  have active: "\<not> reconcileDisabled (o_meta obj)" "om_DeletionTimestamp (o_meta obj) = None"
    using good same_resourceD(5,6) [OF obj(2)] by (simp_all add: importing_def)
  have "\<exists>err obj2 s2. handleImageOperations E base s1 = Some ((err, obj2), s2) \<and> held (world s2) = Some base
      \<and> import_pass lag file img (rest (world s)) err (o_status obj2) (rest (world s2))"
    if base: "same_resource obj base" "o_status base = o_status obj" "rest (world s1) = rest (world s)" "held (world s1) = Some base"
    for base and s1 :: "('c, 'w) sys"
  proof -
    note same = import_same [OF same_resource_trans [OF obj(2) base(1)]]
    have "import_pass lag file base rack err st rack' = import_pass lag file img rack err st rack'" for rack err st rack'
      by (simp add: import_pass_def same(3) split: option.split)
    moreover have "import_state file base (rest (world s1))"
      using obj(3) import_state_status [OF base(2)] by (simp add: base(3))
    ultimately show ?thesis
      using handleImageOperations_pass [of E base name "file" held rest tick lag s1] ox imp base(3,4) by (simp add: same)
  qed
  from img_ctl.reconcile_pass [OF lib kube obj(1) active,
      where P = "\<lambda>err st rack'. import_pass lag file img (rest (world s)) err st rack'", OF this]
  show ?thesis using same_resource_trans [OF obj(2)] by blast
qed

interpretation img_up: closed_loop "ImageReconciler_Reconcile E req" "later tick" runs_again
    "image_up E img file held rest" "importing E req img name file held rest tick lag"
    "\<lambda>s. import_time lag (rest (world s))"
  for E :: "('c, 'w) env" and req img name "file" held rest tick lag
proof unfold_locales
  fix s :: "('c, 'w) sys"
  assume good: "importing E req img name file held rest tick lag s"
  then have ox: "oxide_imports E img name file held rest tick lag" by (simp add: importing_def)
  from image_pass [OF good] obtain err st obj' s' where
    s': "ImageReconciler_Reconcile E req s = Some (snd (setReady_outcome err), s')"
      "import_pass lag file img (rest (world s)) err st (rest (world s'))" "held (world s') = Some obj'" "same_resource img obj'"
      "finalizerName \<in> set (om_Finalizers (o_meta obj'))"
    and pub: "published_as (e_lib E) (\<lambda>st. rst_Conditions (ist_Resource st))
        (\<lambda>cs st. st\<lparr>ist_Resource := (ist_Resource st)\<lparr>rst_Conditions := cs\<rparr>\<rparr>)
        (\<lambda>g st. st\<lparr>ist_Resource := (ist_Resource st)\<lparr>rst_ObservedGeneration := g\<rparr>\<rparr>) err st obj'"
    by blast
  show "\<exists>r s'. ImageReconciler_Reconcile E req s = Some (r, s') \<and>
      (image_up E img file held rest r s' \<or>
       runs_again r \<and> importing E req img name file held rest tick lag (later tick s')
       \<and> 0 < import_time lag (rest (world (later tick s')))
       \<and> import_time lag (rest (world (later tick s'))) < import_time lag (rest (world s)))"
  proof (cases err)
    case None
    with s' pub same_resourceD(4) [OF s'(4)] have "image_up E img file held rest (snd (setReady_outcome err)) s'"
      by (auto simp: image_up_def published_as_def import_pass_def image_made_def outcome_results)
    with s'(1) show ?thesis by blast
  next
    case (Some e)
    with s'(2) have progress: "import_progress lag file (rst_ID (ist_Resource st)) (rest (world s)) e (rest (world s'))"
      by (simp add: import_pass_def)
    note next' = progress_arrives [OF progress oxide_importsD(7) [OF ox, of "world s'"] oxide_importsD(8) [OF ox]]
    have "rst_ID (ist_Resource (o_status obj')) = rst_ID (ist_Resource st)"
      using pub Some by (auto simp: published_as_def)
    with import_state_unknown [OF next'(1)] next'(3) have "import_state file obj' (rest (tick (world s')))" by simp
    with good s'(3,4) have "importing E req img name file held rest tick lag (later tick s')"
      by (auto simp: importing_def oxide_importsD(6) [OF ox])
    with s'(1) Some progress_runs_again [OF progress] next'(2) import_time_bound(1) [of lag "rest (tick (world s'))"]
    show ?thesis by auto
  qed
qed

section \<open>Properties\<close>

text \<open>C2: an import ends with the file. Take an Image with a URL that has not opted out and is not being
  deleted, a web server that has a file there that a disk can hold and whose digest is the one of the
  spec if there is one, and an Oxide that accepts the import's requests in the states for them and is
  done with what it has under way (making a disk ready, finalizing it, making a snapshot) after at most
  \<open>lag\<close> more looks at it. A finalization may be done at once or take its time, with a snapshot or without
  one; and while it lasts, Oxide may refuse to delete the disk. The import may have been interrupted
  anywhere: its disk may be missing, being created, ready and partly written with bytes of this file,
  open for writes, detached, or being finalized, with its snapshot still to come or without one; its
  snapshot or the image itself may be there. Then at most \<open>5 + 3 * lag\<close> reconciles (five if Oxide is
  always done by the next look) leave an image in Oxide whose bytes are the file followed by zeros, in
  the silo or the project as the spec asks, with neither the disk nor the snapshot of the import left
  over, and the object Ready for the generation of its spec with that image's ID. Each reconcile before
  the last asks to be run again after \<^verbatim>\<open>progressPeriod\<close>, or, where Oxide refused to delete the disk, ends
  with an error that is retried with backoff.\<close>

theorem import_converges:
  assumes "lib_ok (e_lib E)" and "serves_object (e_image E) req held rest"
    and "oxide_imports E img name file held rest tick lag" and "importable (e_lib E) img name file"
    and "\<not> reconcileDisabled (o_meta img)" and "om_DeletionTimestamp (o_meta img) = None"
    and "held (world s) = Some img" and "import_state file img (rest (world s))"
  shows "settles (ImageReconciler_Reconcile E req) (later tick) runs_again (image_up E img file held rest) (5 + 3 * lag) s"
  using assms import_time_bound(1) import_time_bound(2) [OF oxide_importsD(8) [OF assms(3)]]
  by (intro img_up.settles_within [where img = img and name = name and tick = tick and lag = lag])
    (simp_all add: importing_def)

text \<open>An Oxide that does all of it in the background, one look longer than it needs, and refuses to delete
  a disk that is being finalized: a disk, a snapshot and an image at most.\<close>

type_synonym import_world = "(image, import_rack) one_world"

definition with_rack :: "(import_rack \<Rightarrow> import_rack) \<Rightarrow> import_world \<Rightarrow> import_world" where
  "with_rack f w = w\<lparr>ow_rack := f (ow_rack w)\<rparr>"

definition lab_disk :: "request \<Rightarrow> import_world \<Rightarrow> (error + ox_disk) \<times> import_world" where
  "lab_disk q w =
     (case q of
        DiskCreate p body \<Rightarrow>
          (let d = \<lparr>od_Id = ''d1'', od_State = DiskStateCreating, od_Size = dc_Size body\<rparr>
           in (Inr d, with_rack (\<lambda>r. r\<lparr>ir_disk := Some d, ir_disk_bytes := blank_disk, ir_due := 1\<rparr>) w))
      | _ \<Rightarrow> (case ir_disk (ow_rack w) of None \<Rightarrow> Inl oxide_not_found | Some d \<Rightarrow> Inr d, w))"

definition lab_snapshot :: "request \<Rightarrow> import_world \<Rightarrow> (error + ox_snapshot) \<times> import_world" where
  "lab_snapshot q w = (case ir_snapshot (ow_rack w) of None \<Rightarrow> Inl oxide_not_found | Some sn \<Rightarrow> Inr sn, w)"

text \<open>The ID of a new image is one that the object's status does not have.\<close>

definition fresh_id :: "import_world \<Rightarrow> string" where
  "fresh_id w =
     (case ow_object w of None \<Rightarrow> ''m'' | Some obj \<Rightarrow> CHR ''m'' # rst_ID (ist_Resource (o_status obj)))"

definition lab_image :: "request \<Rightarrow> import_world \<Rightarrow> (error + ox_image) \<times> import_world" where
  "lab_image q w =
     (case q of
        ImageCreate p body \<Rightarrow>
          (let i = \<lparr>oi_Id = fresh_id w, oi_ProjectId = ''p1'', oi_Size = 1\<rparr>
           in (Inr i, with_rack (\<lambda>r. r\<lparr>ir_image := Some i, ir_image_bytes := ir_snapshot_bytes r\<rparr>) w))
      | ImageView p name \<Rightarrow>
          (case ir_image (ow_rack w) of
             None \<Rightarrow> (Inl oxide_not_found, w)
           | Some i \<Rightarrow> (if (p = '''') = (oi_ProjectId i = '''') then Inr i else Inl oxide_not_found, w))
      | _ \<Rightarrow>
          (case ir_image (ow_rack w) of
             None \<Rightarrow> (Inl oxide_not_found, w)
           | Some i \<Rightarrow>
               (Inr i, with_rack (\<lambda>r. r\<lparr>ir_image := Some (i\<lparr>oi_ProjectId := case q of ImageDemote _ _ \<Rightarrow> ''p1'' | _ \<Rightarrow> ''''\<rparr>)\<rparr>) w)))"

definition still_busy :: error where
  "still_busy = HTTPErr \<lparr>he_Method = ''DELETE'', he_RequestURI = ''/v1/disks'', he_StatusCode = 400,
     he_ErrorResponse = Some \<lparr>ae_ErrorCode = ''InvalidRequest'', ae_Message = ''disk is finalizing'', ae_RequestId = ''2''\<rparr>,
     he_ObjectNotFound = False, he_HTTP400 = True, he_Text = ''busy''\<rparr>"

definition lab_done :: "request \<Rightarrow> import_world \<Rightarrow> error option \<times> import_world" where
  "lab_done q w =
     (if disk_is DiskStateFinalizing (ow_rack w) \<and> (case q of DiskDelete _ _ \<Rightarrow> True | _ \<Rightarrow> False)
      then (Some still_busy, w)
      else (None, with_rack (\<lambda>r.
        case q of
          DiskBulkWriteImportStart _ _ \<Rightarrow> to_state DiskStateImportingFromBulkWrites r
        | DiskBulkWriteImport _ _ b offset \<Rightarrow> r\<lparr>ir_disk_bytes := disk_write (offset, base64_decode b) (ir_disk_bytes r)\<rparr>
        | DiskBulkWriteImportStop _ _ \<Rightarrow>
            if disk_is DiskStateImportingFromBulkWrites r then to_state DiskStateImportReady r else r
        | DiskFinalizeImport _ _ snapshot \<Rightarrow>
            if \<not> disk_is DiskStateImportReady r then r
            else if snapshot = '''' then (to_state DiskStateFinalizing r)\<lparr>ir_due := 1\<rparr>
            else (to_state DiskStateFinalizing r)\<lparr>ir_snapshot := None, ir_snapshot_bytes := ir_disk_bytes r,
              ir_coming := True, ir_due := 1\<rparr>
        | DiskDelete _ _ \<Rightarrow> r\<lparr>ir_disk := None\<rparr>
        | SnapshotDelete _ _ \<Rightarrow> r\<lparr>ir_snapshot := None\<rparr>
        | _ \<Rightarrow> r) w))"

definition lab_view :: "import_rack \<Rightarrow> import_rack" where
  "lab_view r = r\<lparr>ir_due := min 1 (ir_due r)\<rparr>"

definition lab_tick :: "import_world \<Rightarrow> import_world" where
  "lab_tick = with_rack (\<lambda>r.
     if \<not> pending r then r
     else if 0 < ir_due r then r\<lparr>ir_coming := (ir_coming r \<and> ir_snapshot r = None), ir_due := 0\<rparr>
     else (to_state (if disk_is DiskStateCreating r then DiskStateImportReady
                     else if disk_is DiskStateFinalizing r then DiskStateDetached
                     else case ir_disk r of Some d \<Rightarrow> od_State d | None \<Rightarrow> DiskStateDetached) r)
       \<lparr>ir_snapshot := (case ir_snapshot r of
            None \<Rightarrow> if ir_coming r then Some \<lparr>os_Id = ''sn1'', os_State = snapshot_ready, os_Size = 1\<rparr> else None
          | Some sn \<Rightarrow> Some (if os_State sn = SnapshotStateCreating then sn\<lparr>os_State := snapshot_ready\<rparr> else sn)),
        ir_coming := False\<rparr>)"

definition lab :: "(nat, import_world) env" where
  "lab = (connected env0)\<lparr>
     e_oxide := oxide0\<lparr>ox_disk := (\<lambda>_. lab_disk), ox_snapshot := (\<lambda>_. lab_snapshot), ox_image := (\<lambda>_. lab_image),
       ox_done := (\<lambda>_. lab_done)\<rparr>,
     e_secret := (\<lambda>_ w. (Inr token_secret, w)), e_image := api, e_http_do := (\<lambda>_ w. (Inr served, w))\<rparr>"

lemma lab_simps:
  "e_oxide lab = oxide0\<lparr>ox_disk := (\<lambda>_. lab_disk), ox_snapshot := (\<lambda>_. lab_snapshot), ox_image := (\<lambda>_. lab_image),
     ox_done := (\<lambda>_. lab_done)\<rparr>"
  "e_lib lab = lib0" "e_image lab = api" "e_http_do lab = (\<lambda>_ w. (Inr served, w))" "e_new_http_request lab = (\<lambda>_. None)"
  by (simp_all add: lab_def connected_def env0_def)

lemma with_rack_simps [simp]:
  "ow_object (with_rack f w) = ow_object w" "ow_rack (with_rack f w) = f (ow_rack w)"
  by (simp_all add: with_rack_def)

lemma lab_view_simps [simp]:
  "ir_disk (lab_view r) = ir_disk r" "ir_snapshot (lab_view r) = ir_snapshot r" "ir_image (lab_view r) = ir_image r"
  "ir_disk_bytes (lab_view r) = ir_disk_bytes r" "ir_snapshot_bytes (lab_view r) = ir_snapshot_bytes r"
  "ir_coming (lab_view r) = ir_coming r" "disk_is st (lab_view r) = disk_is st r" "snapshot_is sst (lab_view r) = snapshot_is sst r"
  "lab_view (to_state st r) = to_state st (lab_view r)" "lab_view (r\<lparr>ir_disk := d\<rparr>) = (lab_view r)\<lparr>ir_disk := d\<rparr>"
  "lab_view (r\<lparr>ir_disk_bytes := b\<rparr>) = (lab_view r)\<lparr>ir_disk_bytes := b\<rparr>"
  "lab_view (r\<lparr>ir_snapshot := sn\<rparr>) = (lab_view r)\<lparr>ir_snapshot := sn\<rparr>"
  "lab_view (r\<lparr>ir_snapshot_bytes := b\<rparr>) = (lab_view r)\<lparr>ir_snapshot_bytes := b\<rparr>"
  "lab_view (r\<lparr>ir_coming := c\<rparr>) = (lab_view r)\<lparr>ir_coming := c\<rparr>"
  "lab_view (r\<lparr>ir_image := i\<rparr>) = (lab_view r)\<lparr>ir_image := i\<rparr>"
  "lab_view (r\<lparr>ir_image_bytes := b\<rparr>) = (lab_view r)\<lparr>ir_image_bytes := b\<rparr>"
  "lab_view (r\<lparr>ir_due := n\<rparr>) = (lab_view r)\<lparr>ir_due := min 1 n\<rparr>"
  by (simp_all add: lab_view_def to_state_def disk_is_def snapshot_is_def)

lemma oxide_not_found_gone [simp]: "is_object_not_found oxide_not_found"
  by (simp add: oxide_not_found_def)

abbreviation lab_rest :: "import_world \<Rightarrow> import_rack" where
  "lab_rest \<equiv> \<lambda>w. lab_view (ow_rack w)"

lemma lab_shows: "p \<noteq> '''' \<Longrightarrow> oxide_shows lab p name i ow_object lab_rest oc w"
  by (auto simp: oxide_shows_def answers_def lab_simps lab_disk_def lab_snapshot_def lab_image_def shows_option_def
      not_found_answer_def split: option.split)

lemma lab_imports_disk: "oxide_imports_disk lab p name ow_object lab_rest oc w"
  unfolding oxide_imports_disk_def
  by (intro conjI impI allI;
      force simp: answers_def lab_simps lab_disk_def lab_done_def finalized_def ok_or_gone_def refused_def still_busy_def
        Let_def disk_isD intro: exI [of _ None] exI [of _ "1 :: nat"])

lemma lab_makes_image: "oxide_makes_image lab p ow_object lab_rest oc w"
  unfolding oxide_makes_image_def
  by (intro conjI impI allI) (auto simp: answers_def lab_simps lab_image_def fresh_id_def Let_def)

lemma pending_lab_view [simp]: "pending (lab_view r) = pending r"
  by (simp add: pending_def)

lemma to_state_same: "(\<And>d. ir_disk r = Some d \<Longrightarrow> od_State d = st) \<Longrightarrow> to_state st r = r"
  by (cases "ir_disk r") (simp_all add: to_state_def)

lemma import_movesI:
  assumes "pending rack"
    and "rack' = (to_state st rack)\<lparr>ir_snapshot := snap, ir_coming := (ir_coming rack \<and> snap = None), ir_due := n\<rparr>"
    and "\<And>d. ir_disk rack = Some d \<Longrightarrow> disk_moves (od_State d) st"
    and "snapshot_moves (ir_coming rack) (ir_snapshot rack) snap"
    and "disk_is DiskStateDetached rack' \<Longrightarrow> \<not> ir_coming rack'" and "pending rack' \<Longrightarrow> n < ir_due rack"
  shows "import_moves rack rack'"
  unfolding import_moves_def if_P [OF assms(1)] using assms(2-6) by blast

lemma lab_moves: "import_moves (lab_rest w) (lab_rest (lab_tick w))"
proof (cases "pending (ow_rack w)")
  case False
  then show ?thesis by (simp add: import_moves_def lab_tick_def)
next
  case pending: True
  let ?r = "ow_rack w"
  show ?thesis
  proof (cases "0 < ir_due ?r")
    case waiting: True
    define st where "st = (case ir_disk ?r of Some d \<Rightarrow> od_State d | None \<Rightarrow> DiskStateDetached)"
    have same: "to_state st (lab_view ?r) = lab_view ?r"
      by (rule to_state_same) (simp add: st_def)
    have tick: "lab_rest (lab_tick w) = (lab_view ?r)\<lparr>ir_coming := (ir_coming ?r \<and> ir_snapshot ?r = None), ir_due := 0\<rparr>"
      using pending waiting by (simp add: lab_tick_def)
    show ?thesis
    proof (rule import_movesI [where st = st and snap = "ir_snapshot ?r" and n = 0])
      show "lab_rest (lab_tick w) = (to_state st (lab_view ?r))\<lparr>ir_snapshot := ir_snapshot ?r,
          ir_coming := (ir_coming (lab_view ?r) \<and> ir_snapshot ?r = None), ir_due := 0\<rparr>"
        unfolding same tick by (simp add: lab_view_def)
      show "disk_moves (od_State d) st" if "ir_disk (lab_view ?r) = Some d" for d
        using that by (simp add: disk_moves_def st_def)
      show "snapshot_moves (ir_coming (lab_view ?r)) (ir_snapshot (lab_view ?r)) (ir_snapshot ?r)"
        by (simp add: snapshot_moves_def split: option.split)
      show "\<not> ir_coming (lab_rest (lab_tick w))" if "disk_is DiskStateDetached (lab_rest (lab_tick w))"
        using that pending unfolding tick by (auto simp: pending_def disk_is_def snapshot_is_def)
    qed (use pending waiting pending_lab_view [of ?r] in \<open>simp_all add: lab_view_def\<close>)
  next
    case False
    let ?st = "if disk_is DiskStateCreating ?r then DiskStateImportReady
        else if disk_is DiskStateFinalizing ?r then DiskStateDetached
        else case ir_disk ?r of Some d \<Rightarrow> od_State d | None \<Rightarrow> DiskStateDetached"
    let ?sn = "case ir_snapshot ?r of
        None \<Rightarrow> if ir_coming ?r then Some \<lparr>os_Id = ''sn1'', os_State = snapshot_ready, os_Size = 1\<rparr> else None
      | Some sn \<Rightarrow> Some (if os_State sn = SnapshotStateCreating then sn\<lparr>os_State := snapshot_ready\<rparr> else sn)"
    have tick: "lab_rest (lab_tick w) = (to_state ?st (lab_view ?r))\<lparr>ir_snapshot := ?sn, ir_coming := False\<rparr>"
      using pending False by (simp add: lab_tick_def)
    have ended: "\<not> pending (lab_rest (lab_tick w))"
      unfolding tick by (auto simp: pending_def snapshot_is_def disk_is_def split: option.split)
    show ?thesis
    proof (rule import_movesI [where st = ?st and snap = ?sn and n = 0])
      show "lab_rest (lab_tick w) = (to_state ?st (lab_view ?r))\<lparr>ir_snapshot := ?sn,
          ir_coming := (ir_coming (lab_view ?r) \<and> ?sn = None), ir_due := 0\<rparr>"
        unfolding tick using False by (simp add: lab_view_def split: option.split)
      show "disk_moves (od_State d) ?st" if "ir_disk (lab_view ?r) = Some d" for d
        using that by (simp add: disk_moves_def disk_is_def)
      show "snapshot_moves (ir_coming (lab_view ?r)) (ir_snapshot (lab_view ?r)) ?sn"
        by (simp add: snapshot_moves_def split: option.split)
      show "\<not> ir_coming (lab_rest (lab_tick w))" unfolding tick by simp
    qed (use pending ended in simp_all)
  qed
qed

lemma lab_imports:
  assumes "rs_ConnectionRef (is_Resource (o_spec img)) = ''conn''" and "ProjectName (is_ProjectRef (o_spec img)) \<noteq> ''''"
  shows "oxide_imports lab img name ''data'' ow_object lab_rest lab_tick 1"
proof -
  have "connects (NewClientFromRef lab ''conn'') ow_object lab_rest"
    by (rule token_connects) (simp_all add: lab_def connected_def env0_def)
  moreover have "web_serves lab url ''data'' ow_object lab_rest w" for url w
    by (simp add: web_serves_def answers_def lab_simps served_def short_body_def)
  moreover have "ir_due (lab_rest w) \<le> 1" for w by (simp add: lab_view_def)
  ultimately show ?thesis
    using assms lab_shows [OF assms(2)] lab_imports_disk lab_makes_image lab_moves
    unfolding oxide_imports_def Let_def by (intro conjI allI) (simp_all add: lab_tick_def)
qed

text \<open>An import that was interrupted in the middle of a chunk.\<close>

definition interrupted :: "(nat, import_world) sys" where
  "interrupted =
     \<lparr>world = \<lparr>ow_object = Some (import_image ''''),
        ow_rack = \<lparr>ir_disk = Some \<lparr>od_Id = ''d1'', od_State = DiskStateImportingFromBulkWrites, od_Size = 2 ^ 30\<rparr>,
          ir_disk_bytes = (\<lambda>i. CHR ''d''), ir_snapshot = None, ir_snapshot_bytes = blank_disk, ir_image = None,
          ir_image_bytes = blank_disk, ir_coming = False, ir_due = 0\<rparr>\<rparr>,
      clients = (\<lambda>_. None), trace = []\<rparr>"

theorem import_converges_witness:
  "settles (ImageReconciler_Reconcile lab key0) (later lab_tick) runs_again
     (image_up lab (import_image '''') ''data'' ow_object lab_rest) 8 interrupted"
proof -
  have "settles (ImageReconciler_Reconcile lab key0) (later lab_tick) runs_again
     (image_up lab (import_image '''') ''data'' ow_object lab_rest) (5 + 3 * 1) interrupted"
  proof (rule import_converges)
    show "oxide_imports lab (import_image '''') ''demo-import-0a1b2c3d'' ''data'' ow_object lab_rest lab_tick 1"
      by (rule lab_imports) (simp_all add: import_image_def resource0_def ProjectName_def project_ref0_def)
    show "importable (e_lib lab) (import_image '''') ''demo-import-0a1b2c3d'' ''data''"
      by (simp add: importable_def digest_ok_def gib_def)
    show "\<not> reconcileDisabled (o_meta (import_image ''''))" "om_DeletionTimestamp (o_meta (import_image '''')) = None"
      by (simp_all add: import_image_def)
    show "import_state ''data'' (import_image '''') (lab_rest (world interrupted))"
      by (simp add: import_state_def import_ok_def disk_ok_def interrupted_def)
  qed (simp_all add: lab_simps lib0_ok api_serves_view interrupted_def)
  then show ?thesis by simp
qed

end
