(* ===== verification/Instance_Convergence.thy ===== *)
theory Instance_Convergence
  imports Instance_Controller
begin

text \<open>
  The Instance controller in closed loop with the API server and Oxide: reconciles of an Instance, one
  after the other, make its instance and bring it to the size and the power state of the spec; and when
  the object is deleted, they take everything down and let go of it. What Oxide does of its own is the
  hypothesis \<open>oxide_serves\<close>: requests that its API documents as legal in the state of the instance are
  accepted and have their effect, a state on the way to another is left after at most \<open>lag\<close> more looks
  at it, and nobody else interferes.
\<close>

section \<open>The hypothesis\<close>

text \<open>The states that Oxide leaves by itself, and where it goes from them: a start ends in running, a
  stop in stopped; from the others (creating, rebooting, migrating, repairing and any that the code does
  not name) it may come out either way, and through other such states.\<close>

definition destroyed :: instance_state where
  "destroyed = InstanceStateOther ''destroyed''"

definition in_transit :: "instance_state \<Rightarrow> bool" where
  "in_transit r \<longleftrightarrow> r \<notin> {InstanceStateStopped, InstanceStateRunning, InstanceStateFailed, destroyed}"

definition ends_in :: "instance_state \<Rightarrow> instance_state set" where
  "ends_in r =
     (if r = InstanceStateStarting then {InstanceStateRunning}
      else if r = InstanceStateStopping then {InstanceStateStopped}
      else {InstanceStateRunning, InstanceStateStopped})"

definition passes_through :: "instance_state \<Rightarrow> instance_state \<Rightarrow> bool" where
  "passes_through r r' \<longleftrightarrow>
     r' = r \<or> r \<noteq> InstanceStateStarting \<and> r \<noteq> InstanceStateStopping \<and> in_transit r'"

text \<open>What time makes of a state that Oxide has promised to leave after \<open>due\<close> more looks.\<close>

definition moves_on :: "instance_state \<Rightarrow> nat \<Rightarrow> instance_state \<Rightarrow> nat \<Rightarrow> bool" where
  "moves_on r due r' due' \<longleftrightarrow>
     (if in_transit r then r' \<in> ends_in r \<or> passes_through r r' \<and> due' < due else r' = r)"

text \<open>What is in Oxide for one Instance object: the instance, the boot disk of its name, and for how
  many more looks a transition of the instance may last.\<close>

record on_rack =
  or_instance :: "ox_instance option"
  or_boot_disk :: bool
  or_due :: nat

definition moved :: "on_rack \<Rightarrow> ox_instance \<Rightarrow> instance_state list \<Rightarrow> on_rack \<Rightarrow> bool" where
  "moved rack cur rs rack' \<longleftrightarrow>
     (\<exists>r \<in> set rs. \<exists>n. rack' = rack\<lparr>or_instance := Some (cur\<lparr>oin_RunState := r\<rparr>), or_due := n\<rparr>)"

text \<open>The states that an instance may be in for the operator to get anywhere with it.\<close>

definition alive :: "ox_instance \<Rightarrow> bool" where
  "alive cur \<longleftrightarrow> oin_RunState cur \<noteq> InstanceStateFailed \<and> oin_RunState cur \<noteq> destroyed"

text \<open>The requests about an instance that is there.\<close>

definition serves_current ::
  "('c, 'w) env \<Rightarrow> ('w \<Rightarrow> 'o) \<Rightarrow> ('w \<Rightarrow> on_rack) \<Rightarrow> 'c \<Rightarrow> 'w \<Rightarrow> ox_instance \<Rightarrow> bool" where
  "serves_current E held rest oc w cur \<longleftrightarrow>
     answers (ox_ips (e_oxide E) oc (InstanceExternalIpList (oin_Id cur))) held rest w
       (\<lambda>r rack. (\<exists>ips. r = Inr ips) \<and> rack = rest w)
   \<and> (oin_RunState cur = InstanceStateRunning \<longrightarrow>
        answers (ox_instance (e_oxide E) oc (InstanceStop (oin_Id cur))) held rest w
          (\<lambda>r rack. (\<exists>x. r = Inr x) \<and> moved (rest w) cur [InstanceStateStopping, InstanceStateStopped] rack))
   \<and> (oin_RunState cur = InstanceStateStopped \<longrightarrow>
        answers (ox_instance (e_oxide E) oc (InstanceStart (oin_Id cur))) held rest w
          (\<lambda>r rack. (\<exists>x. r = Inr x) \<and> moved (rest w) cur [InstanceStateStarting, InstanceStateRunning] rack))
   \<and> (oin_RunState cur = InstanceStateStopped \<longrightarrow>
        (\<forall>u. answers (ox_instance (e_oxide E) oc (InstanceUpdate (oin_Id cur) u)) held rest w
          (\<lambda>r rack. (\<exists>x. r = Inr x)
             \<and> rack = (rest w)\<lparr>or_instance := Some (cur\<lparr>oin_Ncpus := iu_Ncpus u, oin_Memory := iu_Memory u\<rparr>)\<rparr>)))
   \<and> (oin_RunState cur \<in> {InstanceStateStopped, InstanceStateFailed} \<longrightarrow>
        answers (ox_done (e_oxide E) oc (InstanceDelete (oin_Id cur))) held rest w
          (\<lambda>r rack. r = None \<and> rack = (rest w)\<lparr>or_instance := None\<rparr>))"

text \<open>The requests about one that is not: it can be created, and its boot disk can be deleted.\<close>

definition serves_absent ::
  "('c, 'w) env \<Rightarrow> ('w \<Rightarrow> 'o) \<Rightarrow> ('w \<Rightarrow> on_rack) \<Rightarrow> instance_obj \<Rightarrow> 'c \<Rightarrow> 'w \<Rightarrow> bool" where
  "serves_absent E held rest inst oc w \<longleftrightarrow>
     (\<forall>body. answers (ox_instance (e_oxide E) oc (InstanceCreate (ProjectName (ins_ProjectRef (o_spec inst))) body)) held rest w
        (\<lambda>r rack. \<exists>cur. r = Inr cur \<and> or_instance rack = Some cur
           \<and> oin_Ncpus cur = ic_Ncpus body \<and> oin_Memory cur = ic_Memory body \<and> alive cur))
   \<and> answers (ox_done (e_oxide E) oc (DiskDelete (ProjectName (ins_ProjectRef (o_spec inst))) (bootDiskName inst))) held rest w
        (\<lambda>r rack. ok_or_gone r \<and> rack = (rest w)\<lparr>or_boot_disk := False\<rparr>)"

definition oxide_serves ::
  "('c, 'w) env \<Rightarrow> instance_obj \<Rightarrow> ('w \<Rightarrow> instance_obj option) \<Rightarrow> ('w \<Rightarrow> on_rack) \<Rightarrow> ('w \<Rightarrow> 'w) \<Rightarrow> nat \<Rightarrow> bool" where
  "oxide_serves E inst held rest tick lag \<longleftrightarrow>
     connects (NewClientFromRef E (rs_ConnectionRef (ins_Resource (o_spec inst)))) held rest
   \<and> (\<forall>oc w. answers (ox_instance (e_oxide E) oc (InstanceView (ProjectName (ins_ProjectRef (o_spec inst)))
          (OxideName (ins_OxideName (o_spec inst)) (o_meta inst)))) held rest w
        (\<lambda>r rack. rack = rest w
           \<and> (case or_instance rack of Some cur \<Rightarrow> r = Inr cur | None \<Rightarrow> (\<exists>e. r = Inl e \<and> is_object_not_found e))))
   \<and> (\<forall>oc w i. answers (ox_image (e_oxide E) oc (ImageView (ProjectName (ins_ProjectRef (o_spec inst))) i)) held rest w
        (\<lambda>r rack. (\<exists>img. r = Inr img) \<and> rack = rest w))
   \<and> (\<forall>oc w cur. or_instance (rest w) = Some cur \<longrightarrow> serves_current E held rest oc w cur)
   \<and> (\<forall>oc w. or_instance (rest w) = None \<longrightarrow> serves_absent E held rest inst oc w)
   \<and> (\<forall>w. or_due (rest w) \<le> lag \<and> held (tick w) = held w \<and> or_boot_disk (rest (tick w)) = or_boot_disk (rest w)
        \<and> (case or_instance (rest w) of
             None \<Rightarrow> or_instance (rest (tick w)) = None
           | Some cur \<Rightarrow> (\<exists>r. moves_on (oin_RunState cur) (or_due (rest w)) r (or_due (rest (tick w)))
               \<and> or_instance (rest (tick w)) = Some (cur\<lparr>oin_RunState := r\<rparr>))))"

lemma oxide_servesD:
  assumes "oxide_serves E inst held rest tick lag"
  shows "\<exists>oc s'. NewClientFromRef E (rs_ConnectionRef (ins_Resource (o_spec inst))) s = Some (Inr oc, s')
      \<and> held (world s') = held (world s) \<and> rest (world s') = rest (world s)"
    and "answers (ox_instance (e_oxide E) oc (InstanceView (ProjectName (ins_ProjectRef (o_spec inst)))
          (OxideName (ins_OxideName (o_spec inst)) (o_meta inst)))) held rest w
        (\<lambda>r rack. rack = rest w
           \<and> (case or_instance rack of Some cur \<Rightarrow> r = Inr cur | None \<Rightarrow> (\<exists>e. r = Inl e \<and> is_object_not_found e)))"
    and "answers (ox_image (e_oxide E) oc (ImageView (ProjectName (ins_ProjectRef (o_spec inst))) i)) held rest w
        (\<lambda>r rack. (\<exists>img. r = Inr img) \<and> rack = rest w)"
    and "or_instance (rest w) = Some cur \<Longrightarrow> serves_current E held rest oc w cur"
    and "or_instance (rest w) = None \<Longrightarrow> serves_absent E held rest inst oc w"
    and "held (tick w) = held w" "or_boot_disk (rest (tick w)) = or_boot_disk (rest w)"
    and "or_instance (rest w) = None \<Longrightarrow> or_instance (rest (tick w)) = None"
    and "or_instance (rest w) = Some cur \<Longrightarrow>
        \<exists>r. moves_on (oin_RunState cur) (or_due (rest w)) r (or_due (rest (tick w)))
          \<and> or_instance (rest (tick w)) = Some (cur\<lparr>oin_RunState := r\<rparr>)"
    and "or_due (rest w) \<le> lag"
proof -
  note c1 = assms [unfolded oxide_serves_def connects_def]
  note c2 = c1 [THEN conjunct2]
  note c3 = c2 [THEN conjunct2]
  note c4 = c3 [THEN conjunct2]
  note c5 = c4 [THEN conjunct2]
  note tick = c5 [THEN conjunct2, THEN spec, of w]
  show "\<exists>oc s'. NewClientFromRef E (rs_ConnectionRef (ins_Resource (o_spec inst))) s = Some (Inr oc, s')
      \<and> held (world s') = held (world s) \<and> rest (world s') = rest (world s)"
    by (rule c1 [THEN conjunct1, THEN spec])
  show "answers (ox_instance (e_oxide E) oc (InstanceView (ProjectName (ins_ProjectRef (o_spec inst)))
          (OxideName (ins_OxideName (o_spec inst)) (o_meta inst)))) held rest w
        (\<lambda>r rack. rack = rest w
           \<and> (case or_instance rack of Some cur \<Rightarrow> r = Inr cur | None \<Rightarrow> (\<exists>e. r = Inl e \<and> is_object_not_found e)))"
    by (rule c2 [THEN conjunct1, THEN spec, THEN spec])
  show "answers (ox_image (e_oxide E) oc (ImageView (ProjectName (ins_ProjectRef (o_spec inst))) i)) held rest w
        (\<lambda>r rack. (\<exists>img. r = Inr img) \<and> rack = rest w)"
    by (rule c3 [THEN conjunct1, THEN spec, THEN spec, THEN spec])
  show "or_instance (rest w) = Some cur \<Longrightarrow> serves_current E held rest oc w cur"
    by (rule c4 [THEN conjunct1, THEN spec, THEN spec, THEN spec, THEN mp])
  show "or_instance (rest w) = None \<Longrightarrow> serves_absent E held rest inst oc w"
    by (rule c5 [THEN conjunct1, THEN spec, THEN spec, THEN mp])
  show "or_due (rest w) \<le> lag" by (rule tick [THEN conjunct1])
  show "held (tick w) = held w" "or_boot_disk (rest (tick w)) = or_boot_disk (rest w)"
    by (rule tick [THEN conjunct2, THEN conjunct1], rule tick [THEN conjunct2, THEN conjunct2, THEN conjunct1])
  show "or_instance (rest w) = None \<Longrightarrow> or_instance (rest (tick w)) = None"
    "or_instance (rest w) = Some cur \<Longrightarrow>
        \<exists>r. moves_on (oin_RunState cur) (or_due (rest w)) r (or_due (rest (tick w)))
          \<and> or_instance (rest (tick w)) = Some (cur\<lparr>oin_RunState := r\<rparr>)"
    using tick [THEN conjunct2, THEN conjunct2, THEN conjunct2] by simp_all
qed

text \<open>It is about the resource, not about what the operator adds to its object.\<close>

lemma oxide_serves_same:
  assumes "same_resource inst i"
  shows "oxide_serves E i held rest tick lag = oxide_serves E inst held rest tick lag"
  using same_resourceD [OF assms] by (simp add: oxide_serves_def serves_absent_def bootDiskName_def)

section \<open>Steps\<close>

text \<open>A size that the types of Go and of the SDK (\<^verbatim>\<open>InstanceCpuCount\<close>, \<^verbatim>\<open>ByteCount\<close>) can hold: neither is
  negative, the CPUs fit in 16 bits and the memory is read back as an \<^verbatim>\<open>int64\<close>.\<close>

definition size_in_range :: "instance_obj \<Rightarrow> bool" where
  "size_in_range inst \<longleftrightarrow>
     0 \<le> ins_NCPUs (o_spec inst) \<and> ins_NCPUs (o_spec inst) < 2 ^ 16
     \<and> 0 \<le> q_Value (ins_Memory (o_spec inst)) \<and> q_Value (ins_Memory (o_spec inst)) < 2 ^ 63"

lemma size_in_range_int64:
  "size_in_range inst \<Longrightarrow> int64_ok (ins_NCPUs (o_spec inst)) \<and> int64_ok (q_Value (ins_Memory (o_spec inst)))"
  by (simp add: size_in_range_def int64_ok_def)

text \<open>How many reconciles an instance is away from its spec, at most: those that do something, and those
  that find it in a transition that lasts.\<close>

definition stopped_time :: "nat \<Rightarrow> instance_obj \<Rightarrow> ox_instance \<Rightarrow> nat" where
  "stopped_time lag inst cur = (if size_differs cur inst then 1 else 0) + (if wantRunning inst then 2 + lag else 1)"

definition running_time :: "nat \<Rightarrow> instance_obj \<Rightarrow> ox_instance \<Rightarrow> nat" where
  "running_time lag inst cur =
     (if size_differs cur inst then 1 + lag + stopped_time lag inst cur else if wantRunning inst then 1 else 2 + lag)"

definition time_left :: "nat \<Rightarrow> instance_obj \<Rightarrow> ox_instance \<Rightarrow> nat \<Rightarrow> nat" where
  "time_left lag inst cur due =
     (if oin_RunState cur = InstanceStateStopped then stopped_time lag inst cur
      else if oin_RunState cur = InstanceStateRunning then running_time lag inst cur
      else if oin_RunState cur = InstanceStateStopping then Suc due + stopped_time lag inst cur
      else if oin_RunState cur = InstanceStateStarting then Suc due + running_time lag inst cur
      else Suc due + max (running_time lag inst cur) (stopped_time lag inst cur))"

definition rack_time :: "nat \<Rightarrow> instance_obj \<Rightarrow> on_rack \<Rightarrow> nat" where
  "rack_time lag inst rack =
     (case or_instance rack of None \<Rightarrow> 3 + 2 * lag | Some cur \<Rightarrow> time_left lag inst cur (or_due rack))"

lemma rack_time_pos: "0 < rack_time lag inst rack"
  by (auto simp: rack_time_def time_left_def stopped_time_def running_time_def split: option.split)

lemma rack_time_bound: "or_due rack \<le> lag \<Longrightarrow> rack_time lag inst rack \<le> 5 + 3 * lag"
  by (auto simp: rack_time_def time_left_def stopped_time_def running_time_def split: option.split)

text \<open>What the operations make of an instance: \<open>err\<close> and the instance after it, and how long it is still
  in transit.\<close>

definition in_state :: "ox_instance \<Rightarrow> instance_state list \<Rightarrow> ox_instance \<Rightarrow> bool" where
  "in_state cur rs c \<longleftrightarrow> (\<exists>r \<in> set rs. c = cur\<lparr>oin_RunState := r\<rparr>)"

definition pass_result :: "instance_obj \<Rightarrow> ox_instance \<Rightarrow> nat \<Rightarrow> error option \<Rightarrow> ox_instance \<Rightarrow> nat \<Rightarrow> bool" where
  "pass_result inst cur due err cur' due' \<longleftrightarrow>
     (case err of
        None \<Rightarrow> instance_in_sync inst cur \<and> cur' = cur
      | Some e \<Rightarrow> (\<exists>m. e = Progressing m) \<and>
          (if oin_RunState cur = InstanceStateRunning
           then (size_differs cur inst \<or> \<not> wantRunning inst)
             \<and> in_state cur [InstanceStateStopping, InstanceStateStopped] cur'
           else if oin_RunState cur = InstanceStateStopped
           then (if size_differs cur inst
                 then cur' = cur\<lparr>oin_Ncpus := ins_NCPUs (o_spec inst), oin_Memory := q_Value (ins_Memory (o_spec inst))\<rparr>
                 else wantRunning inst \<and> in_state cur [InstanceStateStarting, InstanceStateRunning] cur')
           else cur' = cur \<and> due' = due))"

lemma resized_fits:
  "size_in_range inst \<Longrightarrow>
   \<not> size_differs (cur\<lparr>oin_Ncpus := ins_NCPUs (o_spec inst), oin_Memory := q_Value (ins_Memory (o_spec inst))\<rparr>) inst"
  by (simp add: size_differs_def size_in_range_int64 wrap64_id)

lemma size_differs_state [simp]:
  "size_differs (cur\<lparr>oin_RunState := r\<rparr>) inst = size_differs cur inst"
  by (simp add: size_differs_def)

text \<open>A pass that reports progress brings the instance, after some time, closer to its spec.\<close>

lemma transit_states [simp]:
  "in_transit InstanceStateStarting" "in_transit InstanceStateStopping"
  "\<not> in_transit InstanceStateRunning" "\<not> in_transit InstanceStateStopped" "\<not> in_transit InstanceStateFailed"
  by (simp_all add: in_transit_def destroyed_def)

lemma moves_on_cases:
  assumes "moves_on r due r' due'"
  obtains (rest) "\<not> in_transit r" "r' = r"
    | (arrive) "in_transit r" "r' \<in> ends_in r"
    | (wait) "in_transit r" "in_transit r'" "passes_through r r'" "due' < due"
  using assms by (auto simp: moves_on_def passes_through_def split: if_splits)

lemma moves_on_alive:
  assumes "alive cur" and "moves_on (oin_RunState cur) due r due'"
  shows "alive (cur\<lparr>oin_RunState := r\<rparr>)"
  using assms(2) assms(1)
  by (cases rule: moves_on_cases) (auto simp: alive_def ends_in_def in_transit_def destroyed_def split: if_splits)

lemma transit_time:
  assumes "in_transit (oin_RunState cur)" and "moves_on (oin_RunState cur) due r due'"
  shows "time_left lag inst (cur\<lparr>oin_RunState := r\<rparr>) due' < time_left lag inst cur due"
  using assms(2)
proof (cases rule: moves_on_cases)
  case rest
  with assms(1) show ?thesis by simp
next
  case arrive
  then show ?thesis
    by (auto simp: time_left_def ends_in_def in_transit_def stopped_time_def running_time_def split: if_splits)
next
  case wait
  then show ?thesis
    by (auto simp: time_left_def passes_through_def in_transit_def stopped_time_def running_time_def)
qed

text \<open>Once it has been asked to stop, or to start, an instance gets there in time.\<close>

lemma requested_time:
  assumes "moves_on r due' r' due''" and "due' \<le> lag"
  shows "r \<in> {InstanceStateStopping, InstanceStateStopped} \<Longrightarrow>
      time_left lag inst (cur\<lparr>oin_RunState := r'\<rparr>) due'' \<le> lag + stopped_time lag inst cur"
    and "r \<in> {InstanceStateStarting, InstanceStateRunning} \<Longrightarrow>
      time_left lag inst (cur\<lparr>oin_RunState := r'\<rparr>) due'' \<le> lag + running_time lag inst cur"
  using assms
  by (auto simp: moves_on_def ends_in_def passes_through_def time_left_def stopped_time_def running_time_def)

lemma pass_progress:
  assumes "size_in_range inst" and "alive cur" and "pass_result inst cur due (Some e) cur' due'"
    and "moves_on (oin_RunState cur') due' r due''" and "due' \<le> lag"
  shows "alive (cur'\<lparr>oin_RunState := r\<rparr>)
    \<and> time_left lag inst (cur'\<lparr>oin_RunState := r\<rparr>) due'' < time_left lag inst cur due"
proof -
  consider (run) "oin_RunState cur = InstanceStateRunning" | (stop) "oin_RunState cur = InstanceStateStopped"
    | (wait) "oin_RunState cur \<noteq> InstanceStateRunning" "oin_RunState cur \<noteq> InstanceStateStopped" by blast
  then show ?thesis
  proof cases
    case run
    with assms(3) obtain r0 where r0: "r0 \<in> {InstanceStateStopping, InstanceStateStopped}"
        "cur' = cur\<lparr>oin_RunState := r0\<rparr>" "size_differs cur inst \<or> \<not> wantRunning inst"
      by (auto simp: pass_result_def in_state_def)
    with assms(4) have move: "moves_on r0 due' r due''" by simp
    have "alive cur'" using r0(1) by (auto simp: r0(2) alive_def destroyed_def)
    from moves_on_alive [OF this assms(4)] requested_time(1) [OF move assms(5) r0(1), of inst cur] run r0(2,3)
    show ?thesis by (auto simp: time_left_def [of lag inst cur due] running_time_def stopped_time_def)
  next
    case stop
    show ?thesis
    proof (cases "size_differs cur inst")
      case True
      with assms(3) stop have "cur' = cur\<lparr>oin_Ncpus := ins_NCPUs (o_spec inst), oin_Memory := q_Value (ins_Memory (o_spec inst))\<rparr>"
        by (simp add: pass_result_def)
      with True stop assms(4) resized_fits [OF assms(1), of "cur\<lparr>oin_RunState := r\<rparr>"] show ?thesis
        by (auto simp: moves_on_def alive_def destroyed_def time_left_def stopped_time_def resized_fits [OF assms(1)])
    next
      case False
      with assms(3) stop obtain r0 where r0: "r0 \<in> {InstanceStateStarting, InstanceStateRunning}"
          "cur' = cur\<lparr>oin_RunState := r0\<rparr>" "wantRunning inst"
        by (auto simp: pass_result_def in_state_def)
      with assms(4) have move: "moves_on r0 due' r due''" by simp
      have "alive cur'" using r0(1) by (auto simp: r0(2) alive_def destroyed_def)
      from moves_on_alive [OF this assms(4)] requested_time(2) [OF move assms(5) r0(1), of inst cur] stop False r0(2,3)
      show ?thesis by (auto simp: time_left_def [of lag inst cur due] running_time_def stopped_time_def)
    qed
  next
    case wait
    with assms(2,3) have "cur' = cur" "due' = due" "in_transit (oin_RunState cur)"
      by (auto simp: pass_result_def alive_def in_transit_def)
    with moves_on_alive [OF assms(2)] transit_time assms(4) show ?thesis by simp
  qed
qed

section \<open>One pass\<close>

lemma serves_currentD:
  assumes "serves_current E held rest oc w cur"
  shows "answers (ox_ips (e_oxide E) oc (InstanceExternalIpList (oin_Id cur))) held rest w
       (\<lambda>r rack. (\<exists>ips. r = Inr ips) \<and> rack = rest w)"
    and "oin_RunState cur = InstanceStateRunning \<Longrightarrow>
        answers (ox_instance (e_oxide E) oc (InstanceStop (oin_Id cur))) held rest w
          (\<lambda>r rack. (\<exists>x. r = Inr x) \<and> moved (rest w) cur [InstanceStateStopping, InstanceStateStopped] rack)"
    and "oin_RunState cur = InstanceStateStopped \<Longrightarrow>
        answers (ox_instance (e_oxide E) oc (InstanceStart (oin_Id cur))) held rest w
          (\<lambda>r rack. (\<exists>x. r = Inr x) \<and> moved (rest w) cur [InstanceStateStarting, InstanceStateRunning] rack)"
    and "oin_RunState cur = InstanceStateStopped \<Longrightarrow>
        answers (ox_instance (e_oxide E) oc (InstanceUpdate (oin_Id cur) u)) held rest w
          (\<lambda>r rack. (\<exists>x. r = Inr x)
             \<and> rack = (rest w)\<lparr>or_instance := Some (cur\<lparr>oin_Ncpus := iu_Ncpus u, oin_Memory := iu_Memory u\<rparr>)\<rparr>)"
    and "oin_RunState cur \<in> {InstanceStateStopped, InstanceStateFailed} \<Longrightarrow>
        answers (ox_done (e_oxide E) oc (InstanceDelete (oin_Id cur))) held rest w
          (\<lambda>r rack. r = None \<and> rack = (rest w)\<lparr>or_instance := None\<rparr>)"
  using assms unfolding serves_current_def by blast+

lemma moved_in_state:
  "moved rack cur rs rack' \<Longrightarrow> \<exists>cur'. or_instance rack' = Some cur' \<and> in_state cur rs cur'"
  by (auto simp: moved_def in_state_def)

text \<open>From \<open>s\<close> to \<open>s'\<close> the object stayed, and the instance became one that satisfies \<open>P\<close>, with what it
  has left of its transition.\<close>

definition leads ::
  "('w \<Rightarrow> 'o) \<Rightarrow> ('w \<Rightarrow> on_rack) \<Rightarrow> ('c, 'w) sys \<Rightarrow> ('c, 'w) sys \<Rightarrow> (ox_instance \<Rightarrow> nat \<Rightarrow> bool) \<Rightarrow> bool" where
  "leads held rest s s' P \<longleftrightarrow>
     held (world s') = held (world s)
     \<and> (\<exists>cur. or_instance (rest (world s')) = Some cur \<and> P cur (or_due (rest (world s'))))"

lemma stopInstance_pass:
  assumes cur: "serves_current E held rest oc (world s) cur" and run: "oin_RunState cur = InstanceStateRunning"
  shows "\<exists>s'. stopInstance E oc i cur msg s = Some (Progressing msg, s')
    \<and> leads held rest s s' (\<lambda>cur' _. in_state cur [InstanceStateStopping, InstanceStateStopped] cur')"
  using instance_answers [OF serves_currentD(2) [OF cur run]] run
  by (auto simp: stopInstance_def leads_def dest: moved_in_state)

lemma resizeInstance_pass:
  assumes cur: "serves_current E held rest oc (world s) cur" and there: "or_instance (rest (world s)) = Some cur"
    and spec: "o_spec i = o_spec inst" and size: "size_differs cur inst"
  shows "\<exists>err s'. resizeInstance E oc i cur s = Some (err, s') \<and> leads held rest s s' (pass_result inst cur (or_due (rest (world s))) (Some err))"
proof -
  consider (run) "oin_RunState cur = InstanceStateRunning" | (stop) "oin_RunState cur = InstanceStateStopped"
    | (wait) "oin_RunState cur \<noteq> InstanceStateRunning" "oin_RunState cur \<noteq> InstanceStateStopped"
    by blast
  then show ?thesis
  proof cases
    case run
    with stopInstance_pass [OF cur run, of i "''stopping instance to resize''"] size show ?thesis
      by (auto simp: resizeInstance_def pass_result_def leads_def)
  next
    case stop
    with instance_answers [OF serves_currentD(4) [OF cur stop, of "instanceUpdate cur i"]] size spec
    show ?thesis
      by (auto simp: resizeInstance_def pass_result_def instanceUpdate_def leads_def)
  next
    case wait
    with there show ?thesis by (auto simp: resizeInstance_def stopInstance_def pass_result_def leads_def)
  qed
qed

lemma powerInstance_pass:
  assumes cur: "serves_current E held rest oc (world s) cur" and there: "or_instance (rest (world s)) = Some cur"
    and spec: "o_spec i = o_spec inst" and size: "\<not> size_differs cur inst" and alive: "alive cur"
  shows "\<exists>err s'. powerInstance E oc i cur s = Some (err, s')
    \<and> leads held rest s s' (pass_result inst cur (or_due (rest (world s))) err) \<and> (err = None \<longrightarrow> s' = s)"
proof -
  have want: "wantRunning i = wantRunning inst" by (simp add: wantRunning_def spec)
  consider (stop) "oin_RunState cur = InstanceStateRunning" "\<not> wantRunning inst"
    | (start) "oin_RunState cur = InstanceStateStopped" "wantRunning inst"
    | (sync) "instance_in_sync inst cur"
    | (wait) "oin_RunState cur \<notin> {InstanceStateRunning, InstanceStateStopped, InstanceStateFailed}"
    using alive size by (cases "wantRunning inst") (auto simp: alive_def instance_in_sync_def)
  then show ?thesis
  proof cases
    case stop
    with stopInstance_pass [OF cur stop(1), of i "''stopping instance''"] show ?thesis
      by (auto simp: powerInstance_def pass_result_def want leads_def)
  next
    case start
    with instance_answers [OF serves_currentD(3) [OF cur start(1)]] size show ?thesis
      by (auto simp: powerInstance_def pass_result_def want leads_def dest: moved_in_state)
  next
    case sync
    with there show ?thesis
      by (auto simp: powerInstance_def pass_result_def want instance_in_sync_def leads_def)
  next
    case wait
    with there show ?thesis by (auto simp: powerInstance_def pass_result_def want Let_def leads_def)
  qed
qed

lemma convergeInstance_pass:
  assumes serves: "oxide_serves E inst held rest tick lag" and there: "or_instance (rest (world s)) = Some cur"
    and spec: "o_spec i = o_spec inst" and alive: "alive cur"
  shows "\<exists>err i' s'. convergeInstance E oc i cur s = Some ((err, i'), s')
    \<and> leads held rest s s' (pass_result inst cur (or_due (rest (world s))) err)"
proof -
  note cur = oxide_servesD(4) [OF serves there, of oc]
  let ?st = "(o_status i)\<lparr>
    inst_Resource := (inst_Resource (o_status i))\<lparr>rst_ID := oin_Id cur, rst_Project := ProjectName (ins_ProjectRef (o_spec i))\<rparr>,
    inst_State := InstanceStateText (e_lib E) (oin_RunState cur)\<rparr>"
  define j where "j = i\<lparr>o_status := ?st\<rparr>"
  have j: "o_spec j = o_spec inst" by (simp add: j_def spec)
  have size: "size_differs cur j = size_differs cur inst" "size_differs cur i = size_differs cur inst"
    by (simp_all add: size_differs_def j spec)
  have conv: "convergeInstance E oc i cur s =
      (if size_differs cur inst then do {
         (err, s) \<leftarrow> resizeInstance E oc j cur s;
         Some ((Some err, j), s)
       }
       else do {
         (err, s) \<leftarrow> powerInstance E oc j cur s;
         (case err of
            Some err \<Rightarrow> Some ((Some err, j), s)
          | None \<Rightarrow> do {
              (ips, s) \<leftarrow> oxide (ox_ips (e_oxide E)) oc (InstanceExternalIpList (oin_Id cur)) s;
              (case ips of
                 Inl err \<Rightarrow> Some ((Some err, j), s)
               | Inr ips \<Rightarrow> Some ((None, j\<lparr>o_status := (o_status j)\<lparr>
                   inst_ExternalIPs := externalIPs ips,
                   inst_LastObserved := Some (e_now E (world s))\<rparr>\<rparr>), s))
            })
       })"
    by (simp only: convergeInstance_def Let_def j_def [symmetric] size)
  show ?thesis
  proof (cases "size_differs cur inst")
    case True
    with resizeInstance_pass [OF cur there j True] show ?thesis by (auto simp: conv)
  next
    case False
    obtain err s2 where p: "powerInstance E oc j cur s = Some (err, s2)"
        "leads held rest s s2 (pass_result inst cur (or_due (rest (world s))) err)" "err = None \<longrightarrow> s2 = s"
      using powerInstance_pass [OF cur there j False alive] by blast
    obtain ips s3 where ips: "oxide (ox_ips (e_oxide E)) oc (InstanceExternalIpList (oin_Id cur)) s = Some (Inr ips, s3)"
        "held (world s3) = held (world s)" "rest (world s3) = rest (world s)"
      using ips_answers [OF serves_currentD(1) [OF cur]] by blast
    from False p ips there show ?thesis
      by (cases err) (auto simp: conv leads_def)
  qed
qed

text \<open>The creation of an instance that is not there.\<close>

lemma viewImage_pass:
  assumes "oxide_serves E inst held rest tick lag"
  shows "\<exists>img s'. viewImage E oc (ProjectName (ins_ProjectRef (o_spec inst))) i s = Some (Inr img, s')
    \<and> held (world s') = held (world s) \<and> rest (world s') = rest (world s)"
  using image_answers [OF oxide_servesD(3) [OF assms], of oc i s] by (auto simp: viewImage_def)

lemma instanceCreate_pass:
  assumes serves: "oxide_serves E inst held rest tick lag" and adm: "instance_admitted inst" and same: "same_resource inst i"
  shows "\<exists>body s'. instanceCreate E oc (ProjectName (ins_ProjectRef (o_spec i))) i s = Some (Inr body, s')
    \<and> ic_Ncpus body = ins_NCPUs (o_spec inst) \<and> ic_Memory body = q_Value (ins_Memory (o_spec inst))
    \<and> held (world s') = held (world s) \<and> rest (world s') = rest (world s)"
proof -
  have spec: "o_spec i = o_spec inst" using same_resourceD(1) [OF same] by simp
  have "\<exists>boot s'. bootDisk E oc (ProjectName (ins_ProjectRef (o_spec i))) i s = Some (Inr boot, s')
      \<and> held (world s') = held (world s) \<and> rest (world s') = rest (world s)"
  proof (cases "ins_BootDisk (o_spec inst)")
    case None
    then show ?thesis by (simp add: bootDisk_def spec)
  next
    case (Some bd)
    with viewImage_pass [OF serves, of oc "bd_Image bd" s] adm show ?thesis
      by (cases "bd_Disk bd = ''''"; cases "bd_Image bd = ''''"; cases "bd_Size bd")
        (auto simp: bootDisk_def spec diskSource_def instance_admitted_def boot_disk_admitted_def)
  qed
  then show ?thesis by (auto simp: instanceCreate_def spec Let_def)
qed

lemma createInstance_pass:
  assumes serves: "oxide_serves E inst held rest tick lag" and adm: "instance_admitted inst" and same: "same_resource inst i"
    and absent: "or_instance (rest (world s)) = None"
  shows "\<exists>cur s'. createInstance E oc i s = Some (Inr cur, s')
    \<and> leads held rest s s' (\<lambda>c _. c = cur) \<and> oin_Ncpus cur = ins_NCPUs (o_spec inst)
    \<and> oin_Memory cur = q_Value (ins_Memory (o_spec inst))
    \<and> alive cur"
proof -
  have spec: "o_spec i = o_spec inst" using same_resourceD(1) [OF same] by simp
  obtain body s1 where body: "instanceCreate E oc (ProjectName (ins_ProjectRef (o_spec i))) i s = Some (Inr body, s1)"
      "ic_Ncpus body = ins_NCPUs (o_spec inst)" "ic_Memory body = q_Value (ins_Memory (o_spec inst))"
      "held (world s1) = held (world s)" "rest (world s1) = rest (world s)"
    using instanceCreate_pass [OF serves adm same] by blast
  have "serves_absent E held rest inst oc (world s1)"
    by (rule oxide_servesD(5) [OF serves]) (simp add: body absent)
  then have "answers (ox_instance (e_oxide E) oc (InstanceCreate (ProjectName (ins_ProjectRef (o_spec inst))) body)) held rest (world s1)
        (\<lambda>r rack. \<exists>cur. r = Inr cur \<and> or_instance rack = Some cur
           \<and> oin_Ncpus cur = ic_Ncpus body \<and> oin_Memory cur = ic_Memory body
           \<and> alive cur)"
    by (simp add: serves_absent_def)
  from instance_answers [OF this] body show ?thesis
    by (auto simp: createInstance_def leads_def spec Let_def)
qed

text \<open>What the operations of one reconcile achieve, on what was there before.\<close>

definition ops_result :: "nat \<Rightarrow> instance_obj \<Rightarrow> on_rack \<Rightarrow> error option \<Rightarrow> on_rack \<Rightarrow> bool" where
  "ops_result lag inst rack err rack' \<longleftrightarrow>
     (\<exists>cur. or_instance rack' = Some cur
        \<and> (case err of
             None \<Rightarrow> instance_in_sync inst cur
           | Some e \<Rightarrow> (\<exists>m. e = Progressing m)
               \<and> (\<forall>r due. moves_on (oin_RunState cur) (or_due rack') r due \<longrightarrow> alive (cur\<lparr>oin_RunState := r\<rparr>)
                    \<and> time_left lag inst (cur\<lparr>oin_RunState := r\<rparr>) due < rack_time lag inst rack)))"

lemma pass_ops_result:
  assumes "size_in_range inst" and "alive cur" and "time_left lag inst cur due \<le> rack_time lag inst rack"
    and "or_instance rack' = Some cur'" and "or_due rack' \<le> lag" and "pass_result inst cur due err cur' (or_due rack')"
  shows "ops_result lag inst rack err rack'"
proof (cases err)
  case None
  with assms show ?thesis by (auto simp: ops_result_def pass_result_def)
next
  case (Some e)
  with assms(6) have "\<exists>m. e = Progressing m" by (auto simp: pass_result_def)
  with assms Some pass_progress [OF assms(1,2), of due e cur' "or_due rack'" _ _ lag] show ?thesis
    by (force simp: ops_result_def)
qed

lemma handleInstanceOperations_pass:
  assumes serves: "oxide_serves E inst held rest tick lag" and adm: "instance_admitted inst" "size_in_range inst"
    and same: "same_resource inst i" and alive: "\<And>cur. or_instance (rest (world s)) = Some cur \<Longrightarrow> alive cur"
  shows "\<exists>err i' s'. handleInstanceOperations E i s = Some ((err, i'), s')
    \<and> held (world s') = held (world s) \<and> ops_result lag inst (rest (world s)) err (rest (world s'))"
proof -
  have spec: "o_spec i = o_spec inst" "OxideName (ins_OxideName (o_spec inst)) (o_meta i) = OxideName (ins_OxideName (o_spec inst)) (o_meta inst)"
    using same_resourceD(1,7) [OF same] by simp_all
  obtain oc s1 where s1: "NewClientFromRef E (rs_ConnectionRef (ins_Resource (o_spec inst))) s = Some (Inr oc, s1)"
      "held (world s1) = held (world s)" "rest (world s1) = rest (world s)"
    using oxide_servesD(1) [OF serves] by blast
  from instance_answers [OF oxide_servesD(2) [OF serves, of oc "world s1"]] obtain r s2 where
    s2: "oxide (ox_instance (e_oxide E)) oc (InstanceView (ProjectName (ins_ProjectRef (o_spec inst)))
        (OxideName (ins_OxideName (o_spec inst)) (o_meta inst))) s1 = Some (r, s2)"
      "held (world s2) = held (world s)" "rest (world s2) = rest (world s)"
      "case or_instance (rest (world s)) of Some cur \<Rightarrow> r = Inr cur | None \<Rightarrow> (\<exists>e. r = Inl e \<and> is_object_not_found e)"
    using s1(2,3) by auto
  show ?thesis
  proof (cases "or_instance (rest (world s))")
    case (Some cur)
    then have "or_instance (rest (world s2)) = Some cur" by (simp add: s2)
    from convergeInstance_pass [OF serves this spec(1) alive [OF Some], of oc] obtain err i' s' cur' where
      s': "convergeInstance E oc i cur s2 = Some ((err, i'), s')" "held (world s') = held (world s)"
        "or_instance (rest (world s')) = Some cur'"
        "pass_result inst cur (or_due (rest (world s))) err cur' (or_due (rest (world s')))"
      by (auto simp: leads_def s2)
    have "ops_result lag inst (rest (world s)) err (rest (world s'))"
      by (rule pass_ops_result [OF adm(2) alive [OF Some] _ s'(3) oxide_servesD(10) [OF serves] s'(4)])
        (simp add: rack_time_def Some)
    with s'(1,2) Some s1 s2 show ?thesis
      by (auto simp: handleInstanceOperations_def spec)
  next
    case None
    then have "or_instance (rest (world s2)) = None" by (simp add: s2)
    from createInstance_pass [OF serves adm(1) same this, of oc] obtain cur s3 where
      s3: "createInstance E oc i s2 = Some (Inr cur, s3)" "held (world s3) = held (world s)" "or_instance (rest (world s3)) = Some cur"
        "oin_Ncpus cur = ins_NCPUs (o_spec inst)" "oin_Memory cur = q_Value (ins_Memory (o_spec inst))" "alive cur"
      by (auto simp: leads_def s2)
    have fits: "\<not> size_differs cur inst"
      using adm(2) by (simp add: size_differs_def size_in_range_int64 wrap64_id s3)
    have new: "time_left lag inst cur (or_due (rest (world s3))) \<le> rack_time lag inst (rest (world s))"
      using oxide_servesD(10) [OF serves, of "world s3"] fits
      by (auto simp: None rack_time_def time_left_def stopped_time_def running_time_def)
    from convergeInstance_pass [OF serves s3(3) spec(1) s3(6), of oc] obtain err i' s' cur' where
      s': "convergeInstance E oc i cur s3 = Some ((err, i'), s')" "held (world s') = held (world s)"
        "or_instance (rest (world s')) = Some cur'"
        "pass_result inst cur (or_due (rest (world s3))) err cur' (or_due (rest (world s')))"
      by (auto simp: leads_def s3(2))
    have "ops_result lag inst (rest (world s)) err (rest (world s'))"
      by (rule pass_ops_result [OF adm(2) s3(6) new s'(3) oxide_servesD(10) [OF serves] s'(4)])
    with s'(1,2) None s1 s2 s3(1) show ?thesis
      by (auto simp: handleInstanceOperations_def spec)
  qed
qed

section \<open>Coming up\<close>

text \<open>The last reconcile: the instance is as the spec says, the object says Ready for the generation
  of that spec, and it is looked at again after the resync period.\<close>

definition instance_up ::
  "('c, 'w) env \<Rightarrow> instance_obj \<Rightarrow> ('w \<Rightarrow> instance_obj option) \<Rightarrow> ('w \<Rightarrow> on_rack)
   \<Rightarrow> ctrl_result \<times> error option \<Rightarrow> ('c, 'w) sys \<Rightarrow> bool" where
  "instance_up E inst held rest r s \<longleftrightarrow>
     in_sync_now r
     \<and> (\<exists>obj cur. held (world s) = Some obj \<and> same_resource inst obj
          \<and> finalizerName \<in> set (om_Finalizers (o_meta obj))
          \<and> IsStatusConditionTrue (e_lib E) (rst_Conditions (inst_Resource (o_status obj))) typeReady
          \<and> rst_ObservedGeneration (inst_Resource (o_status obj)) = om_Generation (o_meta inst)
          \<and> or_instance (rest (world s)) = Some cur \<and> instance_in_sync inst cur)"

definition heading_up ::
  "('c, 'w) env \<Rightarrow> object_key \<Rightarrow> instance_obj \<Rightarrow> ('w \<Rightarrow> instance_obj option) \<Rightarrow> ('w \<Rightarrow> on_rack) \<Rightarrow> ('w \<Rightarrow> 'w)
   \<Rightarrow> nat \<Rightarrow> ('c, 'w) sys \<Rightarrow> bool" where
  "heading_up E req inst held rest tick lag s \<longleftrightarrow>
     lib_ok (e_lib E) \<and> serves_object (e_instance E) req held rest \<and> oxide_serves E inst held rest tick lag
     \<and> instance_admitted inst \<and> size_in_range inst
     \<and> \<not> reconcileDisabled (o_meta inst) \<and> om_DeletionTimestamp (o_meta inst) = None
     \<and> (\<exists>obj. held (world s) = Some obj \<and> same_resource inst obj)
     \<and> (case or_instance (rest (world s)) of None \<Rightarrow> True | Some cur \<Rightarrow> alive cur)"

interpretation inst_up: closed_loop "InstanceReconciler_Reconcile E req" "later tick" look_again
    "instance_up E inst held rest" "heading_up E req inst held rest tick lag" "\<lambda>s. rack_time lag inst (rest (world s))"
  for E :: "('c, 'w) env" and req inst held rest tick lag
proof unfold_locales
  fix s :: "('c, 'w) sys"
  assume good: "heading_up E req inst held rest tick lag s"
  then obtain obj where obj: "held (world s) = Some obj" "same_resource inst obj"
    and lib: "lib_ok (e_lib E)" and kube: "serves_object (e_instance E) req held rest"
    and ox: "oxide_serves E inst held rest tick lag" and adm: "instance_admitted inst" "size_in_range inst"
    by (auto simp: heading_up_def)
  have active: "\<not> reconcileDisabled (o_meta obj)" "om_DeletionTimestamp (o_meta obj) = None"
    using good same_resourceD(5,6) [OF obj(2)] by (simp_all add: heading_up_def)
  have alive: "alive cur" if "or_instance (rest (world s)) = Some cur" for cur
    using good that by (simp add: heading_up_def)
  have "\<exists>err obj2 s2. handleInstanceOperations E base s1 = Some ((err, obj2), s2) \<and> held (world s2) = Some base
      \<and> ops_result lag inst (rest (world s)) err (rest (world s2))"
    if "same_resource obj base" "rest (world s1) = rest (world s)" "held (world s1) = Some base"
    for base and s1 :: "('c, 'w) sys"
    using handleInstanceOperations_pass [OF ox adm same_resource_trans [OF obj(2) that(1)], of s1] that alive by auto
  from inst_ctl.reconcile_pass [OF lib kube obj(1) active,
      where P = "\<lambda>err st rack'. ops_result lag inst (rest (world s)) err rack'", OF this]
  obtain err st obj' s' where s': "InstanceReconciler_Reconcile E req s = Some (snd (setReady_outcome err), s')"
      "ops_result lag inst (rest (world s)) err (rest (world s'))" "held (world s') = Some obj'" "same_resource obj obj'"
      "finalizerName \<in> set (om_Finalizers (o_meta obj'))"
    and pub: "published_as (e_lib E) (\<lambda>st. rst_Conditions (inst_Resource st))
        (\<lambda>cs st. st\<lparr>inst_Resource := (inst_Resource st)\<lparr>rst_Conditions := cs\<rparr>\<rparr>)
        (\<lambda>g st. st\<lparr>inst_Resource := (inst_Resource st)\<lparr>rst_ObservedGeneration := g\<rparr>\<rparr>) err st obj'"
    by blast
  note same = same_resource_trans [OF obj(2) s'(4)]
  show "\<exists>r s'. InstanceReconciler_Reconcile E req s = Some (r, s') \<and>
      (instance_up E inst held rest r s' \<or>
       look_again r \<and> heading_up E req inst held rest tick lag (later tick s')
       \<and> 0 < rack_time lag inst (rest (world (later tick s')))
       \<and> rack_time lag inst (rest (world (later tick s'))) < rack_time lag inst (rest (world s)))"
  proof (cases err)
    case None
    with s' pub same_resourceD(4) [OF same] same have "instance_up E inst held rest (snd (setReady_outcome err)) s'"
      by (auto simp: instance_up_def published_as_def ops_result_def outcome_results)
    with s'(1) show ?thesis by blast
  next
    case (Some e)
    with s'(2) obtain cur m where cur: "or_instance (rest (world s')) = Some cur" "e = Progressing m"
        "\<And>r due. moves_on (oin_RunState cur) (or_due (rest (world s'))) r due \<Longrightarrow> alive (cur\<lparr>oin_RunState := r\<rparr>)
           \<and> time_left lag inst (cur\<lparr>oin_RunState := r\<rparr>) due < rack_time lag inst (rest (world s))"
      by (auto simp: ops_result_def)
    from oxide_servesD(9) [OF ox cur(1)] obtain r where
      r: "moves_on (oin_RunState cur) (or_due (rest (world s'))) r (or_due (rest (tick (world s'))))"
        "or_instance (rest (tick (world s'))) = Some (cur\<lparr>oin_RunState := r\<rparr>)" by blast
    have "heading_up E req inst held rest tick lag (later tick s')"
      using good r cur(3) [OF r(1)] s'(3) same oxide_servesD(6) [OF ox]
      by (simp add: heading_up_def)
    with s'(1) Some cur(2) cur(3) [OF r(1)] r(2) rack_time_pos [of lag inst "rest (tick (world s'))"] show ?thesis
      by (auto simp: outcome_results rack_time_def)
  qed
qed

section \<open>Going down\<close>

text \<open>How many reconciles a deletion takes, at most.\<close>

definition down_time :: "nat \<Rightarrow> ox_instance \<Rightarrow> nat \<Rightarrow> nat" where
  "down_time lag cur due =
     (if oin_RunState cur \<in> {InstanceStateStopped, InstanceStateFailed} then 1
      else if oin_RunState cur = InstanceStateRunning then 2 + lag
      else if oin_RunState cur = InstanceStateStopping then 2 + due
      else 3 + due + lag)"

definition rack_down_time :: "nat \<Rightarrow> on_rack \<Rightarrow> nat" where
  "rack_down_time lag rack = (case or_instance rack of None \<Rightarrow> 1 | Some cur \<Rightarrow> down_time lag cur (or_due rack))"

lemma rack_down_time_pos: "0 < rack_down_time lag rack"
  by (simp add: rack_down_time_def down_time_def split: option.split)

lemma rack_down_time_bound: "or_due rack \<le> lag \<Longrightarrow> rack_down_time lag rack \<le> 3 + 2 * lag"
  by (simp add: rack_down_time_def down_time_def split: option.split)

text \<open>The states that lead to one in which Oxide lets an instance be deleted.\<close>

definition stoppable :: "ox_instance \<Rightarrow> bool" where
  "stoppable cur \<longleftrightarrow> oin_RunState cur \<noteq> destroyed"

lemma moves_on_stoppable:
  assumes "stoppable cur" and "moves_on (oin_RunState cur) due r due'"
  shows "stoppable (cur\<lparr>oin_RunState := r\<rparr>)"
  using assms(2) assms(1)
  by (cases rule: moves_on_cases) (auto simp: stoppable_def ends_in_def in_transit_def destroyed_def split: if_splits)

lemma transit_down_time:
  assumes "in_transit (oin_RunState cur)" and "moves_on (oin_RunState cur) due r due'"
  shows "down_time lag (cur\<lparr>oin_RunState := r\<rparr>) due' < down_time lag cur due"
  using assms(2)
proof (cases rule: moves_on_cases)
  case rest
  with assms(1) show ?thesis by simp
next
  case arrive
  then show ?thesis by (auto simp: down_time_def ends_in_def in_transit_def split: if_splits)
next
  case wait
  then show ?thesis by (auto simp: down_time_def passes_through_def in_transit_def)
qed

lemma requested_down_time:
  assumes "moves_on r due' r' due''" and "due' \<le> lag" and "r \<in> {InstanceStateStopping, InstanceStateStopped}"
  shows "down_time lag (cur\<lparr>oin_RunState := r'\<rparr>) due'' < 2 + lag"
  using assms by (auto simp: moves_on_def ends_in_def passes_through_def down_time_def)

definition deletion_result :: "nat \<Rightarrow> instance_obj \<Rightarrow> on_rack \<Rightarrow> error option \<Rightarrow> on_rack \<Rightarrow> bool" where
  "deletion_result lag inst rack err rack' \<longleftrightarrow>
     (case err of
        None \<Rightarrow> or_instance rack' = None \<and> (owns_boot_disk inst \<longrightarrow> \<not> or_boot_disk rack')
      | Some e \<Rightarrow> (\<exists>m. e = Progressing m)
          \<and> (\<exists>cur. or_instance rack' = Some cur
               \<and> (\<forall>r due. moves_on (oin_RunState cur) (or_due rack') r due \<longrightarrow>
                    stoppable (cur\<lparr>oin_RunState := r\<rparr>) \<and> down_time lag (cur\<lparr>oin_RunState := r\<rparr>) due < rack_down_time lag rack)))"

lemma deleteBootDisk_pass:
  assumes serves: "oxide_serves E inst held rest tick lag" and same: "same_resource inst i"
    and absent: "or_instance (rest (world s)) = None"
  shows "\<exists>s'. deleteBootDisk E oc (ProjectName (ins_ProjectRef (o_spec i))) i s = Some (None, s')
    \<and> held (world s') = held (world s) \<and> or_instance (rest (world s')) = None
    \<and> (owns_boot_disk inst \<longrightarrow> \<not> or_boot_disk (rest (world s')))"
proof -
  have i: "o_spec i = o_spec inst" "bootDiskName i = bootDiskName inst"
    using same_resourceD(1,7) [OF same] by (simp_all add: bootDiskName_def)
  have "answers (ox_done (e_oxide E) oc (DiskDelete (ProjectName (ins_ProjectRef (o_spec inst))) (bootDiskName inst))) held rest (world s)
        (\<lambda>r rack. ok_or_gone r \<and> rack = (rest (world s))\<lparr>or_boot_disk := False\<rparr>)"
    using oxide_servesD(5) [OF serves absent, of oc] by (simp add: serves_absent_def)
  from oxide_do_answers [OF this] absent show ?thesis
    by (auto simp: deleteBootDisk_def i owns_boot_disk_def ok_or_gone_def)
qed

lemma deleteInstance_pass:
  assumes serves: "oxide_serves E inst held rest tick lag" and same: "same_resource inst i"
    and stoppable: "\<And>cur. or_instance (rest (world s)) = Some cur \<Longrightarrow> stoppable cur"
  shows "\<exists>err s'. deleteInstance E oc (ProjectName (ins_ProjectRef (o_spec i))) i s = Some (err, s')
    \<and> held (world s') = held (world s) \<and> deletion_result lag inst (rest (world s)) err (rest (world s'))"
proof -
  have i: "o_spec i = o_spec inst" "OxideName (ins_OxideName (o_spec inst)) (o_meta i) = OxideName (ins_OxideName (o_spec inst)) (o_meta inst)"
    using same_resourceD(1,7) [OF same] by simp_all
  from instance_answers [OF oxide_servesD(2) [OF serves, of oc "world s"]] obtain r s1 where
    s1: "oxide (ox_instance (e_oxide E)) oc (InstanceView (ProjectName (ins_ProjectRef (o_spec inst)))
        (OxideName (ins_OxideName (o_spec inst)) (o_meta inst))) s = Some (r, s1)"
      "held (world s1) = held (world s)" "rest (world s1) = rest (world s)"
      "case or_instance (rest (world s)) of Some cur \<Rightarrow> r = Inr cur | None \<Rightarrow> (\<exists>e. r = Inl e \<and> is_object_not_found e)"
    by auto
  show ?thesis
  proof (cases "or_instance (rest (world s))")
    case None
    with deleteBootDisk_pass [OF serves same, of s1 oc] s1 i show ?thesis
      by (auto simp: deleteInstance_def deletion_result_def)
  next
    case (Some cur)
    then have here: "or_instance (rest (world s1)) = Some cur" by (simp add: s1)
    note cur = oxide_servesD(4) [OF serves here, of oc]
    consider (gone) "oin_RunState cur \<in> {InstanceStateStopped, InstanceStateFailed}"
      | (run) "oin_RunState cur = InstanceStateRunning"
      | (wait) "oin_RunState cur \<notin> {InstanceStateStopped, InstanceStateFailed, InstanceStateRunning}" by blast
    then show ?thesis
    proof cases
      case gone
      from oxide_do_answers [OF serves_currentD(5) [OF cur gone]] obtain s2 where
        s2: "oxide_do E oc (InstanceDelete (oin_Id cur)) s1 = Some (None, s2)" "held (world s2) = held (world s1)"
          "or_instance (rest (world s2)) = None" by auto
      from deleteBootDisk_pass [OF serves same s2(3), of oc] s1 s2 gone Some i show ?thesis
        by (auto simp: deleteInstance_def deletion_result_def)
    next
      case run
      from stopInstance_pass [OF cur run, of i "''stopping instance before delete''"] obtain s2 cur' where
        s2: "stopInstance E oc i cur ''stopping instance before delete'' s1
            = Some (Progressing ''stopping instance before delete'', s2)" "held (world s2) = held (world s1)"
          "or_instance (rest (world s2)) = Some cur'" "in_state cur [InstanceStateStopping, InstanceStateStopped] cur'"
        by (auto simp: leads_def)
      from s2(4) obtain r0 where r0: "cur' = cur\<lparr>oin_RunState := r0\<rparr>" "r0 \<in> {InstanceStateStopping, InstanceStateStopped}"
        by (auto simp: in_state_def)
      have "stoppable (cur'\<lparr>oin_RunState := r\<rparr>) \<and> down_time lag (cur'\<lparr>oin_RunState := r\<rparr>) due < rack_down_time lag (rest (world s))"
        if "moves_on (oin_RunState cur') (or_due (rest (world s2))) r due" for r due
      proof
        have "stoppable cur'" using r0 by (auto simp: stoppable_def destroyed_def)
        then show "stoppable (cur'\<lparr>oin_RunState := r\<rparr>)" using that by (rule moves_on_stoppable)
        show "down_time lag (cur'\<lparr>oin_RunState := r\<rparr>) due < rack_down_time lag (rest (world s))"
          using requested_down_time [OF _ oxide_servesD(10) [OF serves] r0(2), of "world s2" r due cur] that run Some
          by (simp add: r0(1) rack_down_time_def down_time_def)
      qed
      with s1 s2 run Some i show ?thesis
        by (auto simp: deleteInstance_def deletion_result_def)
    next
      case wait
      have transit: "in_transit (oin_RunState cur)"
        using wait stoppable [OF Some] by (auto simp: in_transit_def stoppable_def)
      have "stoppable (cur\<lparr>oin_RunState := r\<rparr>) \<and> down_time lag (cur\<lparr>oin_RunState := r\<rparr>) due < rack_down_time lag (rest (world s))"
        if "moves_on (oin_RunState cur) (or_due (rest (world s))) r due" for r due
        using moves_on_stoppable [OF stoppable [OF Some] that] transit_down_time [OF transit that] Some
        by (simp add: rack_down_time_def)
      with s1 here wait Some i show ?thesis
        by (auto simp: deleteInstance_def deletion_result_def stopInstance_def)
    qed
  qed
qed

text \<open>The last reconcile of a deletion: nothing is left in Oxide, and the operator has let go of the
  object, so that the API server removes it.\<close>

definition instance_down ::
  "instance_obj \<Rightarrow> ('w \<Rightarrow> instance_obj option) \<Rightarrow> ('w \<Rightarrow> on_rack) \<Rightarrow> ctrl_result \<times> error option \<Rightarrow> ('c, 'w) sys \<Rightarrow> bool" where
  "instance_down inst held rest r s \<longleftrightarrow>
     over r \<and> or_instance (rest (world s)) = None \<and> (owns_boot_disk inst \<longrightarrow> \<not> or_boot_disk (rest (world s)))
     \<and> (case held (world s) of None \<Rightarrow> True | Some obj \<Rightarrow> finalizerName \<notin> set (om_Finalizers (o_meta obj)))"

definition heading_down ::
  "('c, 'w) env \<Rightarrow> object_key \<Rightarrow> instance_obj \<Rightarrow> ('w \<Rightarrow> instance_obj option) \<Rightarrow> ('w \<Rightarrow> on_rack) \<Rightarrow> ('w \<Rightarrow> 'w)
   \<Rightarrow> nat \<Rightarrow> ('c, 'w) sys \<Rightarrow> bool" where
  "heading_down E req inst held rest tick lag s \<longleftrightarrow>
     lib_ok (e_lib E) \<and> serves_object (e_instance E) req held rest \<and> oxide_serves E inst held rest tick lag
     \<and> \<not> reconcileDisabled (o_meta inst) \<and> om_DeletionTimestamp (o_meta inst) \<noteq> None
     \<and> \<not> rs_DeletionProtection (ins_Resource (o_spec inst))
     \<and> (\<exists>obj. held (world s) = Some obj \<and> same_resource inst obj \<and> finalizerName \<in> set (om_Finalizers (o_meta obj)))
     \<and> (case or_instance (rest (world s)) of None \<Rightarrow> True | Some cur \<Rightarrow> stoppable cur)"

lemma handleDelete_pass:
  assumes lib: "lib_ok (e_lib E)" and kube: "serves_object (e_instance E) req held rest"
    and serves: "oxide_serves E inst held rest tick lag" and same: "same_resource inst obj"
    and held: "held (world s) = Some obj" and fin: "finalizerName \<in> set (om_Finalizers (o_meta obj))"
    and deleted: "om_DeletionTimestamp (o_meta obj) \<noteq> None"
    and unprotected: "\<not> rs_DeletionProtection (ins_Resource (o_spec inst))"
    and stoppable: "\<And>cur. or_instance (rest (world s)) = Some cur \<Longrightarrow> stoppable cur"
  shows "\<exists>err r s'. InstanceReconciler_handleDelete E obj s = Some (r, s')
    \<and> deletion_result lag inst (rest (world s)) err (rest (world s'))
    \<and> (case err of
         None \<Rightarrow> over r \<and> (case held (world s') of None \<Rightarrow> True | Some obj \<Rightarrow> finalizerName \<notin> set (om_Finalizers (o_meta obj)))
       | Some e \<Rightarrow> look_again r \<and> held (world s') = Some obj)"
proof -
  have spec: "o_spec obj = o_spec inst" using same_resourceD(1) [OF same] by simp
  let ?s = "unregister (object_key_of obj) s"
  obtain oc s1 where s1: "NewClientFromRef E (rs_ConnectionRef (ins_Resource (o_spec inst))) ?s = Some (Inr oc, s1)"
      "held (world s1) = held (world s)" "rest (world s1) = rest (world s)"
    using oxide_servesD(1) [OF serves, of ?s] by auto
  obtain err s2 where s2: "deleteInstance E oc (ProjectName (ins_ProjectRef (o_spec obj))) obj s1 = Some (err, s2)"
      "held (world s2) = Some obj" "deletion_result lag inst (rest (world s)) err (rest (world s2))"
    using deleteInstance_pass [OF serves same, of s1 oc] stoppable s1 held by auto
  have fin': "ContainsFinalizer (e_lib E) (o_meta obj) finalizerName"
    using lib_okD(2) [OF lib] fin by blast
  show ?thesis
  proof (cases err)
    case (Some e)
    with s2(3) have "err_is is_progressing err" by (auto simp: deletion_result_def)
    with Some s1 s2 fin' unprotected show ?thesis
      by (intro exI [of _ err] exI [of _ "(\<lparr>RequeueAfter = progressPeriod\<rparr>, None)"] exI [of _ s2])
        (simp add: InstanceReconciler_handleDelete_def InstanceReconciler_deleteOxide_def spec look_again_def)
  next
    case None
    let ?obj = "obj\<lparr>o_meta := RemoveFinalizer (e_lib E) (o_meta obj) finalizerName\<rparr>"
    let ?s3 = "record_event (object_key_of obj) None ''Deleted'' ''Deleted Oxide instance'' s2"
    have here: "held (world ?s3) = Some obj" by (simp add: s2)
    have meta: "om_ResourceVersion (o_meta ?obj) = om_ResourceVersion (o_meta obj)"
      "om_DeletionTimestamp (o_meta ?obj) = om_DeletionTimestamp (o_meta obj)"
      by (simp_all add: lib_okD(4) [OF lib])
    obtain obj' w' where "k_update (e_instance E) ?obj (world ?s3) = (Inr obj', w') \<and> stored_as ?obj obj'
        \<and> rest w' = rest (world ?s3)
        \<and> held w' = (if om_DeletionTimestamp (o_meta ?obj) \<noteq> None \<and> om_Finalizers (o_meta ?obj) = [] then None else Some obj')"
      using serves_objectD(2) [OF kube, OF here meta(1)] by blast
    then have upd: "k_update (e_instance E) ?obj (world ?s3) = (Inr obj', w')" "stored_as ?obj obj'"
        "rest w' = rest (world s2)" "held w' = None \<or> held w' = Some obj'"
      by simp_all
    have "finalizerName \<notin> set (om_Finalizers (o_meta obj'))"
      using stored_as_same [OF upd(2)] by (simp add: lib_okD(4) [OF lib])
    moreover have "IgnoreNotFound (e_lib E) None = None" using lib_okD(5) [OF lib, of None] by simp
    moreover have "InstanceReconciler_deleteOxide E obj ?s = Some (None, ?s3)"
      using s1(1) s2(1) None by (simp add: InstanceReconciler_deleteOxide_def spec)
    then have "InstanceReconciler_handleDelete E obj s
        = Some ((no_requeue, None), logged ?s3 w' (Kube (KUpdate (InstanceObj ?obj)) None))"
      using fin' unprotected upd(1) \<open>IgnoreNotFound (e_lib E) None = None\<close>
      by (simp add: InstanceReconciler_handleDelete_def spec kube_update_def perform_def Let_def)
    ultimately show ?thesis
      using s2(3) None upd(3,4)
      by (intro exI [of _ None] exI [of _ "(no_requeue, None)"] exI [of _ "logged ?s3 w' (Kube (KUpdate (InstanceObj ?obj)) None)"])
        (auto simp: over_def)
  qed
qed

interpretation inst_down: closed_loop "InstanceReconciler_Reconcile E req" "later tick" look_again
    "instance_down inst held rest" "heading_down E req inst held rest tick lag" "\<lambda>s. rack_down_time lag (rest (world s))"
  for E :: "('c, 'w) env" and req inst held rest tick lag
proof unfold_locales
  fix s :: "('c, 'w) sys"
  assume good: "heading_down E req inst held rest tick lag s"
  then obtain obj where obj: "held (world s) = Some obj" "same_resource inst obj" "finalizerName \<in> set (om_Finalizers (o_meta obj))"
    and lib: "lib_ok (e_lib E)" and kube: "serves_object (e_instance E) req held rest"
    and ox: "oxide_serves E inst held rest tick lag" and unprotected: "\<not> rs_DeletionProtection (ins_Resource (o_spec inst))"
    by (auto simp: heading_down_def)
  have active: "\<not> reconcileDisabled (o_meta obj)" "om_DeletionTimestamp (o_meta obj) \<noteq> None"
    using good same_resourceD(5,6) [OF obj(2)] by (simp_all add: heading_down_def)
  obtain w1 where w1: "k_get (e_instance E) req (world s) = (Inr obj, w1)" "held w1 = Some obj" "rest w1 = rest (world s)"
    using serves_objectD(1) [OF kube obj(1)] obj(1) by metis
  let ?s1 = "inst_ctl.fetched E req s"
  have s1: "world ?s1 = w1" by (rule inst_ctl.fetched_world [OF w1(1)])
  have stoppable: "stoppable cur" if "or_instance (rest (world ?s1)) = Some cur" for cur
    using good that w1(3) by (simp add: heading_down_def s1)
  obtain err r s2 where s2: "InstanceReconciler_handleDelete E obj ?s1 = Some (r, s2)"
      "deletion_result lag inst (rest (world s)) err (rest (world s2))"
      "case err of
         None \<Rightarrow> over r \<and> (case held (world s2) of None \<Rightarrow> True | Some obj \<Rightarrow> finalizerName \<notin> set (om_Finalizers (o_meta obj)))
       | Some e \<Rightarrow> look_again r \<and> held (world s2) = Some obj"
    using handleDelete_pass [OF lib kube ox obj(2) _ obj(3) active(2) unprotected stoppable, of ?s1] w1 s1 by auto
  have "snd r = None" using s2(3) by (auto simp: over_def look_again_def split: option.splits)
  then have rec: "InstanceReconciler_Reconcile E req s = Some (r, s2)"
    using inst_ctl.reconcile_deleting [of E req s obj] w1(1) active s2(1) by (cases r) simp
  show "\<exists>r s'. InstanceReconciler_Reconcile E req s = Some (r, s') \<and>
      (instance_down inst held rest r s' \<or>
       look_again r \<and> heading_down E req inst held rest tick lag (later tick s')
       \<and> 0 < rack_down_time lag (rest (world (later tick s')))
       \<and> rack_down_time lag (rest (world (later tick s'))) < rack_down_time lag (rest (world s)))"
  proof (cases err)
    case None
    with s2 rec show ?thesis by (auto simp: instance_down_def deletion_result_def)
  next
    case (Some e)
    with s2(2) obtain cur where cur: "or_instance (rest (world s2)) = Some cur"
        "\<And>r due. moves_on (oin_RunState cur) (or_due (rest (world s2))) r due \<Longrightarrow>
           stoppable (cur\<lparr>oin_RunState := r\<rparr>) \<and> down_time lag (cur\<lparr>oin_RunState := r\<rparr>) due < rack_down_time lag (rest (world s))"
      by (auto simp: deletion_result_def)
    from oxide_servesD(9) [OF ox cur(1)] obtain r' where
      r': "moves_on (oin_RunState cur) (or_due (rest (world s2))) r' (or_due (rest (tick (world s2))))"
        "or_instance (rest (tick (world s2))) = Some (cur\<lparr>oin_RunState := r'\<rparr>)" by blast
    have "heading_down E req inst held rest tick lag (later tick s2)"
      using good r' cur(2) [OF r'(1)] s2(3) Some obj oxide_servesD(6) [OF ox]
      by (simp add: heading_down_def)
    with rec s2(3) Some cur(2) [OF r'(1)] r'(2) rack_down_time_pos [of lag "rest (tick (world s2))"] show ?thesis
      by (auto simp: rack_down_time_def)
  qed
qed

section \<open>Properties\<close>

text \<open>C3: an Instance converges. Take an Instance that has not opted out and is not being deleted, and
  an Oxide that serves it: it accepts the requests that are legal in the state of the instance, and
  it leaves a state on the way to another (creating, starting, stopping, rebooting, migrating, repairing,
  and any state that the code does not name) after at most \<open>lag\<close> more looks at it, a start for running, a
  stop for stopped, the others for either. The instance may be missing, or in any state but failed and
  destroyed, whatever its size; the size that the spec asks for is one that the SDK's types can hold. Then at most \<open>5 + 3 * lag\<close> reconciles bring Oxide to what the spec
  asks, size and power state, and the object to Ready for the generation of that spec, with its
  finalizer on: five if every transition is over by the next look. Each reconcile before the last asks
  to be run again after \<^verbatim>\<open>progressPeriod\<close>, without an error and its backoff.\<close>

theorem instance_converges:
  assumes "lib_ok (e_lib E)" and "serves_object (e_instance E) req held rest"
    and "oxide_serves E inst held rest tick lag" and "instance_admitted inst" and "size_in_range inst"
    and "\<not> reconcileDisabled (o_meta inst)" and "om_DeletionTimestamp (o_meta inst) = None"
    and "held (world s) = Some inst"
    and "case or_instance (rest (world s)) of None \<Rightarrow> True | Some cur \<Rightarrow> alive cur"
  shows "settles (InstanceReconciler_Reconcile E req) (later tick) look_again (instance_up E inst held rest)
     (5 + 3 * lag) s"
  using assms rack_time_bound [OF oxide_servesD(10) [OF assms(3)], of inst "world s"]
  by (intro inst_up.settles_within [where inst = inst and tick = tick and lag = lag]) (simp_all add: heading_up_def rack_time_pos)

text \<open>An Oxide with one instance, whose transitions are seen once more before they end.\<close>

type_synonym instance_world = "(instance_obj, on_rack) one_world"

definition creating :: instance_state where
  "creating = InstanceStateOther ''creating''"

definition with_instance :: "ox_instance option \<Rightarrow> instance_world \<Rightarrow> instance_world" where
  "with_instance cur w = w\<lparr>ow_rack := (ow_rack w)\<lparr>or_instance := cur\<rparr>\<rparr>"

definition turned :: "ox_instance \<Rightarrow> instance_state \<Rightarrow> nat \<Rightarrow> instance_world \<Rightarrow> instance_world" where
  "turned cur r n w = w\<lparr>ow_rack := (ow_rack w)\<lparr>or_instance := Some (cur\<lparr>oin_RunState := r\<rparr>), or_due := n\<rparr>\<rparr>"

definition rack_instance :: "request \<Rightarrow> instance_world \<Rightarrow> (error + ox_instance) \<times> instance_world" where
  "rack_instance q w =
     (case or_instance (ow_rack w) of
        None \<Rightarrow>
          (case q of
             InstanceCreate _ body \<Rightarrow>
               (let cur = \<lparr>oin_Id = ''i1'', oin_RunState = creating, oin_Ncpus = ic_Ncpus body,
                  oin_Memory = ic_Memory body, oin_EnableJumboFrames = True, oin_BootDiskId = ''b1'',
                  oin_AutoRestartPolicy = '''', oin_CpuPlatform = ''''\<rparr>
                in (Inr cur, turned cur creating 1 w))
           | _ \<Rightarrow> (Inl oxide_not_found, w))
      | Some cur \<Rightarrow>
          (case q of
             InstanceStop _ \<Rightarrow> (Inr cur, turned cur InstanceStateStopping 1 w)
           | InstanceStart _ \<Rightarrow> (Inr cur, turned cur InstanceStateStarting 1 w)
           | InstanceUpdate _ u \<Rightarrow>
               (Inr cur, with_instance (Some (cur\<lparr>oin_Ncpus := iu_Ncpus u, oin_Memory := iu_Memory u\<rparr>)) w)
           | _ \<Rightarrow> (Inr cur, w)))"

definition rack_done :: "request \<Rightarrow> instance_world \<Rightarrow> error option \<times> instance_world" where
  "rack_done q w =
     (case q of
        InstanceDelete _ \<Rightarrow> (None, with_instance None w)
      | DiskDelete _ _ \<Rightarrow> (None, w\<lparr>ow_rack := (ow_rack w)\<lparr>or_boot_disk := False\<rparr>\<rparr>)
      | _ \<Rightarrow> (None, w))"

definition rack :: "(nat, instance_world) env" where
  "rack = (connected env0)\<lparr>
     e_oxide := oxide0\<lparr>ox_instance := (\<lambda>_. rack_instance), ox_done := (\<lambda>_. rack_done),
       ox_image := (\<lambda>_ _ w. (Inr \<lparr>oi_Id = ''m1'', oi_ProjectId = ''p1'', oi_Size = 1\<rparr>, w))\<rparr>,
     e_secret := (\<lambda>_ w. (Inr token_secret, w)), e_instance := api\<rparr>"

definition at_most_one :: "on_rack \<Rightarrow> on_rack" where
  "at_most_one r = r\<lparr>or_due := min 1 (or_due r)\<rparr>"

lemma at_most_one_instance [simp]: "or_instance (at_most_one r) = or_instance r"
  by (simp add: at_most_one_def)

definition arrival :: "instance_state \<Rightarrow> instance_state" where
  "arrival r = (if r = InstanceStateStopping then InstanceStateStopped
     else if in_transit r then InstanceStateRunning else r)"

definition settle :: "instance_world \<Rightarrow> instance_world" where
  "settle w =
     (case or_instance (ow_rack w) of
        None \<Rightarrow> w
      | Some cur \<Rightarrow>
          if in_transit (oin_RunState cur) \<and> 0 < or_due (ow_rack w) then turned cur (oin_RunState cur) 0 w
          else turned cur (arrival (oin_RunState cur)) 0 w)"

lemma settle_moves:
  assumes "or_instance (ow_rack w) = Some cur"
  shows "\<exists>r. moves_on (oin_RunState cur) (min 1 (or_due (ow_rack w))) r (min 1 (or_due (ow_rack (settle w))))
    \<and> or_instance (ow_rack (settle w)) = Some (cur\<lparr>oin_RunState := r\<rparr>)"
proof (cases "in_transit (oin_RunState cur) \<and> 0 < or_due (ow_rack w)")
  case True
  with assms show ?thesis
    by (intro exI [of _ "oin_RunState cur"]) (simp add: settle_def turned_def moves_on_def passes_through_def)
next
  case False
  with assms show ?thesis
    by (intro exI [of _ "arrival (oin_RunState cur)"])
      (auto simp: settle_def turned_def moves_on_def arrival_def ends_in_def)
qed

lemma settle_frame:
  "ow_object (settle w) = ow_object w" "or_boot_disk (ow_rack (settle w)) = or_boot_disk (ow_rack w)"
  "or_instance (ow_rack w) = None \<Longrightarrow> or_instance (ow_rack (settle w)) = None"
  by (simp_all add: settle_def turned_def split: option.split)

lemma rack_serves:
  assumes "rs_ConnectionRef (ins_Resource (o_spec inst)) = ''conn''"
  shows "oxide_serves rack inst ow_object (\<lambda>w. at_most_one (ow_rack w)) settle 1"
    (is "oxide_serves _ _ _ ?rest _ _")
proof -
  have ox: "e_oxide rack = oxide0\<lparr>ox_instance := (\<lambda>_. rack_instance), ox_done := (\<lambda>_. rack_done),
       ox_image := (\<lambda>_ _ w. (Inr \<lparr>oi_Id = ''m1'', oi_ProjectId = ''p1'', oi_Size = 1\<rparr>, w))\<rparr>"
    by (simp add: rack_def)
  have "connects (NewClientFromRef rack ''conn'') ow_object ?rest"
    by (rule token_connects) (simp_all add: rack_def connected_def env0_def)
  moreover have "serves_current rack ow_object ?rest oc w cur" if "or_instance (ow_rack w) = Some cur" for oc w cur
    using that by (auto simp: serves_current_def answers_def ox rack_instance_def rack_done_def with_instance_def
        turned_def moved_def oxide0_def at_most_one_def)
  moreover have "serves_absent rack ow_object ?rest inst oc w" if "or_instance (ow_rack w) = None" for oc w
    using that by (auto simp: serves_absent_def answers_def ox rack_instance_def rack_done_def turned_def
        oxide0_def Let_def at_most_one_def alive_def creating_def destroyed_def)
  moreover have "answers (ox_instance (e_oxide rack) oc (InstanceView p n)) ow_object ?rest w
        (\<lambda>r rack. rack = ?rest w
           \<and> (case or_instance rack of Some cur \<Rightarrow> r = Inr cur | None \<Rightarrow> (\<exists>e. r = Inl e \<and> is_object_not_found e)))" for oc w p n
    by (auto simp: answers_def ox rack_instance_def oxide_not_found_def oxide0_def at_most_one_def split: option.split)
  moreover have "answers (ox_image (e_oxide rack) oc (ImageView p i)) ow_object ?rest w
        (\<lambda>r rack. (\<exists>img. r = Inr img) \<and> rack = ?rest w)" for oc w p i
    by (simp add: answers_def ox oxide0_def)
  ultimately show ?thesis
    using assms settle_moves settle_frame
    by (auto simp: oxide_serves_def at_most_one_def simp del: One_nat_def split: option.split)
qed

definition start_of :: "instance_obj \<Rightarrow> ox_instance option \<Rightarrow> (nat, instance_world) sys" where
  "start_of inst cur =
     \<lparr>world = \<lparr>ow_object = Some inst, ow_rack = \<lparr>or_instance = cur, or_boot_disk = True, or_due = 1\<rparr>\<rparr>,
      clients = (\<lambda>_. None), trace = []\<rparr>"

lemma new_instance_simps:
  "rs_ConnectionRef (ins_Resource (o_spec new_instance)) = ''conn''" "o_meta new_instance = meta0"
  "instance_admitted new_instance" "size_in_range new_instance"
  "owns_boot_disk new_instance" "\<not> rs_DeletionProtection (ins_Resource (o_spec new_instance))"
  by (simp_all add: new_instance_def resource0_def instance_admitted_def boot_disk_admitted_def size_in_range_def
      int64_ok_def owns_boot_disk_def)

lemma rack_simps: "lib_ok (e_lib rack)" "e_instance rack = api"
  by (simp_all add: rack_def lib0_ok)

theorem instance_converges_witness:
  "settles (InstanceReconciler_Reconcile rack key0) (later settle) look_again
     (instance_up rack new_instance ow_object (\<lambda>w. at_most_one (ow_rack w))) 8 (start_of new_instance None)"
proof -
  have "settles (InstanceReconciler_Reconcile rack key0) (later settle) look_again
     (instance_up rack new_instance ow_object (\<lambda>w. at_most_one (ow_rack w))) (5 + 3 * 1) (start_of new_instance None)"
    by (rule instance_converges)
      (simp_all add: rack_simps api_serves_view rack_serves new_instance_simps start_of_def
        del: One_nat_def)
  then show ?thesis by simp
qed

text \<open>C6: the deletion of an Instance ends. Take an Instance that has not opted out, is being deleted, is
  not protected and has its finalizer, and an Oxide that serves it as for C3, with the instance in any
  state but destroyed, failed too, or not there. Then at most \<open>3 + 2 * lag\<close> reconciles (three if every
  transition is over by the next look) stop and delete the instance and the boot disk that the operator
  made for it, and let go of the object; each reconcile before the last asks to be run again after
  \<^verbatim>\<open>progressPeriod\<close>, without an error.\<close>

theorem instance_deletion_ends:
  assumes "lib_ok (e_lib E)" and "serves_object (e_instance E) req held rest"
    and "oxide_serves E inst held rest tick lag"
    and "\<not> reconcileDisabled (o_meta inst)" and "om_DeletionTimestamp (o_meta inst) \<noteq> None"
    and "\<not> rs_DeletionProtection (ins_Resource (o_spec inst))"
    and "held (world s) = Some inst" and "finalizerName \<in> set (om_Finalizers (o_meta inst))"
    and "case or_instance (rest (world s)) of None \<Rightarrow> True | Some cur \<Rightarrow> stoppable cur"
  shows "settles (InstanceReconciler_Reconcile E req) (later tick) look_again (instance_down inst held rest)
     (3 + 2 * lag) s"
  using assms rack_down_time_bound [OF oxide_servesD(10) [OF assms(3)], of "world s"]
  by (intro inst_down.settles_within [where inst = inst and tick = tick and lag = lag]) (simp_all add: heading_down_def rack_down_time_pos)

definition dying_instance :: instance_obj where
  "dying_instance = new_instance\<lparr>o_meta := deleting\<rparr>"

theorem instance_deletion_ends_witness:
  "settles (InstanceReconciler_Reconcile rack key0) (later settle) look_again
     (instance_down dying_instance ow_object (\<lambda>w. at_most_one (ow_rack w))) 5 (start_of dying_instance (Some running))"
proof -
  have "settles (InstanceReconciler_Reconcile rack key0) (later settle) look_again
     (instance_down dying_instance ow_object (\<lambda>w. at_most_one (ow_rack w))) (3 + 2 * 1) (start_of dying_instance (Some running))"
    by (rule instance_deletion_ends)
      (simp_all add: rack_simps api_serves_view rack_serves dying_instance_def new_instance_simps start_of_def running_def
        stoppable_def destroyed_def del: not_None_eq One_nat_def)
  then show ?thesis by simp
qed

end
