(* ===== verification/Go_Memory.thy ===== *)
theory Go_Memory
  imports Prelude
begin

text \<open>
  Go's memory, as far as a deep copy is about it: values with pointers, slices and maps over a store
  of cells, the value a type reads off the store, and the addresses it passes on the way. A slice has
  a length of its own, its array may be longer (its capacity), and any two values may share cells.
\<close>

section \<open>Values, cells and memories\<close>

datatype scalar = StringScalar string | IntScalar int | BoolScalar bool | TimeScalar nat

text \<open>A struct is its fields, one after the other, and the unit at the end.\<close>

datatype gv =
    GScalar scalar
  | GPtr "nat option"
  | GSlice "(nat \<times> nat) option"
  | GMap "nat option"
  | GUnit
  | GField string gv gv

datatype cell = CVal gv | CArray "gv list" | CMap "string \<rightharpoonup> string"

record memory =
  mem_next :: nat
  mem_cells :: "nat \<rightharpoonup> cell"

definition mem_ok :: "memory \<Rightarrow> bool" where
  "mem_ok m \<longleftrightarrow> (\<forall>a. mem_cells m a \<noteq> None \<longrightarrow> a < mem_next m)"

definition alloc :: "cell \<Rightarrow> (memory, nat) go" where
  "alloc c m = Some (mem_next m, m\<lparr>mem_next := Suc (mem_next m), mem_cells := (mem_cells m)(mem_next m \<mapsto> c)\<rparr>)"

text \<open>A memory that grew: nothing that was there changed.\<close>

definition grows :: "memory \<Rightarrow> memory \<Rightarrow> bool" where
  "grows m m' \<longleftrightarrow> mem_next m \<le> mem_next m' \<and> mem_cells m \<subseteq>\<^sub>m mem_cells m'"

lemma grows_refl [simp]: "grows m m"
  by (simp add: grows_def)

lemma grows_trans: "grows m m' \<Longrightarrow> grows m' m'' \<Longrightarrow> grows m m''"
  by (auto simp: grows_def intro: map_le_trans)

lemma grows_cell: "grows m m' \<Longrightarrow> mem_cells m a = Some c \<Longrightarrow> mem_cells m' a = Some c"
  by (auto simp: grows_def map_le_def dom_def)

lemma grows_next: "grows m m' \<Longrightarrow> mem_next m \<le> mem_next m'"
  by (simp add: grows_def)

lemma alloc_grows:
  assumes "mem_ok m" and "alloc c m = Some (a, m')"
  shows "grows m m'" and "mem_ok m'" and "mem_cells m' a = Some c" and "a = mem_next m"
  using assms by (auto simp: alloc_def mem_ok_def grows_def map_le_def less_Suc_eq)

section \<open>Types and what they read\<close>

datatype gty =
    Scalar
  | Pointer gty
  | SliceOf gty
  | StringMap
  | Unit
  | FieldOf string gty gty

definition Struct :: "(string \<times> gty) list \<Rightarrow> gty" where
  "Struct fs = foldr (\<lambda>(n, t) r. FieldOf n t r) fs Unit"

lemma Struct_simps [simp]:
  "Struct [] = Unit"
  "Struct ((n, t) # fs) = FieldOf n t (Struct fs)"
  by (simp_all add: Struct_def)

text \<open>The tree behind a value, with no addresses in it.\<close>

datatype tree =
    TScalar scalar
  | TNil
  | TPtr tree
  | TSlice "tree list"
  | TMap "string \<rightharpoonup> string"
  | TUnit
  | TField string tree tree

primrec read :: "gty \<Rightarrow> memory \<Rightarrow> gv \<Rightarrow> tree option" where
  "read Scalar m v = (case v of GScalar s \<Rightarrow> Some (TScalar s) | _ \<Rightarrow> None)"
| "read (Pointer t) m v =
     (case v of
        GPtr None \<Rightarrow> Some TNil
      | GPtr (Some a) \<Rightarrow>
          (case mem_cells m a of Some (CVal x) \<Rightarrow> map_option TPtr (read t m x) | _ \<Rightarrow> None)
      | _ \<Rightarrow> None)"
| "read (SliceOf t) m v =
     (case v of
        GSlice None \<Rightarrow> Some TNil
      | GSlice (Some (a, n)) \<Rightarrow>
          (case mem_cells m a of
             Some (CArray xs) \<Rightarrow>
               if n \<le> length xs \<and> list_all (\<lambda>x. read t m x \<noteq> None) (take n xs)
               then Some (TSlice (map (\<lambda>x. the (read t m x)) (take n xs))) else None
           | _ \<Rightarrow> None)
      | _ \<Rightarrow> None)"
| "read StringMap m v =
     (case v of
        GMap None \<Rightarrow> Some TNil
      | GMap (Some a) \<Rightarrow> (case mem_cells m a of Some (CMap f) \<Rightarrow> Some (TMap f) | _ \<Rightarrow> None)
      | _ \<Rightarrow> None)"
| "read Unit m v = (case v of GUnit \<Rightarrow> Some TUnit | _ \<Rightarrow> None)"
| "read (FieldOf n t r) m v =
     (case v of
        GField k x y \<Rightarrow>
          if k = n then
            (case (read t m x, read r m y) of (Some a, Some b) \<Rightarrow> Some (TField n a b) | _ \<Rightarrow> None)
          else None
      | _ \<Rightarrow> None)"

text \<open>The addresses a value of a type leads to.\<close>

primrec reach :: "gty \<Rightarrow> memory \<Rightarrow> gv \<Rightarrow> nat list" where
  "reach Scalar m v = []"
| "reach (Pointer t) m v =
     (case v of
        GPtr (Some a) \<Rightarrow> a # (case mem_cells m a of Some (CVal x) \<Rightarrow> reach t m x | _ \<Rightarrow> [])
      | _ \<Rightarrow> [])"
| "reach (SliceOf t) m v =
     (case v of
        GSlice (Some (a, n)) \<Rightarrow>
          a # (case mem_cells m a of Some (CArray xs) \<Rightarrow> concat (map (reach t m) (take n xs)) | _ \<Rightarrow> [])
      | _ \<Rightarrow> [])"
| "reach StringMap m v = (case v of GMap (Some a) \<Rightarrow> [a] | _ \<Rightarrow> [])"
| "reach Unit m v = []"
| "reach (FieldOf n t r) m v = (case v of GField k x y \<Rightarrow> reach t m x @ reach r m y | _ \<Rightarrow> [])"

text \<open>Only the cells on the way matter.\<close>

lemma read_cong:
  "read t m v = Some tr \<Longrightarrow> (\<And>a. a \<in> set (reach t m v) \<Longrightarrow> mem_cells m' a = mem_cells m a) \<Longrightarrow>
   read t m' v = Some tr \<and> reach t m' v = reach t m v"
proof (induction t arbitrary: v tr)
  case (SliceOf t)
  show ?case
  proof (cases v)
    case (GSlice o')
    show ?thesis
    proof (cases o')
      case (Some p)
      obtain a n where v: "v = GSlice (Some (a, n))" using GSlice Some by (cases p) auto
      from SliceOf.prems(1) obtain xs where xs: "mem_cells m a = Some (CArray xs)" "n \<le> length xs"
          "list_all (\<lambda>x. read t m x \<noteq> None) (take n xs)"
          "tr = TSlice (map (\<lambda>x. the (read t m x)) (take n xs))"
        by (auto simp: v split: option.splits cell.splits if_splits)
      have same: "read t m' x = read t m x \<and> reach t m' x = reach t m x" if "x \<in> set (take n xs)" for x
        using SliceOf.IH [of x] SliceOf.prems(2) that xs(1,3) by (fastforce simp: v list_all_iff)
      have "mem_cells m' a = Some (CArray xs)"
        using SliceOf.prems(2) xs(1) by (simp add: v)
      moreover have "map (\<lambda>x. the (read t m' x)) (take n xs) = map (\<lambda>x. the (read t m x)) (take n xs)"
        "concat (map (reach t m') (take n xs)) = concat (map (reach t m) (take n xs))"
        using same by (auto intro!: arg_cong [of _ _ concat])
      moreover have "list_all (\<lambda>x. read t m' x \<noteq> None) (take n xs)"
        using same xs(3) by (simp add: list_all_iff)
      ultimately show ?thesis using xs by (simp add: v)
    qed (use SliceOf GSlice in simp)
  qed (use SliceOf in simp_all)
next
  case (FieldOf n t r)
  show ?case
    using FieldOf.prems FieldOf.IH
    by (auto split: gv.splits option.splits if_splits)
qed (auto split: gv.splits option.splits cell.splits)

lemma read_grows:
  assumes "grows m m'" and "read t m v = Some tr"
  shows "read t m' v = Some tr" and "reach t m' v = reach t m v"
proof -
  have "mem_cells m a \<noteq> None" if "read t m v = Some tr" "a \<in> set (reach t m v)" for t v tr a
    using that
  proof (induction t arbitrary: v tr)
    case (SliceOf t)
    then show ?case
      by (fastforce split: gv.splits option.splits cell.splits if_splits simp: list_all_iff)
  qed (auto split: gv.splits option.splits cell.splits if_splits)
  then have "mem_cells m' a = mem_cells m a" if "a \<in> set (reach t m v)" for a
    using that assms grows_cell [OF assms(1)] by fastforce
  from read_cong [OF assms(2) this]
  show "read t m' v = Some tr" and "reach t m' v = reach t m v" by auto
qed

section \<open>Copiers\<close>

text \<open>A \<^verbatim>\<open>DeepCopyInto\<close>, as a function of the value it copies; it begins with \<^verbatim>\<open>*out = *in\<close>, so a
  statement only has to say what becomes of one field. \<open>None\<close> is a panic.\<close>

type_synonym copier = "gv \<Rightarrow> (memory, gv) go"

fun in_field :: "string \<Rightarrow> copier \<Rightarrow> copier" where
  "in_field n f (GField k x y) m =
     (if k = n then do { (x, m) \<leftarrow> f x m; Some (GField k x y, m) }
      else do { (y, m) \<leftarrow> in_field n f y m; Some (GField k x y, m) })"
| "in_field n f _ m = None"

text \<open>\<^verbatim>\<open>*out = *in\<close> and then the fields of the list, in its order.\<close>

fun copy_fields :: "(string \<times> copier) list \<Rightarrow> copier" where
  "copy_fields [] v m = Some (v, m)"
| "copy_fields ((n, f) # fs) v m = do { (v, m) \<leftarrow> in_field n f v m; copy_fields fs v m }"

text \<open>\<^verbatim>\<open>out.F = in.F\<close>, and the elements that \<^verbatim>\<open>copy\<close> copies.\<close>

definition assign :: copier where
  "assign v m = Some (v, m)"

text \<open>\<^verbatim>\<open>if in.F != nil { *out = new(T); (*in).DeepCopyInto(*out) }\<close>.\<close>

definition copy_pointer :: "copier \<Rightarrow> copier" where
  "copy_pointer f v m =
     (case v of
        GPtr None \<Rightarrow> Some (v, m)
      | GPtr (Some a) \<Rightarrow>
          (case mem_cells m a of
             Some (CVal x) \<Rightarrow> do { (x, m) \<leftarrow> f x m; (b, m) \<leftarrow> alloc (CVal x) m; Some (GPtr (Some b), m) }
           | _ \<Rightarrow> None)
      | _ \<Rightarrow> None)"

fun copy_elements :: "copier \<Rightarrow> gv list \<Rightarrow> (memory, gv list) go" where
  "copy_elements f [] m = Some ([], m)"
| "copy_elements f (x # xs) m = do {
     (x, m) \<leftarrow> f x m;
     (xs, m) \<leftarrow> copy_elements f xs m;
     Some (x # xs, m)
   }"

text \<open>\<^verbatim>\<open>if in.F != nil { *out = make([]T, len(*in)); ... }\<close>: the elements one by one, or \<^verbatim>\<open>copy\<close>
  with \<open>assign\<close>. Addresses are not observable, so it does not matter that the array is allocated after
  what its elements point to.\<close>

definition copy_slice :: "copier \<Rightarrow> copier" where
  "copy_slice f v m =
     (case v of
        GSlice None \<Rightarrow> Some (v, m)
      | GSlice (Some (a, n)) \<Rightarrow>
          (case mem_cells m a of
             Some (CArray xs) \<Rightarrow>
               if n \<le> length xs then do {
                 (ys, m) \<leftarrow> copy_elements f (take n xs) m;
                 (b, m) \<leftarrow> alloc (CArray ys) m;
                 Some (GSlice (Some (b, n)), m)
               }
               else None
           | _ \<Rightarrow> None)
      | _ \<Rightarrow> None)"

text \<open>\<^verbatim>\<open>if in.F != nil { *out = make(map[string]string); for key, val := range *in { (*out)[key] = val } }\<close>.\<close>

definition copy_map :: copier where
  "copy_map v m =
     (case v of
        GMap None \<Rightarrow> Some (v, m)
      | GMap (Some a) \<Rightarrow>
          (case mem_cells m a of
             Some (CMap f) \<Rightarrow> do { (b, m) \<leftarrow> alloc (CMap f) m; Some (GMap (Some b), m) }
           | _ \<Rightarrow> None)
      | _ \<Rightarrow> None)"

section \<open>Deep copies\<close>

text \<open>A copier is deep for a type if, on every value of it, it returns a value that reads the same
  and leads to new addresses only, and changes no cell that was there.\<close>

definition copied :: "gty \<Rightarrow> nat \<Rightarrow> memory \<Rightarrow> tree \<Rightarrow> gv \<Rightarrow> memory \<Rightarrow> bool" where
  "copied t lo m tr v' m' \<longleftrightarrow>
     grows m m' \<and> mem_ok m' \<and> read t m' v' = Some tr \<and> (\<forall>a \<in> set (reach t m' v'). lo \<le> a)"

definition deep :: "gty \<Rightarrow> copier \<Rightarrow> bool" where
  "deep t f \<longleftrightarrow>
     (\<forall>m v tr. mem_ok m \<longrightarrow> read t m v = Some tr \<longrightarrow>
        (\<exists>v' m'. f v m = Some (v', m') \<and> copied t (mem_next m) m tr v' m'))"

lemma deepD:
  assumes "deep t f" and "mem_ok m" and "read t m v = Some tr"
  obtains v' m' where "f v m = Some (v', m')" and "copied t (mem_next m) m tr v' m'"
  using assms unfolding deep_def by blast

named_theorems deep_rules \<open>deep copiers\<close>

text \<open>Types without pointers are copied by assignment.\<close>

fun flat :: "gty \<Rightarrow> bool" where
  "flat Scalar = True"
| "flat Unit = True"
| "flat (FieldOf n t r) = (flat t \<and> flat r)"
| "flat _ = False"

lemma flat_reach: "flat t \<Longrightarrow> reach t m v = []"
  by (induction t arbitrary: v) (auto split: gv.split)

lemma deep_assign [deep_rules]: "flat t \<Longrightarrow> deep t assign"
  by (simp add: deep_def copied_def assign_def flat_reach)

lemma deep_pointer [deep_rules]:
  assumes "deep t f"
  shows "deep (Pointer t) (copy_pointer f)"
  unfolding deep_def
proof (intro allI impI)
  fix m v tr
  assume m: "mem_ok m" and r: "read (Pointer t) m v = Some tr"
  show "\<exists>v' m'. copy_pointer f v m = Some (v', m') \<and> copied (Pointer t) (mem_next m) m tr v' m'"
  proof (cases "v = GPtr None")
    case True
    with m r show ?thesis by (auto simp: copy_pointer_def copied_def)
  next
    case False
    with r obtain a x tx where v: "v = GPtr (Some a)" "mem_cells m a = Some (CVal x)" "read t m x = Some tx" "tr = TPtr tx"
      by (auto split: gv.splits option.splits cell.splits)
    from deepD [OF assms m v(3)] obtain x' m1 where x': "f x m = Some (x', m1)"
      and c: "copied t (mem_next m) m tx x' m1" .
    obtain b m2 where al: "alloc (CVal x') m1 = Some (b, m2)" by (auto simp: alloc_def)
    note al' = alloc_grows [OF _ al]
    have "read t m2 x' = Some tx" "reach t m2 x' = reach t m1 x'"
      using read_grows [OF al'(1)] c by (auto simp: copied_def)
    then have "copied (Pointer t) (mem_next m) m tr (GPtr (Some b)) m2"
      using c al' by (auto simp: copied_def v intro: grows_trans dest: grows_next)
    then show ?thesis by (simp add: copy_pointer_def v(1,2) x' al)
  qed
qed

lemma copy_elements_deep:
  assumes "deep t f"
  shows "mem_ok m \<Longrightarrow> list_all (\<lambda>x. read t m x \<noteq> None) xs \<Longrightarrow> \<exists>ys m'. copy_elements f xs m = Some (ys, m')
    \<and> grows m m' \<and> mem_ok m' \<and> length ys = length xs \<and> map (read t m') ys = map (read t m) xs
    \<and> (\<forall>y \<in> set ys. \<forall>a \<in> set (reach t m' y). mem_next m \<le> a)"
proof (induction xs arbitrary: m)
  case Nil
  then show ?case by simp
next
  case (Cons x xs)
  from Cons.prems obtain tx where tx: "read t m x = Some tx" by auto
  from deepD [OF assms Cons.prems(1) tx] obtain x' m1 where x': "f x m = Some (x', m1)"
    and c: "copied t (mem_next m) m tx x' m1" .
  then have m1: "grows m m1" "mem_ok m1" by (auto simp: copied_def)
  have same: "read t m1 y = read t m y" if "y \<in> set xs" for y
    using Cons.prems(2) that read_grows(1) [OF m1(1)] by (fastforce simp: list_all_iff)
  then have "list_all (\<lambda>y. read t m1 y \<noteq> None) xs"
    using Cons.prems(2) by (simp add: list_all_iff)
  from Cons.IH [OF m1(2) this] obtain ys m2 where ys: "copy_elements f xs m1 = Some (ys, m2)" "grows m1 m2" "mem_ok m2"
      "length ys = length xs" "map (read t m2) ys = map (read t m1) xs"
      "\<forall>y \<in> set ys. \<forall>a \<in> set (reach t m2 y). mem_next m1 \<le> a" by blast
  have "read t m2 x' = Some tx" "reach t m2 x' = reach t m1 x'"
    using read_grows [OF ys(2)] c by (auto simp: copied_def)
  moreover have "map (read t m1) xs = map (read t m) xs"
    using same by simp
  moreover have "mem_next m \<le> mem_next m1"
    using m1(1) by (rule grows_next)
  ultimately show ?case
    using ys c tx m1(1) by (auto simp: x' copied_def intro: grows_trans order_trans)
qed

lemma deep_slice [deep_rules]:
  assumes "deep t f"
  shows "deep (SliceOf t) (copy_slice f)"
  unfolding deep_def
proof (intro allI impI)
  fix m v tr
  assume m: "mem_ok m" and r: "read (SliceOf t) m v = Some tr"
  show "\<exists>v' m'. copy_slice f v m = Some (v', m') \<and> copied (SliceOf t) (mem_next m) m tr v' m'"
  proof (cases "v = GSlice None")
    case True
    with m r show ?thesis by (auto simp: copy_slice_def copied_def)
  next
    case False
    with r obtain a n xs where v: "v = GSlice (Some (a, n))" "mem_cells m a = Some (CArray xs)" "n \<le> length xs"
        "list_all (\<lambda>x. read t m x \<noteq> None) (take n xs)" "tr = TSlice (map (\<lambda>x. the (read t m x)) (take n xs))"
      by (auto split: gv.splits option.splits cell.splits if_splits)
    from copy_elements_deep [OF assms m v(4)] obtain ys m1 where ys: "copy_elements f (take n xs) m = Some (ys, m1)"
        "grows m m1" "mem_ok m1" "length ys = length (take n xs)" "map (read t m1) ys = map (read t m) (take n xs)"
        "\<forall>y \<in> set ys. \<forall>a \<in> set (reach t m1 y). mem_next m \<le> a" by blast
    obtain b m2 where al: "alloc (CArray ys) m1 = Some (b, m2)" by (auto simp: alloc_def)
    note al' = alloc_grows [OF ys(3) al]
    have some: "read t m1 y \<noteq> None" if "y \<in> set ys" for y
    proof -
      from that have "read t m1 y \<in> set (map (read t m) (take n xs))" using ys(5) by (metis list.set_map imageI)
      with v(4) show ?thesis by (auto simp: list_all_iff)
    qed
    then have same: "read t m2 y = read t m1 y \<and> reach t m2 y = reach t m1 y" if "y \<in> set ys" for y
      using read_grows [OF al'(1)] that by fastforce
    have "map (\<lambda>x. the (read t m2 x)) ys = map (\<lambda>x. the (read t m1 x)) ys"
      using same by simp
    also have "\<dots> = map the (map (read t m1) ys)" by simp
    also have "\<dots> = map (\<lambda>x. the (read t m x)) (take n xs)" by (simp only: ys(5)) simp
    finally have vals: "map (\<lambda>x. the (read t m2 x)) ys = map (\<lambda>x. the (read t m x)) (take n xs)" .
    have "copied (SliceOf t) (mem_next m) m tr (GSlice (Some (b, n))) m2"
      using al' ys(2-4,6) vals some same v(3) grows_next [OF ys(2)]
      by (auto simp: copied_def v(5) list_all_iff intro: grows_trans)
    then show ?thesis by (simp add: copy_slice_def v(1-3) ys(1) al)
  qed
qed

lemma deep_map [deep_rules]: "deep StringMap copy_map"
  unfolding deep_def
proof (intro allI impI)
  fix m v tr
  assume m: "mem_ok m" and r: "read StringMap m v = Some tr"
  show "\<exists>v' m'. copy_map v m = Some (v', m') \<and> copied StringMap (mem_next m) m tr v' m'"
  proof (cases "v = GMap None")
    case True
    with m r show ?thesis by (auto simp: copy_map_def copied_def)
  next
    case False
    with r obtain a f where v: "v = GMap (Some a)" "mem_cells m a = Some (CMap f)" "tr = TMap f"
      by (auto split: gv.splits option.splits cell.splits)
    obtain b m2 where al: "alloc (CMap f) m = Some (b, m2)" by (auto simp: alloc_def)
    show ?thesis
      using alloc_grows [OF m al] by (auto simp: copy_map_def v al copied_def)
  qed
qed

section \<open>Structs\<close>

primrec is_struct :: "gty \<Rightarrow> bool" where
  "is_struct Scalar = False"
| "is_struct (Pointer t) = False"
| "is_struct (SliceOf t) = False"
| "is_struct StringMap = False"
| "is_struct Unit = True"
| "is_struct (FieldOf n t r) = is_struct r"

fun field_names :: "gty \<Rightarrow> string list" where
  "field_names (FieldOf n t r) = n # field_names r"
| "field_names _ = []"

fun field_type :: "gty \<Rightarrow> string \<Rightarrow> gty option" where
  "field_type (FieldOf n t r) k = (if k = n then Some t else field_type r k)"
| "field_type _ k = None"

text \<open>The fields that assignment does not copy.\<close>

fun pointer_fields :: "gty \<Rightarrow> string list" where
  "pointer_fields (FieldOf n t r) = (if flat t then pointer_fields r else n # pointer_fields r)"
| "pointer_fields _ = []"

text \<open>The fields of a value that still lead to an address below \<open>lo\<close>.\<close>

fun stale :: "gty \<Rightarrow> nat \<Rightarrow> memory \<Rightarrow> gv \<Rightarrow> string set" where
  "stale (FieldOf n t r) lo m (GField k x y) =
     (if list_all (\<lambda>a. lo \<le> a) (reach t m x) then {} else {n}) \<union> stale r lo m y"
| "stale _ lo m v = {}"

lemma stale_names: "stale t lo m v \<subseteq> set (field_names t)"
  by (induction t lo m v rule: stale.induct) auto

lemma stale_pointer_fields: "stale t lo m v \<subseteq> set (pointer_fields t)"
  by (induction t lo m v rule: stale.induct) (auto simp: flat_reach)

lemma not_stale: "is_struct t \<Longrightarrow> stale t lo m v = {} \<Longrightarrow> list_all (\<lambda>a. lo \<le> a) (reach t m v)"
proof (induction t arbitrary: v)
  case (FieldOf n t r)
  then show ?case by (cases v) (auto split: if_splits)
qed simp_all

lemma stale_grows: "grows m m' \<Longrightarrow> read t m v = Some tr \<Longrightarrow> stale t lo m' v = stale t lo m v"
  by (induction t lo m v arbitrary: tr rule: stale.induct)
    (auto simp: read_grows split: option.splits if_splits)

lemma in_field_deep:
  assumes "deep t f" and "mem_ok m" and "lo \<le> mem_next m"
  shows "field_type s n = Some t \<Longrightarrow> distinct (field_names s) \<Longrightarrow> read s m v = Some tr \<Longrightarrow>
    \<exists>v' m'. in_field n f v m = Some (v', m') \<and> grows m m' \<and> mem_ok m' \<and> read s m' v' = Some tr
      \<and> stale s lo m' v' \<subseteq> stale s lo m v - {n}"
proof (induction s arbitrary: v tr)
  case (FieldOf k u r)
  from FieldOf.prems(3) obtain x y a b where v: "v = GField k x y" "read u m x = Some a" "read r m y = Some b" "tr = TField k a b"
    by (auto split: gv.splits option.splits if_splits)
  show ?case
  proof (cases "n = k")
    case True
    with FieldOf.prems(1) have "u = t" by simp
    with deepD [OF assms(1,2)] v(2) obtain x' m1 where x': "f x m = Some (x', m1)" and c: "copied t (mem_next m) m a x' m1"
      by metis
    have m1: "grows m m1" using c by (simp add: copied_def)
    have "list_all (\<lambda>a. lo \<le> a) (reach t m1 x')"
      using c assms(3) by (auto simp: copied_def list_all_iff)
    moreover have "n \<notin> stale r lo m y"
      using stale_names [of r lo m y] FieldOf.prems(2) True by auto
    ultimately show ?thesis
      using c True \<open>u = t\<close> by (auto simp: v x' copied_def read_grows [OF m1 v(3)] stale_grows [OF m1 v(3)])
  next
    case False
    with FieldOf.prems(1,2) FieldOf.IH(2) [OF _ _ v(3)] obtain y' m1 where y': "in_field n f y m = Some (y', m1)"
        "grows m m1" "mem_ok m1" "read r m1 y' = Some b" "stale r lo m1 y' \<subseteq> stale r lo m y - {n}"
      by (auto split: if_splits)
    then show ?thesis
      using False by (auto simp: v read_grows [OF y'(2) v(2)])
  qed
qed simp_all

lemma copy_fields_deep:
  "list_all (\<lambda>(n, f). \<exists>t. field_type s n = Some t \<and> deep t f) fs \<Longrightarrow> distinct (field_names s) \<Longrightarrow>
   mem_ok m \<Longrightarrow> lo \<le> mem_next m \<Longrightarrow> read s m v = Some tr \<Longrightarrow>
   \<exists>v' m'. copy_fields fs v m = Some (v', m') \<and> grows m m' \<and> mem_ok m' \<and> read s m' v' = Some tr
      \<and> stale s lo m' v' \<subseteq> stale s lo m v - fst ` set fs"
proof (induction fs arbitrary: v m)
  case (Cons nf fs)
  obtain n f where nf: "nf = (n, f)" by (cases nf)
  with Cons.prems(1) obtain t where t: "field_type s n = Some t" "deep t f" by auto
  from in_field_deep [OF t(2) Cons.prems(3,4) t(1) Cons.prems(2,5)] obtain v1 m1 where v1: "in_field n f v m = Some (v1, m1)"
      "grows m m1" "mem_ok m1" "read s m1 v1 = Some tr" "stale s lo m1 v1 \<subseteq> stale s lo m v - {n}" by blast
  have "lo \<le> mem_next m1"
    using Cons.prems(4) grows_next [OF v1(2)] by simp
  with Cons.IH [OF _ Cons.prems(2) v1(3) _ v1(4)] Cons.prems(1) obtain v2 m2 where
      "copy_fields fs v1 m1 = Some (v2, m2)" "grows m1 m2" "mem_ok m2" "read s m2 v2 = Some tr"
      "stale s lo m2 v2 \<subseteq> stale s lo m1 v1 - fst ` set fs" by auto
  with v1 show ?case
    by (auto simp: nf intro: grows_trans)
qed simp

text \<open>A struct is copied deeply if every field with a pointer in its type is copied deeply.\<close>

lemma deep_struct:
  assumes "is_struct s" and "distinct (field_names s)"
    and "list_all (\<lambda>n. n \<in> fst ` set fs) (pointer_fields s)"
    and "list_all (\<lambda>(n, f). case field_type s n of None \<Rightarrow> False | Some t \<Rightarrow> deep t f) fs"
  shows "deep s (copy_fields fs)"
  unfolding deep_def
proof (intro allI impI)
  fix m v tr
  assume m: "mem_ok m" and r: "read s m v = Some tr"
  have "list_all (\<lambda>(n, f). \<exists>t. field_type s n = Some t \<and> deep t f) fs"
    using assms(4) by (auto simp: list_all_iff split: option.splits)
  from copy_fields_deep [OF this assms(2) m _ r, of "mem_next m"] obtain v' m' where v':
      "copy_fields fs v m = Some (v', m')" "grows m m'" "mem_ok m'" "read s m' v' = Some tr"
      "stale s (mem_next m) m' v' \<subseteq> stale s (mem_next m) m v - fst ` set fs" by auto
  have "set (pointer_fields s) \<subseteq> fst ` set fs"
    using assms(3) by (auto simp: list_all_iff)
  with v'(5) stale_pointer_fields [of s "mem_next m" m v] have "stale s (mem_next m) m' v' = {}"
    by blast
  from not_stale [OF assms(1) this] v'(1-4) show "\<exists>v' m'. copy_fields fs v m = Some (v', m') \<and> copied s (mem_next m) m tr v' m'"
    by (auto simp: copied_def list_all_iff)
qed

end
