(* ===== verification/Deep_Copy.thy ===== *)
theory Deep_Copy
  imports Go_Memory
begin

text \<open>
  \<^verbatim>\<open>api/oxide/v1alpha1/zz_generated.deepcopy.go\<close>: the deep copies of the resources, over Go's memory,
  with the types of \<^verbatim>\<open>*_types.go\<close> as descriptions of what may be shared. Every \<^verbatim>\<open>Reconcile\<close> takes
  a deep copy of its object as the base of the status patch and then changes the object in place,
  \<^verbatim>\<open>meta.SetStatusCondition\<close> even the elements of its condition slice; the patch says what changed only
  if the copy shares nothing with the object.

  The theorem at the end is that it does not: if a field with a pointer, a slice or a map in its type
  is added to a struct, and the generated file does not follow, it does not hold any more.
\<close>

section \<open>The types of the libraries\<close>

record meta_lib =
  ty_TypeMeta :: gty
  ty_ObjectMeta :: gty
  ty_ListMeta :: gty
  ty_Condition :: gty
  ty_Time :: gty
  ty_Quantity :: gty
  ty_LocalObjectReference :: gty
  ObjectMeta_DeepCopyInto :: copier
  ListMeta_DeepCopyInto :: copier
  Condition_DeepCopyInto :: copier
  Time_DeepCopyInto :: copier
  Quantity_DeepCopy :: copier

text \<open>The documented behaviour of their deep copies; the two types that are copied by assignment are
  strings throughout.\<close>

definition meta_lib_ok :: "meta_lib \<Rightarrow> bool" where
  "meta_lib_ok L \<longleftrightarrow>
     flat (ty_TypeMeta L) \<and> flat (ty_LocalObjectReference L)
     \<and> deep (ty_ObjectMeta L) (ObjectMeta_DeepCopyInto L) \<and> deep (ty_ListMeta L) (ListMeta_DeepCopyInto L)
     \<and> deep (ty_Condition L) (Condition_DeepCopyInto L) \<and> deep (ty_Time L) (Time_DeepCopyInto L)
     \<and> deep (ty_Quantity L) (Quantity_DeepCopy L)"

lemma meta_lib_okD [deep_rules]:
  assumes "meta_lib_ok L"
  shows "flat (ty_TypeMeta L)" "flat (ty_LocalObjectReference L)"
    "deep (ty_ObjectMeta L) (ObjectMeta_DeepCopyInto L)" "deep (ty_ListMeta L) (ListMeta_DeepCopyInto L)"
    "deep (ty_Condition L) (Condition_DeepCopyInto L)" "deep (ty_Time L) (Time_DeepCopyInto L)"
    "deep (ty_Quantity L) (Quantity_DeepCopy L)"
  using assms by (simp_all add: meta_lib_ok_def)

text \<open>\<^verbatim>\<open>DeepCopy\<close> is \<open>copy_pointer\<close> of \<^verbatim>\<open>DeepCopyInto\<close>: nil for nil, and a new struct otherwise.
  \<^verbatim>\<open>DeepCopyObject\<close> is that as a \<^verbatim>\<open>runtime.Object\<close>, where nil is the nil interface.\<close>

definition as_object :: "copier \<Rightarrow> gv \<Rightarrow> (memory, gv option) go" where
  "as_object f v m = do {
     (c, m) \<leftarrow> f v m;
     Some (if c \<noteq> GPtr None then Some c else None, m)
   }"

section \<open>Parts\<close>

definition ResourceSpec_type :: "meta_lib \<Rightarrow> gty" where
  "ResourceSpec_type L =
     Struct [(''ConnectionRef'', ty_LocalObjectReference L), (''DeletionProtection'', Scalar)]"

definition ResourceSpec_DeepCopyInto :: "meta_lib \<Rightarrow> copier" where
  "ResourceSpec_DeepCopyInto L =
     copy_fields [(''ConnectionRef'', assign)]"

definition ResourceSpec_DeepCopy :: "meta_lib \<Rightarrow> copier" where
  "ResourceSpec_DeepCopy L = copy_pointer (ResourceSpec_DeepCopyInto L)"

definition ProjectRefSpec_type :: "meta_lib \<Rightarrow> gty" where
  "ProjectRefSpec_type L =
     Struct [(''Project'', Scalar), (''ProjectRef'', Pointer (ty_LocalObjectReference L))]"

definition ProjectRefSpec_DeepCopyInto :: "meta_lib \<Rightarrow> copier" where
  "ProjectRefSpec_DeepCopyInto L =
     copy_fields [(''ProjectRef'', copy_pointer assign)]"

definition ProjectRefSpec_DeepCopy :: "meta_lib \<Rightarrow> copier" where
  "ProjectRefSpec_DeepCopy L = copy_pointer (ProjectRefSpec_DeepCopyInto L)"

definition OxideNameSpec_type :: "meta_lib \<Rightarrow> gty" where
  "OxideNameSpec_type L =
     Struct [(''Name'', Scalar)]"

definition OxideNameSpec_DeepCopyInto :: "meta_lib \<Rightarrow> copier" where
  "OxideNameSpec_DeepCopyInto L =
     copy_fields []"

definition OxideNameSpec_DeepCopy :: "meta_lib \<Rightarrow> copier" where
  "OxideNameSpec_DeepCopy L = copy_pointer (OxideNameSpec_DeepCopyInto L)"

definition BootDisk_type :: "meta_lib \<Rightarrow> gty" where
  "BootDisk_type L =
     Struct [(''Size'', Pointer (ty_Quantity L)), (''Image'', Scalar), (''Disk'', Scalar)]"

definition BootDisk_DeepCopyInto :: "meta_lib \<Rightarrow> copier" where
  "BootDisk_DeepCopyInto L =
     copy_fields [(''Size'', copy_pointer (Quantity_DeepCopy L))]"

definition BootDisk_DeepCopy :: "meta_lib \<Rightarrow> copier" where
  "BootDisk_DeepCopy L = copy_pointer (BootDisk_DeepCopyInto L)"

definition NetworkInterface_type :: "meta_lib \<Rightarrow> gty" where
  "NetworkInterface_type L =
     Struct [(''Name'', Scalar), (''Description'', Scalar), (''Vpc'', Scalar), (''Subnet'', Scalar)]"

definition NetworkInterface_DeepCopyInto :: "meta_lib \<Rightarrow> copier" where
  "NetworkInterface_DeepCopyInto L =
     copy_fields []"

definition NetworkInterface_DeepCopy :: "meta_lib \<Rightarrow> copier" where
  "NetworkInterface_DeepCopy L = copy_pointer (NetworkInterface_DeepCopyInto L)"

definition ExternalIP_type :: "meta_lib \<Rightarrow> gty" where
  "ExternalIP_type L =
     Struct [(''Type'', Scalar), (''Pool'', Scalar), (''FloatingIP'', Scalar)]"

definition ExternalIP_DeepCopyInto :: "meta_lib \<Rightarrow> copier" where
  "ExternalIP_DeepCopyInto L =
     copy_fields []"

definition ExternalIP_DeepCopy :: "meta_lib \<Rightarrow> copier" where
  "ExternalIP_DeepCopy L = copy_pointer (ExternalIP_DeepCopyInto L)"

definition SecretKeyReference_type :: "meta_lib \<Rightarrow> gty" where
  "SecretKeyReference_type L =
     Struct [(''Name'', Scalar), (''Namespace'', Scalar), (''Key'', Scalar)]"

definition SecretKeyReference_DeepCopyInto :: "meta_lib \<Rightarrow> copier" where
  "SecretKeyReference_DeepCopyInto L =
     copy_fields []"

definition SecretKeyReference_DeepCopy :: "meta_lib \<Rightarrow> copier" where
  "SecretKeyReference_DeepCopy L = copy_pointer (SecretKeyReference_DeepCopyInto L)"

definition FirewallTarget_type :: "meta_lib \<Rightarrow> gty" where
  "FirewallTarget_type L =
     Struct [(''Type'', Scalar), (''Value'', Scalar)]"

definition FirewallTarget_DeepCopyInto :: "meta_lib \<Rightarrow> copier" where
  "FirewallTarget_DeepCopyInto L =
     copy_fields []"

definition FirewallTarget_DeepCopy :: "meta_lib \<Rightarrow> copier" where
  "FirewallTarget_DeepCopy L = copy_pointer (FirewallTarget_DeepCopyInto L)"

definition FirewallFilter_type :: "meta_lib \<Rightarrow> gty" where
  "FirewallFilter_type L =
     Struct [(''Hosts'', SliceOf (FirewallTarget_type L)), (''Ports'', SliceOf Scalar),
       (''Protocols'', SliceOf Scalar)]"

definition FirewallFilter_DeepCopyInto :: "meta_lib \<Rightarrow> copier" where
  "FirewallFilter_DeepCopyInto L =
     copy_fields [(''Hosts'', copy_slice assign), (''Ports'', copy_slice assign),
       (''Protocols'', copy_slice assign)]"

definition FirewallFilter_DeepCopy :: "meta_lib \<Rightarrow> copier" where
  "FirewallFilter_DeepCopy L = copy_pointer (FirewallFilter_DeepCopyInto L)"

definition FirewallRule_type :: "meta_lib \<Rightarrow> gty" where
  "FirewallRule_type L =
     Struct [(''Name'', Scalar), (''Description'', Scalar), (''Action'', Scalar),
       (''Direction'', Scalar), (''Priority'', Scalar), (''Status'', Scalar),
       (''Targets'', SliceOf (FirewallTarget_type L)), (''Filters'', FirewallFilter_type L)]"

definition FirewallRule_DeepCopyInto :: "meta_lib \<Rightarrow> copier" where
  "FirewallRule_DeepCopyInto L =
     copy_fields [(''Targets'', copy_slice assign), (''Filters'', FirewallFilter_DeepCopyInto L)]"

definition FirewallRule_DeepCopy :: "meta_lib \<Rightarrow> copier" where
  "FirewallRule_DeepCopy L = copy_pointer (FirewallRule_DeepCopyInto L)"

lemma flat_ResourceSpec [deep_rules]: "meta_lib_ok L \<Longrightarrow> flat (ResourceSpec_type L)"
  by (simp add: ResourceSpec_type_def deep_rules)

lemma deep_ResourceSpec [deep_rules]: "meta_lib_ok L \<Longrightarrow> deep (ResourceSpec_type L) (ResourceSpec_DeepCopyInto L)"
  unfolding ResourceSpec_type_def ResourceSpec_DeepCopyInto_def by (rule deep_struct) (simp_all add: deep_rules)

lemma deep_ProjectRefSpec [deep_rules]: "meta_lib_ok L \<Longrightarrow> deep (ProjectRefSpec_type L) (ProjectRefSpec_DeepCopyInto L)"
  unfolding ProjectRefSpec_type_def ProjectRefSpec_DeepCopyInto_def by (rule deep_struct) (simp_all add: deep_rules)

lemma flat_OxideNameSpec [deep_rules]: "meta_lib_ok L \<Longrightarrow> flat (OxideNameSpec_type L)"
  by (simp add: OxideNameSpec_type_def deep_rules)

lemma deep_OxideNameSpec [deep_rules]: "meta_lib_ok L \<Longrightarrow> deep (OxideNameSpec_type L) (OxideNameSpec_DeepCopyInto L)"
  unfolding OxideNameSpec_type_def OxideNameSpec_DeepCopyInto_def by (rule deep_struct) (simp_all add: deep_rules)

lemma deep_BootDisk [deep_rules]: "meta_lib_ok L \<Longrightarrow> deep (BootDisk_type L) (BootDisk_DeepCopyInto L)"
  unfolding BootDisk_type_def BootDisk_DeepCopyInto_def by (rule deep_struct) (simp_all add: deep_rules)

lemma flat_NetworkInterface [deep_rules]: "meta_lib_ok L \<Longrightarrow> flat (NetworkInterface_type L)"
  by (simp add: NetworkInterface_type_def deep_rules)

lemma deep_NetworkInterface [deep_rules]: "meta_lib_ok L \<Longrightarrow> deep (NetworkInterface_type L) (NetworkInterface_DeepCopyInto L)"
  unfolding NetworkInterface_type_def NetworkInterface_DeepCopyInto_def by (rule deep_struct) (simp_all add: deep_rules)

lemma flat_ExternalIP [deep_rules]: "meta_lib_ok L \<Longrightarrow> flat (ExternalIP_type L)"
  by (simp add: ExternalIP_type_def deep_rules)

lemma deep_ExternalIP [deep_rules]: "meta_lib_ok L \<Longrightarrow> deep (ExternalIP_type L) (ExternalIP_DeepCopyInto L)"
  unfolding ExternalIP_type_def ExternalIP_DeepCopyInto_def by (rule deep_struct) (simp_all add: deep_rules)

lemma flat_SecretKeyReference [deep_rules]: "meta_lib_ok L \<Longrightarrow> flat (SecretKeyReference_type L)"
  by (simp add: SecretKeyReference_type_def deep_rules)

lemma deep_SecretKeyReference [deep_rules]: "meta_lib_ok L \<Longrightarrow> deep (SecretKeyReference_type L) (SecretKeyReference_DeepCopyInto L)"
  unfolding SecretKeyReference_type_def SecretKeyReference_DeepCopyInto_def by (rule deep_struct) (simp_all add: deep_rules)

lemma flat_FirewallTarget [deep_rules]: "meta_lib_ok L \<Longrightarrow> flat (FirewallTarget_type L)"
  by (simp add: FirewallTarget_type_def deep_rules)

lemma deep_FirewallTarget [deep_rules]: "meta_lib_ok L \<Longrightarrow> deep (FirewallTarget_type L) (FirewallTarget_DeepCopyInto L)"
  unfolding FirewallTarget_type_def FirewallTarget_DeepCopyInto_def by (rule deep_struct) (simp_all add: deep_rules)

lemma deep_FirewallFilter [deep_rules]: "meta_lib_ok L \<Longrightarrow> deep (FirewallFilter_type L) (FirewallFilter_DeepCopyInto L)"
  unfolding FirewallFilter_type_def FirewallFilter_DeepCopyInto_def by (rule deep_struct) (simp_all add: deep_rules)

lemma deep_FirewallRule [deep_rules]: "meta_lib_ok L \<Longrightarrow> deep (FirewallRule_type L) (FirewallRule_DeepCopyInto L)"
  unfolding FirewallRule_type_def FirewallRule_DeepCopyInto_def by (rule deep_struct) (simp_all add: deep_rules)

section \<open>Specs\<close>

definition DiskSpec_type :: "meta_lib \<Rightarrow> gty" where
  "DiskSpec_type L =
     Struct [(''ResourceSpec'', ResourceSpec_type L), (''ProjectRefSpec'', ProjectRefSpec_type L),
       (''OxideNameSpec'', OxideNameSpec_type L), (''Description'', Scalar),
       (''Size'', ty_Quantity L), (''Image'', Scalar), (''Snapshot'', Scalar),
       (''BlockSize'', Scalar)]"

definition DiskSpec_DeepCopyInto :: "meta_lib \<Rightarrow> copier" where
  "DiskSpec_DeepCopyInto L =
     copy_fields [(''ResourceSpec'', assign), (''ProjectRefSpec'', ProjectRefSpec_DeepCopyInto L),
       (''OxideNameSpec'', assign), (''Size'', Quantity_DeepCopy L)]"

definition DiskSpec_DeepCopy :: "meta_lib \<Rightarrow> copier" where
  "DiskSpec_DeepCopy L = copy_pointer (DiskSpec_DeepCopyInto L)"

definition ImageSpec_type :: "meta_lib \<Rightarrow> gty" where
  "ImageSpec_type L =
     Struct [(''ResourceSpec'', ResourceSpec_type L), (''ProjectRefSpec'', ProjectRefSpec_type L),
       (''OxideNameSpec'', OxideNameSpec_type L), (''Description'', Scalar), (''OS'', Scalar),
       (''Version'', Scalar), (''URL'', Scalar), (''SHA256'', Scalar), (''Snapshot'', Scalar),
       (''BlockSize'', Scalar), (''Promote'', Scalar)]"

definition ImageSpec_DeepCopyInto :: "meta_lib \<Rightarrow> copier" where
  "ImageSpec_DeepCopyInto L =
     copy_fields [(''ResourceSpec'', assign), (''ProjectRefSpec'', ProjectRefSpec_DeepCopyInto L),
       (''OxideNameSpec'', assign)]"

definition ImageSpec_DeepCopy :: "meta_lib \<Rightarrow> copier" where
  "ImageSpec_DeepCopy L = copy_pointer (ImageSpec_DeepCopyInto L)"

definition InstanceSpec_type :: "meta_lib \<Rightarrow> gty" where
  "InstanceSpec_type L =
     Struct [(''ResourceSpec'', ResourceSpec_type L), (''ProjectRefSpec'', ProjectRefSpec_type L),
       (''OxideNameSpec'', OxideNameSpec_type L), (''Description'', Scalar),
       (''Hostname'', Scalar), (''NCPUs'', Scalar), (''Memory'', ty_Quantity L),
       (''RunState'', Scalar), (''BootDisk'', Pointer (BootDisk_type L)),
       (''Disks'', SliceOf Scalar), (''NetworkInterfaces'', SliceOf (NetworkInterface_type L)),
       (''ExternalIPs'', SliceOf (ExternalIP_type L)), (''SSHPublicKeys'', SliceOf Scalar),
       (''UserData'', Scalar)]"

definition InstanceSpec_DeepCopyInto :: "meta_lib \<Rightarrow> copier" where
  "InstanceSpec_DeepCopyInto L =
     copy_fields [(''ResourceSpec'', assign), (''ProjectRefSpec'', ProjectRefSpec_DeepCopyInto L),
       (''OxideNameSpec'', assign), (''Memory'', Quantity_DeepCopy L),
       (''BootDisk'', copy_pointer (BootDisk_DeepCopyInto L)), (''Disks'', copy_slice assign),
       (''NetworkInterfaces'', copy_slice assign), (''ExternalIPs'', copy_slice assign),
       (''SSHPublicKeys'', copy_slice assign)]"

definition InstanceSpec_DeepCopy :: "meta_lib \<Rightarrow> copier" where
  "InstanceSpec_DeepCopy L = copy_pointer (InstanceSpec_DeepCopyInto L)"

definition InstanceTemplate_type :: "meta_lib \<Rightarrow> gty" where
  "InstanceTemplate_type L =
     Struct [(''Labels'', StringMap), (''Spec'', InstanceSpec_type L)]"

definition InstanceTemplate_DeepCopyInto :: "meta_lib \<Rightarrow> copier" where
  "InstanceTemplate_DeepCopyInto L =
     copy_fields [(''Labels'', copy_map), (''Spec'', InstanceSpec_DeepCopyInto L)]"

definition InstanceTemplate_DeepCopy :: "meta_lib \<Rightarrow> copier" where
  "InstanceTemplate_DeepCopy L = copy_pointer (InstanceTemplate_DeepCopyInto L)"

definition InstanceSetSpec_type :: "meta_lib \<Rightarrow> gty" where
  "InstanceSetSpec_type L =
     Struct [(''Replicas'', Scalar), (''Template'', InstanceTemplate_type L)]"

definition InstanceSetSpec_DeepCopyInto :: "meta_lib \<Rightarrow> copier" where
  "InstanceSetSpec_DeepCopyInto L =
     copy_fields [(''Template'', InstanceTemplate_DeepCopyInto L)]"

definition InstanceSetSpec_DeepCopy :: "meta_lib \<Rightarrow> copier" where
  "InstanceSetSpec_DeepCopy L = copy_pointer (InstanceSetSpec_DeepCopyInto L)"

definition OxideConnectionSpec_type :: "meta_lib \<Rightarrow> gty" where
  "OxideConnectionSpec_type L =
     Struct [(''Host'', Scalar), (''TokenSecretRef'', SecretKeyReference_type L),
       (''InsecureSkipVerify'', Scalar)]"

definition OxideConnectionSpec_DeepCopyInto :: "meta_lib \<Rightarrow> copier" where
  "OxideConnectionSpec_DeepCopyInto L =
     copy_fields [(''TokenSecretRef'', assign)]"

definition OxideConnectionSpec_DeepCopy :: "meta_lib \<Rightarrow> copier" where
  "OxideConnectionSpec_DeepCopy L = copy_pointer (OxideConnectionSpec_DeepCopyInto L)"

definition ProjectSpec_type :: "meta_lib \<Rightarrow> gty" where
  "ProjectSpec_type L =
     Struct [(''ResourceSpec'', ResourceSpec_type L), (''Description'', Scalar)]"

definition ProjectSpec_DeepCopyInto :: "meta_lib \<Rightarrow> copier" where
  "ProjectSpec_DeepCopyInto L =
     copy_fields [(''ResourceSpec'', assign)]"

definition ProjectSpec_DeepCopy :: "meta_lib \<Rightarrow> copier" where
  "ProjectSpec_DeepCopy L = copy_pointer (ProjectSpec_DeepCopyInto L)"

definition SnapshotSpec_type :: "meta_lib \<Rightarrow> gty" where
  "SnapshotSpec_type L =
     Struct [(''ResourceSpec'', ResourceSpec_type L), (''ProjectRefSpec'', ProjectRefSpec_type L),
       (''OxideNameSpec'', OxideNameSpec_type L), (''Disk'', Scalar), (''Description'', Scalar)]"

definition SnapshotSpec_DeepCopyInto :: "meta_lib \<Rightarrow> copier" where
  "SnapshotSpec_DeepCopyInto L =
     copy_fields [(''ResourceSpec'', assign), (''ProjectRefSpec'', ProjectRefSpec_DeepCopyInto L),
       (''OxideNameSpec'', assign)]"

definition SnapshotSpec_DeepCopy :: "meta_lib \<Rightarrow> copier" where
  "SnapshotSpec_DeepCopy L = copy_pointer (SnapshotSpec_DeepCopyInto L)"

definition VpcSpec_type :: "meta_lib \<Rightarrow> gty" where
  "VpcSpec_type L =
     Struct [(''ResourceSpec'', ResourceSpec_type L), (''ProjectRefSpec'', ProjectRefSpec_type L),
       (''OxideNameSpec'', OxideNameSpec_type L), (''Description'', Scalar),
       (''DNSName'', Scalar), (''IPv6Prefix'', Scalar),
       (''FirewallRules'', Pointer (SliceOf (FirewallRule_type L)))]"

definition VpcSpec_DeepCopyInto :: "meta_lib \<Rightarrow> copier" where
  "VpcSpec_DeepCopyInto L =
     copy_fields [(''ResourceSpec'', assign), (''ProjectRefSpec'', ProjectRefSpec_DeepCopyInto L),
       (''OxideNameSpec'', assign),
       (''FirewallRules'', copy_pointer (copy_slice (FirewallRule_DeepCopyInto L)))]"

definition VpcSpec_DeepCopy :: "meta_lib \<Rightarrow> copier" where
  "VpcSpec_DeepCopy L = copy_pointer (VpcSpec_DeepCopyInto L)"

definition VpcSubnetSpec_type :: "meta_lib \<Rightarrow> gty" where
  "VpcSubnetSpec_type L =
     Struct [(''ResourceSpec'', ResourceSpec_type L), (''ProjectRefSpec'', ProjectRefSpec_type L),
       (''OxideNameSpec'', OxideNameSpec_type L), (''Vpc'', Scalar),
       (''VpcRef'', Pointer (ty_LocalObjectReference L)), (''Description'', Scalar),
       (''IPv4Block'', Scalar), (''IPv6Block'', Scalar)]"

definition VpcSubnetSpec_DeepCopyInto :: "meta_lib \<Rightarrow> copier" where
  "VpcSubnetSpec_DeepCopyInto L =
     copy_fields [(''ResourceSpec'', assign), (''ProjectRefSpec'', ProjectRefSpec_DeepCopyInto L),
       (''OxideNameSpec'', assign), (''VpcRef'', copy_pointer assign)]"

definition VpcSubnetSpec_DeepCopy :: "meta_lib \<Rightarrow> copier" where
  "VpcSubnetSpec_DeepCopy L = copy_pointer (VpcSubnetSpec_DeepCopyInto L)"

lemma deep_DiskSpec [deep_rules]: "meta_lib_ok L \<Longrightarrow> deep (DiskSpec_type L) (DiskSpec_DeepCopyInto L)"
  unfolding DiskSpec_type_def DiskSpec_DeepCopyInto_def by (rule deep_struct) (simp_all add: deep_rules)

lemma deep_ImageSpec [deep_rules]: "meta_lib_ok L \<Longrightarrow> deep (ImageSpec_type L) (ImageSpec_DeepCopyInto L)"
  unfolding ImageSpec_type_def ImageSpec_DeepCopyInto_def by (rule deep_struct) (simp_all add: deep_rules)

lemma deep_InstanceSpec [deep_rules]: "meta_lib_ok L \<Longrightarrow> deep (InstanceSpec_type L) (InstanceSpec_DeepCopyInto L)"
  unfolding InstanceSpec_type_def InstanceSpec_DeepCopyInto_def by (rule deep_struct) (simp_all add: deep_rules)

lemma deep_InstanceTemplate [deep_rules]: "meta_lib_ok L \<Longrightarrow> deep (InstanceTemplate_type L) (InstanceTemplate_DeepCopyInto L)"
  unfolding InstanceTemplate_type_def InstanceTemplate_DeepCopyInto_def by (rule deep_struct) (simp_all add: deep_rules)

lemma deep_InstanceSetSpec [deep_rules]: "meta_lib_ok L \<Longrightarrow> deep (InstanceSetSpec_type L) (InstanceSetSpec_DeepCopyInto L)"
  unfolding InstanceSetSpec_type_def InstanceSetSpec_DeepCopyInto_def by (rule deep_struct) (simp_all add: deep_rules)

lemma flat_OxideConnectionSpec [deep_rules]: "meta_lib_ok L \<Longrightarrow> flat (OxideConnectionSpec_type L)"
  by (simp add: OxideConnectionSpec_type_def deep_rules)

lemma deep_OxideConnectionSpec [deep_rules]: "meta_lib_ok L \<Longrightarrow> deep (OxideConnectionSpec_type L) (OxideConnectionSpec_DeepCopyInto L)"
  unfolding OxideConnectionSpec_type_def OxideConnectionSpec_DeepCopyInto_def by (rule deep_struct) (simp_all add: deep_rules)

lemma flat_ProjectSpec [deep_rules]: "meta_lib_ok L \<Longrightarrow> flat (ProjectSpec_type L)"
  by (simp add: ProjectSpec_type_def deep_rules)

lemma deep_ProjectSpec [deep_rules]: "meta_lib_ok L \<Longrightarrow> deep (ProjectSpec_type L) (ProjectSpec_DeepCopyInto L)"
  unfolding ProjectSpec_type_def ProjectSpec_DeepCopyInto_def by (rule deep_struct) (simp_all add: deep_rules)

lemma deep_SnapshotSpec [deep_rules]: "meta_lib_ok L \<Longrightarrow> deep (SnapshotSpec_type L) (SnapshotSpec_DeepCopyInto L)"
  unfolding SnapshotSpec_type_def SnapshotSpec_DeepCopyInto_def by (rule deep_struct) (simp_all add: deep_rules)

lemma deep_VpcSpec [deep_rules]: "meta_lib_ok L \<Longrightarrow> deep (VpcSpec_type L) (VpcSpec_DeepCopyInto L)"
  unfolding VpcSpec_type_def VpcSpec_DeepCopyInto_def by (rule deep_struct) (simp_all add: deep_rules)

lemma deep_VpcSubnetSpec [deep_rules]: "meta_lib_ok L \<Longrightarrow> deep (VpcSubnetSpec_type L) (VpcSubnetSpec_DeepCopyInto L)"
  unfolding VpcSubnetSpec_type_def VpcSubnetSpec_DeepCopyInto_def by (rule deep_struct) (simp_all add: deep_rules)

section \<open>Statuses\<close>

definition ResourceStatus_type :: "meta_lib \<Rightarrow> gty" where
  "ResourceStatus_type L =
     Struct [(''ID'', Scalar), (''Project'', Scalar), (''Conditions'', SliceOf (ty_Condition L)),
       (''ObservedGeneration'', Scalar)]"

definition ResourceStatus_DeepCopyInto :: "meta_lib \<Rightarrow> copier" where
  "ResourceStatus_DeepCopyInto L =
     copy_fields [(''Conditions'', copy_slice (Condition_DeepCopyInto L))]"

definition ResourceStatus_DeepCopy :: "meta_lib \<Rightarrow> copier" where
  "ResourceStatus_DeepCopy L = copy_pointer (ResourceStatus_DeepCopyInto L)"

definition DiskStatus_type :: "meta_lib \<Rightarrow> gty" where
  "DiskStatus_type L =
     Struct [(''ResourceStatus'', ResourceStatus_type L), (''State'', Scalar)]"

definition DiskStatus_DeepCopyInto :: "meta_lib \<Rightarrow> copier" where
  "DiskStatus_DeepCopyInto L =
     copy_fields [(''ResourceStatus'', ResourceStatus_DeepCopyInto L)]"

definition DiskStatus_DeepCopy :: "meta_lib \<Rightarrow> copier" where
  "DiskStatus_DeepCopy L = copy_pointer (DiskStatus_DeepCopyInto L)"

definition ImageStatus_type :: "meta_lib \<Rightarrow> gty" where
  "ImageStatus_type L =
     Struct [(''ResourceStatus'', ResourceStatus_type L), (''Size'', Pointer (ty_Quantity L))]"

definition ImageStatus_DeepCopyInto :: "meta_lib \<Rightarrow> copier" where
  "ImageStatus_DeepCopyInto L =
     copy_fields [(''ResourceStatus'', ResourceStatus_DeepCopyInto L),
       (''Size'', copy_pointer (Quantity_DeepCopy L))]"

definition ImageStatus_DeepCopy :: "meta_lib \<Rightarrow> copier" where
  "ImageStatus_DeepCopy L = copy_pointer (ImageStatus_DeepCopyInto L)"

definition InstanceStatus_type :: "meta_lib \<Rightarrow> gty" where
  "InstanceStatus_type L =
     Struct [(''ResourceStatus'', ResourceStatus_type L), (''State'', Scalar),
       (''ExternalIPs'', SliceOf Scalar), (''LastObserved'', Pointer (ty_Time L))]"

definition InstanceStatus_DeepCopyInto :: "meta_lib \<Rightarrow> copier" where
  "InstanceStatus_DeepCopyInto L =
     copy_fields [(''ResourceStatus'', ResourceStatus_DeepCopyInto L),
       (''ExternalIPs'', copy_slice assign),
       (''LastObserved'', copy_pointer (Time_DeepCopyInto L))]"

definition InstanceStatus_DeepCopy :: "meta_lib \<Rightarrow> copier" where
  "InstanceStatus_DeepCopy L = copy_pointer (InstanceStatus_DeepCopyInto L)"

definition InstanceSetStatus_type :: "meta_lib \<Rightarrow> gty" where
  "InstanceSetStatus_type L =
     Struct [(''Replicas'', Scalar), (''ReadyReplicas'', Scalar),
       (''Conditions'', SliceOf (ty_Condition L)), (''ObservedGeneration'', Scalar)]"

definition InstanceSetStatus_DeepCopyInto :: "meta_lib \<Rightarrow> copier" where
  "InstanceSetStatus_DeepCopyInto L =
     copy_fields [(''Conditions'', copy_slice (Condition_DeepCopyInto L))]"

definition InstanceSetStatus_DeepCopy :: "meta_lib \<Rightarrow> copier" where
  "InstanceSetStatus_DeepCopy L = copy_pointer (InstanceSetStatus_DeepCopyInto L)"

definition OxideConnectionStatus_type :: "meta_lib \<Rightarrow> gty" where
  "OxideConnectionStatus_type L =
     Struct [(''Silo'', Scalar), (''User'', Scalar), (''ObservedSecretResourceVersion'', Scalar),
       (''Conditions'', SliceOf (ty_Condition L))]"

definition OxideConnectionStatus_DeepCopyInto :: "meta_lib \<Rightarrow> copier" where
  "OxideConnectionStatus_DeepCopyInto L =
     copy_fields [(''Conditions'', copy_slice (Condition_DeepCopyInto L))]"

definition OxideConnectionStatus_DeepCopy :: "meta_lib \<Rightarrow> copier" where
  "OxideConnectionStatus_DeepCopy L = copy_pointer (OxideConnectionStatus_DeepCopyInto L)"

definition SnapshotStatus_type :: "meta_lib \<Rightarrow> gty" where
  "SnapshotStatus_type L =
     Struct [(''ResourceStatus'', ResourceStatus_type L), (''State'', Scalar),
       (''Size'', Pointer (ty_Quantity L))]"

definition SnapshotStatus_DeepCopyInto :: "meta_lib \<Rightarrow> copier" where
  "SnapshotStatus_DeepCopyInto L =
     copy_fields [(''ResourceStatus'', ResourceStatus_DeepCopyInto L),
       (''Size'', copy_pointer (Quantity_DeepCopy L))]"

definition SnapshotStatus_DeepCopy :: "meta_lib \<Rightarrow> copier" where
  "SnapshotStatus_DeepCopy L = copy_pointer (SnapshotStatus_DeepCopyInto L)"

lemma deep_ResourceStatus [deep_rules]: "meta_lib_ok L \<Longrightarrow> deep (ResourceStatus_type L) (ResourceStatus_DeepCopyInto L)"
  unfolding ResourceStatus_type_def ResourceStatus_DeepCopyInto_def by (rule deep_struct) (simp_all add: deep_rules)

lemma deep_DiskStatus [deep_rules]: "meta_lib_ok L \<Longrightarrow> deep (DiskStatus_type L) (DiskStatus_DeepCopyInto L)"
  unfolding DiskStatus_type_def DiskStatus_DeepCopyInto_def by (rule deep_struct) (simp_all add: deep_rules)

lemma deep_ImageStatus [deep_rules]: "meta_lib_ok L \<Longrightarrow> deep (ImageStatus_type L) (ImageStatus_DeepCopyInto L)"
  unfolding ImageStatus_type_def ImageStatus_DeepCopyInto_def by (rule deep_struct) (simp_all add: deep_rules)

lemma deep_InstanceStatus [deep_rules]: "meta_lib_ok L \<Longrightarrow> deep (InstanceStatus_type L) (InstanceStatus_DeepCopyInto L)"
  unfolding InstanceStatus_type_def InstanceStatus_DeepCopyInto_def by (rule deep_struct) (simp_all add: deep_rules)

lemma deep_InstanceSetStatus [deep_rules]: "meta_lib_ok L \<Longrightarrow> deep (InstanceSetStatus_type L) (InstanceSetStatus_DeepCopyInto L)"
  unfolding InstanceSetStatus_type_def InstanceSetStatus_DeepCopyInto_def by (rule deep_struct) (simp_all add: deep_rules)

lemma deep_OxideConnectionStatus [deep_rules]: "meta_lib_ok L \<Longrightarrow> deep (OxideConnectionStatus_type L) (OxideConnectionStatus_DeepCopyInto L)"
  unfolding OxideConnectionStatus_type_def OxideConnectionStatus_DeepCopyInto_def by (rule deep_struct) (simp_all add: deep_rules)

lemma deep_SnapshotStatus [deep_rules]: "meta_lib_ok L \<Longrightarrow> deep (SnapshotStatus_type L) (SnapshotStatus_DeepCopyInto L)"
  unfolding SnapshotStatus_type_def SnapshotStatus_DeepCopyInto_def by (rule deep_struct) (simp_all add: deep_rules)

section \<open>Objects\<close>

definition Disk_type :: "meta_lib \<Rightarrow> gty" where
  "Disk_type L =
     Struct [(''TypeMeta'', ty_TypeMeta L), (''ObjectMeta'', ty_ObjectMeta L),
       (''Spec'', DiskSpec_type L), (''Status'', DiskStatus_type L)]"

definition Disk_DeepCopyInto :: "meta_lib \<Rightarrow> copier" where
  "Disk_DeepCopyInto L =
     copy_fields [(''TypeMeta'', assign), (''ObjectMeta'', ObjectMeta_DeepCopyInto L),
       (''Spec'', DiskSpec_DeepCopyInto L), (''Status'', DiskStatus_DeepCopyInto L)]"

definition Disk_DeepCopy :: "meta_lib \<Rightarrow> copier" where
  "Disk_DeepCopy L = copy_pointer (Disk_DeepCopyInto L)"

definition Disk_DeepCopyObject :: "meta_lib \<Rightarrow> gv \<Rightarrow> (memory, gv option) go" where
  "Disk_DeepCopyObject L = as_object (Disk_DeepCopy L)"

definition Image_type :: "meta_lib \<Rightarrow> gty" where
  "Image_type L =
     Struct [(''TypeMeta'', ty_TypeMeta L), (''ObjectMeta'', ty_ObjectMeta L),
       (''Spec'', ImageSpec_type L), (''Status'', ImageStatus_type L)]"

definition Image_DeepCopyInto :: "meta_lib \<Rightarrow> copier" where
  "Image_DeepCopyInto L =
     copy_fields [(''TypeMeta'', assign), (''ObjectMeta'', ObjectMeta_DeepCopyInto L),
       (''Spec'', ImageSpec_DeepCopyInto L), (''Status'', ImageStatus_DeepCopyInto L)]"

definition Image_DeepCopy :: "meta_lib \<Rightarrow> copier" where
  "Image_DeepCopy L = copy_pointer (Image_DeepCopyInto L)"

definition Image_DeepCopyObject :: "meta_lib \<Rightarrow> gv \<Rightarrow> (memory, gv option) go" where
  "Image_DeepCopyObject L = as_object (Image_DeepCopy L)"

definition Instance_type :: "meta_lib \<Rightarrow> gty" where
  "Instance_type L =
     Struct [(''TypeMeta'', ty_TypeMeta L), (''ObjectMeta'', ty_ObjectMeta L),
       (''Spec'', InstanceSpec_type L), (''Status'', InstanceStatus_type L)]"

definition Instance_DeepCopyInto :: "meta_lib \<Rightarrow> copier" where
  "Instance_DeepCopyInto L =
     copy_fields [(''TypeMeta'', assign), (''ObjectMeta'', ObjectMeta_DeepCopyInto L),
       (''Spec'', InstanceSpec_DeepCopyInto L), (''Status'', InstanceStatus_DeepCopyInto L)]"

definition Instance_DeepCopy :: "meta_lib \<Rightarrow> copier" where
  "Instance_DeepCopy L = copy_pointer (Instance_DeepCopyInto L)"

definition Instance_DeepCopyObject :: "meta_lib \<Rightarrow> gv \<Rightarrow> (memory, gv option) go" where
  "Instance_DeepCopyObject L = as_object (Instance_DeepCopy L)"

definition InstanceSet_type :: "meta_lib \<Rightarrow> gty" where
  "InstanceSet_type L =
     Struct [(''TypeMeta'', ty_TypeMeta L), (''ObjectMeta'', ty_ObjectMeta L),
       (''Spec'', InstanceSetSpec_type L), (''Status'', InstanceSetStatus_type L)]"

definition InstanceSet_DeepCopyInto :: "meta_lib \<Rightarrow> copier" where
  "InstanceSet_DeepCopyInto L =
     copy_fields [(''TypeMeta'', assign), (''ObjectMeta'', ObjectMeta_DeepCopyInto L),
       (''Spec'', InstanceSetSpec_DeepCopyInto L),
       (''Status'', InstanceSetStatus_DeepCopyInto L)]"

definition InstanceSet_DeepCopy :: "meta_lib \<Rightarrow> copier" where
  "InstanceSet_DeepCopy L = copy_pointer (InstanceSet_DeepCopyInto L)"

definition InstanceSet_DeepCopyObject :: "meta_lib \<Rightarrow> gv \<Rightarrow> (memory, gv option) go" where
  "InstanceSet_DeepCopyObject L = as_object (InstanceSet_DeepCopy L)"

definition OxideConnection_type :: "meta_lib \<Rightarrow> gty" where
  "OxideConnection_type L =
     Struct [(''TypeMeta'', ty_TypeMeta L), (''ObjectMeta'', ty_ObjectMeta L),
       (''Spec'', OxideConnectionSpec_type L), (''Status'', OxideConnectionStatus_type L)]"

definition OxideConnection_DeepCopyInto :: "meta_lib \<Rightarrow> copier" where
  "OxideConnection_DeepCopyInto L =
     copy_fields [(''TypeMeta'', assign), (''ObjectMeta'', ObjectMeta_DeepCopyInto L), (''Spec'', assign),
       (''Status'', OxideConnectionStatus_DeepCopyInto L)]"

definition OxideConnection_DeepCopy :: "meta_lib \<Rightarrow> copier" where
  "OxideConnection_DeepCopy L = copy_pointer (OxideConnection_DeepCopyInto L)"

definition OxideConnection_DeepCopyObject :: "meta_lib \<Rightarrow> gv \<Rightarrow> (memory, gv option) go" where
  "OxideConnection_DeepCopyObject L = as_object (OxideConnection_DeepCopy L)"

definition Project_type :: "meta_lib \<Rightarrow> gty" where
  "Project_type L =
     Struct [(''TypeMeta'', ty_TypeMeta L), (''ObjectMeta'', ty_ObjectMeta L),
       (''Spec'', ProjectSpec_type L), (''Status'', ResourceStatus_type L)]"

definition Project_DeepCopyInto :: "meta_lib \<Rightarrow> copier" where
  "Project_DeepCopyInto L =
     copy_fields [(''TypeMeta'', assign), (''ObjectMeta'', ObjectMeta_DeepCopyInto L), (''Spec'', assign),
       (''Status'', ResourceStatus_DeepCopyInto L)]"

definition Project_DeepCopy :: "meta_lib \<Rightarrow> copier" where
  "Project_DeepCopy L = copy_pointer (Project_DeepCopyInto L)"

definition Project_DeepCopyObject :: "meta_lib \<Rightarrow> gv \<Rightarrow> (memory, gv option) go" where
  "Project_DeepCopyObject L = as_object (Project_DeepCopy L)"

definition Snapshot_type :: "meta_lib \<Rightarrow> gty" where
  "Snapshot_type L =
     Struct [(''TypeMeta'', ty_TypeMeta L), (''ObjectMeta'', ty_ObjectMeta L),
       (''Spec'', SnapshotSpec_type L), (''Status'', SnapshotStatus_type L)]"

definition Snapshot_DeepCopyInto :: "meta_lib \<Rightarrow> copier" where
  "Snapshot_DeepCopyInto L =
     copy_fields [(''TypeMeta'', assign), (''ObjectMeta'', ObjectMeta_DeepCopyInto L),
       (''Spec'', SnapshotSpec_DeepCopyInto L), (''Status'', SnapshotStatus_DeepCopyInto L)]"

definition Snapshot_DeepCopy :: "meta_lib \<Rightarrow> copier" where
  "Snapshot_DeepCopy L = copy_pointer (Snapshot_DeepCopyInto L)"

definition Snapshot_DeepCopyObject :: "meta_lib \<Rightarrow> gv \<Rightarrow> (memory, gv option) go" where
  "Snapshot_DeepCopyObject L = as_object (Snapshot_DeepCopy L)"

definition Vpc_type :: "meta_lib \<Rightarrow> gty" where
  "Vpc_type L =
     Struct [(''TypeMeta'', ty_TypeMeta L), (''ObjectMeta'', ty_ObjectMeta L),
       (''Spec'', VpcSpec_type L), (''Status'', ResourceStatus_type L)]"

definition Vpc_DeepCopyInto :: "meta_lib \<Rightarrow> copier" where
  "Vpc_DeepCopyInto L =
     copy_fields [(''TypeMeta'', assign), (''ObjectMeta'', ObjectMeta_DeepCopyInto L),
       (''Spec'', VpcSpec_DeepCopyInto L), (''Status'', ResourceStatus_DeepCopyInto L)]"

definition Vpc_DeepCopy :: "meta_lib \<Rightarrow> copier" where
  "Vpc_DeepCopy L = copy_pointer (Vpc_DeepCopyInto L)"

definition Vpc_DeepCopyObject :: "meta_lib \<Rightarrow> gv \<Rightarrow> (memory, gv option) go" where
  "Vpc_DeepCopyObject L = as_object (Vpc_DeepCopy L)"

definition VpcSubnet_type :: "meta_lib \<Rightarrow> gty" where
  "VpcSubnet_type L =
     Struct [(''TypeMeta'', ty_TypeMeta L), (''ObjectMeta'', ty_ObjectMeta L),
       (''Spec'', VpcSubnetSpec_type L), (''Status'', ResourceStatus_type L)]"

definition VpcSubnet_DeepCopyInto :: "meta_lib \<Rightarrow> copier" where
  "VpcSubnet_DeepCopyInto L =
     copy_fields [(''TypeMeta'', assign), (''ObjectMeta'', ObjectMeta_DeepCopyInto L),
       (''Spec'', VpcSubnetSpec_DeepCopyInto L), (''Status'', ResourceStatus_DeepCopyInto L)]"

definition VpcSubnet_DeepCopy :: "meta_lib \<Rightarrow> copier" where
  "VpcSubnet_DeepCopy L = copy_pointer (VpcSubnet_DeepCopyInto L)"

definition VpcSubnet_DeepCopyObject :: "meta_lib \<Rightarrow> gv \<Rightarrow> (memory, gv option) go" where
  "VpcSubnet_DeepCopyObject L = as_object (VpcSubnet_DeepCopy L)"

lemma deep_Disk [deep_rules]: "meta_lib_ok L \<Longrightarrow> deep (Disk_type L) (Disk_DeepCopyInto L)"
  unfolding Disk_type_def Disk_DeepCopyInto_def by (rule deep_struct) (simp_all add: deep_rules)

lemma deep_Image [deep_rules]: "meta_lib_ok L \<Longrightarrow> deep (Image_type L) (Image_DeepCopyInto L)"
  unfolding Image_type_def Image_DeepCopyInto_def by (rule deep_struct) (simp_all add: deep_rules)

lemma deep_Instance [deep_rules]: "meta_lib_ok L \<Longrightarrow> deep (Instance_type L) (Instance_DeepCopyInto L)"
  unfolding Instance_type_def Instance_DeepCopyInto_def by (rule deep_struct) (simp_all add: deep_rules)

lemma deep_InstanceSet [deep_rules]: "meta_lib_ok L \<Longrightarrow> deep (InstanceSet_type L) (InstanceSet_DeepCopyInto L)"
  unfolding InstanceSet_type_def InstanceSet_DeepCopyInto_def by (rule deep_struct) (simp_all add: deep_rules)

lemma deep_OxideConnection [deep_rules]: "meta_lib_ok L \<Longrightarrow> deep (OxideConnection_type L) (OxideConnection_DeepCopyInto L)"
  unfolding OxideConnection_type_def OxideConnection_DeepCopyInto_def by (rule deep_struct) (simp_all add: deep_rules)

lemma deep_Project [deep_rules]: "meta_lib_ok L \<Longrightarrow> deep (Project_type L) (Project_DeepCopyInto L)"
  unfolding Project_type_def Project_DeepCopyInto_def by (rule deep_struct) (simp_all add: deep_rules)

lemma deep_Snapshot [deep_rules]: "meta_lib_ok L \<Longrightarrow> deep (Snapshot_type L) (Snapshot_DeepCopyInto L)"
  unfolding Snapshot_type_def Snapshot_DeepCopyInto_def by (rule deep_struct) (simp_all add: deep_rules)

lemma deep_Vpc [deep_rules]: "meta_lib_ok L \<Longrightarrow> deep (Vpc_type L) (Vpc_DeepCopyInto L)"
  unfolding Vpc_type_def Vpc_DeepCopyInto_def by (rule deep_struct) (simp_all add: deep_rules)

lemma deep_VpcSubnet [deep_rules]: "meta_lib_ok L \<Longrightarrow> deep (VpcSubnet_type L) (VpcSubnet_DeepCopyInto L)"
  unfolding VpcSubnet_type_def VpcSubnet_DeepCopyInto_def by (rule deep_struct) (simp_all add: deep_rules)

section \<open>Lists\<close>

definition DiskList_type :: "meta_lib \<Rightarrow> gty" where
  "DiskList_type L =
     Struct [(''TypeMeta'', ty_TypeMeta L), (''ListMeta'', ty_ListMeta L),
       (''Items'', SliceOf (Disk_type L))]"

definition DiskList_DeepCopyInto :: "meta_lib \<Rightarrow> copier" where
  "DiskList_DeepCopyInto L =
     copy_fields [(''TypeMeta'', assign), (''ListMeta'', ListMeta_DeepCopyInto L),
       (''Items'', copy_slice (Disk_DeepCopyInto L))]"

definition DiskList_DeepCopy :: "meta_lib \<Rightarrow> copier" where
  "DiskList_DeepCopy L = copy_pointer (DiskList_DeepCopyInto L)"

definition DiskList_DeepCopyObject :: "meta_lib \<Rightarrow> gv \<Rightarrow> (memory, gv option) go" where
  "DiskList_DeepCopyObject L = as_object (DiskList_DeepCopy L)"

definition ImageList_type :: "meta_lib \<Rightarrow> gty" where
  "ImageList_type L =
     Struct [(''TypeMeta'', ty_TypeMeta L), (''ListMeta'', ty_ListMeta L),
       (''Items'', SliceOf (Image_type L))]"

definition ImageList_DeepCopyInto :: "meta_lib \<Rightarrow> copier" where
  "ImageList_DeepCopyInto L =
     copy_fields [(''TypeMeta'', assign), (''ListMeta'', ListMeta_DeepCopyInto L),
       (''Items'', copy_slice (Image_DeepCopyInto L))]"

definition ImageList_DeepCopy :: "meta_lib \<Rightarrow> copier" where
  "ImageList_DeepCopy L = copy_pointer (ImageList_DeepCopyInto L)"

definition ImageList_DeepCopyObject :: "meta_lib \<Rightarrow> gv \<Rightarrow> (memory, gv option) go" where
  "ImageList_DeepCopyObject L = as_object (ImageList_DeepCopy L)"

definition InstanceList_type :: "meta_lib \<Rightarrow> gty" where
  "InstanceList_type L =
     Struct [(''TypeMeta'', ty_TypeMeta L), (''ListMeta'', ty_ListMeta L),
       (''Items'', SliceOf (Instance_type L))]"

definition InstanceList_DeepCopyInto :: "meta_lib \<Rightarrow> copier" where
  "InstanceList_DeepCopyInto L =
     copy_fields [(''TypeMeta'', assign), (''ListMeta'', ListMeta_DeepCopyInto L),
       (''Items'', copy_slice (Instance_DeepCopyInto L))]"

definition InstanceList_DeepCopy :: "meta_lib \<Rightarrow> copier" where
  "InstanceList_DeepCopy L = copy_pointer (InstanceList_DeepCopyInto L)"

definition InstanceList_DeepCopyObject :: "meta_lib \<Rightarrow> gv \<Rightarrow> (memory, gv option) go" where
  "InstanceList_DeepCopyObject L = as_object (InstanceList_DeepCopy L)"

definition InstanceSetList_type :: "meta_lib \<Rightarrow> gty" where
  "InstanceSetList_type L =
     Struct [(''TypeMeta'', ty_TypeMeta L), (''ListMeta'', ty_ListMeta L),
       (''Items'', SliceOf (InstanceSet_type L))]"

definition InstanceSetList_DeepCopyInto :: "meta_lib \<Rightarrow> copier" where
  "InstanceSetList_DeepCopyInto L =
     copy_fields [(''TypeMeta'', assign), (''ListMeta'', ListMeta_DeepCopyInto L),
       (''Items'', copy_slice (InstanceSet_DeepCopyInto L))]"

definition InstanceSetList_DeepCopy :: "meta_lib \<Rightarrow> copier" where
  "InstanceSetList_DeepCopy L = copy_pointer (InstanceSetList_DeepCopyInto L)"

definition InstanceSetList_DeepCopyObject :: "meta_lib \<Rightarrow> gv \<Rightarrow> (memory, gv option) go" where
  "InstanceSetList_DeepCopyObject L = as_object (InstanceSetList_DeepCopy L)"

definition OxideConnectionList_type :: "meta_lib \<Rightarrow> gty" where
  "OxideConnectionList_type L =
     Struct [(''TypeMeta'', ty_TypeMeta L), (''ListMeta'', ty_ListMeta L),
       (''Items'', SliceOf (OxideConnection_type L))]"

definition OxideConnectionList_DeepCopyInto :: "meta_lib \<Rightarrow> copier" where
  "OxideConnectionList_DeepCopyInto L =
     copy_fields [(''TypeMeta'', assign), (''ListMeta'', ListMeta_DeepCopyInto L),
       (''Items'', copy_slice (OxideConnection_DeepCopyInto L))]"

definition OxideConnectionList_DeepCopy :: "meta_lib \<Rightarrow> copier" where
  "OxideConnectionList_DeepCopy L = copy_pointer (OxideConnectionList_DeepCopyInto L)"

definition OxideConnectionList_DeepCopyObject :: "meta_lib \<Rightarrow> gv \<Rightarrow> (memory, gv option) go" where
  "OxideConnectionList_DeepCopyObject L = as_object (OxideConnectionList_DeepCopy L)"

definition ProjectList_type :: "meta_lib \<Rightarrow> gty" where
  "ProjectList_type L =
     Struct [(''TypeMeta'', ty_TypeMeta L), (''ListMeta'', ty_ListMeta L),
       (''Items'', SliceOf (Project_type L))]"

definition ProjectList_DeepCopyInto :: "meta_lib \<Rightarrow> copier" where
  "ProjectList_DeepCopyInto L =
     copy_fields [(''TypeMeta'', assign), (''ListMeta'', ListMeta_DeepCopyInto L),
       (''Items'', copy_slice (Project_DeepCopyInto L))]"

definition ProjectList_DeepCopy :: "meta_lib \<Rightarrow> copier" where
  "ProjectList_DeepCopy L = copy_pointer (ProjectList_DeepCopyInto L)"

definition ProjectList_DeepCopyObject :: "meta_lib \<Rightarrow> gv \<Rightarrow> (memory, gv option) go" where
  "ProjectList_DeepCopyObject L = as_object (ProjectList_DeepCopy L)"

definition SnapshotList_type :: "meta_lib \<Rightarrow> gty" where
  "SnapshotList_type L =
     Struct [(''TypeMeta'', ty_TypeMeta L), (''ListMeta'', ty_ListMeta L),
       (''Items'', SliceOf (Snapshot_type L))]"

definition SnapshotList_DeepCopyInto :: "meta_lib \<Rightarrow> copier" where
  "SnapshotList_DeepCopyInto L =
     copy_fields [(''TypeMeta'', assign), (''ListMeta'', ListMeta_DeepCopyInto L),
       (''Items'', copy_slice (Snapshot_DeepCopyInto L))]"

definition SnapshotList_DeepCopy :: "meta_lib \<Rightarrow> copier" where
  "SnapshotList_DeepCopy L = copy_pointer (SnapshotList_DeepCopyInto L)"

definition SnapshotList_DeepCopyObject :: "meta_lib \<Rightarrow> gv \<Rightarrow> (memory, gv option) go" where
  "SnapshotList_DeepCopyObject L = as_object (SnapshotList_DeepCopy L)"

definition VpcList_type :: "meta_lib \<Rightarrow> gty" where
  "VpcList_type L =
     Struct [(''TypeMeta'', ty_TypeMeta L), (''ListMeta'', ty_ListMeta L),
       (''Items'', SliceOf (Vpc_type L))]"

definition VpcList_DeepCopyInto :: "meta_lib \<Rightarrow> copier" where
  "VpcList_DeepCopyInto L =
     copy_fields [(''TypeMeta'', assign), (''ListMeta'', ListMeta_DeepCopyInto L),
       (''Items'', copy_slice (Vpc_DeepCopyInto L))]"

definition VpcList_DeepCopy :: "meta_lib \<Rightarrow> copier" where
  "VpcList_DeepCopy L = copy_pointer (VpcList_DeepCopyInto L)"

definition VpcList_DeepCopyObject :: "meta_lib \<Rightarrow> gv \<Rightarrow> (memory, gv option) go" where
  "VpcList_DeepCopyObject L = as_object (VpcList_DeepCopy L)"

definition VpcSubnetList_type :: "meta_lib \<Rightarrow> gty" where
  "VpcSubnetList_type L =
     Struct [(''TypeMeta'', ty_TypeMeta L), (''ListMeta'', ty_ListMeta L),
       (''Items'', SliceOf (VpcSubnet_type L))]"

definition VpcSubnetList_DeepCopyInto :: "meta_lib \<Rightarrow> copier" where
  "VpcSubnetList_DeepCopyInto L =
     copy_fields [(''TypeMeta'', assign), (''ListMeta'', ListMeta_DeepCopyInto L),
       (''Items'', copy_slice (VpcSubnet_DeepCopyInto L))]"

definition VpcSubnetList_DeepCopy :: "meta_lib \<Rightarrow> copier" where
  "VpcSubnetList_DeepCopy L = copy_pointer (VpcSubnetList_DeepCopyInto L)"

definition VpcSubnetList_DeepCopyObject :: "meta_lib \<Rightarrow> gv \<Rightarrow> (memory, gv option) go" where
  "VpcSubnetList_DeepCopyObject L = as_object (VpcSubnetList_DeepCopy L)"

lemma deep_DiskList [deep_rules]: "meta_lib_ok L \<Longrightarrow> deep (DiskList_type L) (DiskList_DeepCopyInto L)"
  unfolding DiskList_type_def DiskList_DeepCopyInto_def by (rule deep_struct) (simp_all add: deep_rules)

lemma deep_ImageList [deep_rules]: "meta_lib_ok L \<Longrightarrow> deep (ImageList_type L) (ImageList_DeepCopyInto L)"
  unfolding ImageList_type_def ImageList_DeepCopyInto_def by (rule deep_struct) (simp_all add: deep_rules)

lemma deep_InstanceList [deep_rules]: "meta_lib_ok L \<Longrightarrow> deep (InstanceList_type L) (InstanceList_DeepCopyInto L)"
  unfolding InstanceList_type_def InstanceList_DeepCopyInto_def by (rule deep_struct) (simp_all add: deep_rules)

lemma deep_InstanceSetList [deep_rules]: "meta_lib_ok L \<Longrightarrow> deep (InstanceSetList_type L) (InstanceSetList_DeepCopyInto L)"
  unfolding InstanceSetList_type_def InstanceSetList_DeepCopyInto_def by (rule deep_struct) (simp_all add: deep_rules)

lemma deep_OxideConnectionList [deep_rules]: "meta_lib_ok L \<Longrightarrow> deep (OxideConnectionList_type L) (OxideConnectionList_DeepCopyInto L)"
  unfolding OxideConnectionList_type_def OxideConnectionList_DeepCopyInto_def by (rule deep_struct) (simp_all add: deep_rules)

lemma deep_ProjectList [deep_rules]: "meta_lib_ok L \<Longrightarrow> deep (ProjectList_type L) (ProjectList_DeepCopyInto L)"
  unfolding ProjectList_type_def ProjectList_DeepCopyInto_def by (rule deep_struct) (simp_all add: deep_rules)

lemma deep_SnapshotList [deep_rules]: "meta_lib_ok L \<Longrightarrow> deep (SnapshotList_type L) (SnapshotList_DeepCopyInto L)"
  unfolding SnapshotList_type_def SnapshotList_DeepCopyInto_def by (rule deep_struct) (simp_all add: deep_rules)

lemma deep_VpcList [deep_rules]: "meta_lib_ok L \<Longrightarrow> deep (VpcList_type L) (VpcList_DeepCopyInto L)"
  unfolding VpcList_type_def VpcList_DeepCopyInto_def by (rule deep_struct) (simp_all add: deep_rules)

lemma deep_VpcSubnetList [deep_rules]: "meta_lib_ok L \<Longrightarrow> deep (VpcSubnetList_type L) (VpcSubnetList_DeepCopyInto L)"
  unfolding VpcSubnetList_type_def VpcSubnetList_DeepCopyInto_def by (rule deep_struct) (simp_all add: deep_rules)

section \<open>All resources\<close>

text \<open>The resources and their lists: the description of each type, and the copy of an object of it.\<close>

definition deep_copies :: "meta_lib \<Rightarrow> (gty \<times> (gv \<Rightarrow> (memory, gv option) go)) list" where
  "deep_copies L =
     [(Disk_type L, Disk_DeepCopyObject L),
      (DiskList_type L, DiskList_DeepCopyObject L),
      (Image_type L, Image_DeepCopyObject L),
      (ImageList_type L, ImageList_DeepCopyObject L),
      (Instance_type L, Instance_DeepCopyObject L),
      (InstanceList_type L, InstanceList_DeepCopyObject L),
      (InstanceSet_type L, InstanceSet_DeepCopyObject L),
      (InstanceSetList_type L, InstanceSetList_DeepCopyObject L),
      (OxideConnection_type L, OxideConnection_DeepCopyObject L),
      (OxideConnectionList_type L, OxideConnectionList_DeepCopyObject L),
      (Project_type L, Project_DeepCopyObject L),
      (ProjectList_type L, ProjectList_DeepCopyObject L),
      (Snapshot_type L, Snapshot_DeepCopyObject L),
      (SnapshotList_type L, SnapshotList_DeepCopyObject L),
      (Vpc_type L, Vpc_DeepCopyObject L),
      (VpcList_type L, VpcList_DeepCopyObject L),
      (VpcSubnet_type L, VpcSubnet_DeepCopyObject L),
      (VpcSubnetList_type L, VpcSubnetList_DeepCopyObject L)]"

lemmas DeepCopyObject_defs = Disk_DeepCopyObject_def Disk_DeepCopy_def DiskList_DeepCopyObject_def
  DiskList_DeepCopy_def Image_DeepCopyObject_def Image_DeepCopy_def ImageList_DeepCopyObject_def
  ImageList_DeepCopy_def Instance_DeepCopyObject_def Instance_DeepCopy_def
  InstanceList_DeepCopyObject_def InstanceList_DeepCopy_def InstanceSet_DeepCopyObject_def
  InstanceSet_DeepCopy_def InstanceSetList_DeepCopyObject_def InstanceSetList_DeepCopy_def
  OxideConnection_DeepCopyObject_def OxideConnection_DeepCopy_def
  OxideConnectionList_DeepCopyObject_def OxideConnectionList_DeepCopy_def Project_DeepCopyObject_def
  Project_DeepCopy_def ProjectList_DeepCopyObject_def ProjectList_DeepCopy_def
  Snapshot_DeepCopyObject_def Snapshot_DeepCopy_def SnapshotList_DeepCopyObject_def
  SnapshotList_DeepCopy_def Vpc_DeepCopyObject_def Vpc_DeepCopy_def VpcList_DeepCopyObject_def
  VpcList_DeepCopy_def VpcSubnet_DeepCopyObject_def VpcSubnet_DeepCopy_def
  VpcSubnetList_DeepCopyObject_def VpcSubnetList_DeepCopy_def

lemma deep_copies_deep:
  assumes "meta_lib_ok L" and "(t, f) \<in> set (deep_copies L)"
  obtains g where "deep t g" and "f = as_object (copy_pointer g)"
proof -
  from assms have "\<exists>g. deep t g \<and> f = as_object (copy_pointer g)"
    by (auto simp: deep_copies_def DeepCopyObject_defs intro: deep_rules)
  then show thesis using that by blast
qed

section \<open>Properties\<close>

text \<open>C12: a deep copy is equal to its object and shares nothing with it. For every resource and
  every list of resources, whatever the object shares within itself, \<^verbatim>\<open>DeepCopyObject\<close> does not panic,
  returns nil exactly for nil, leaves the memory that was there as it was, and returns an object that
  reads the same; and it goes on reading the same whatever is written to the memory that was there
  before, by a reconcile that changes its object in place, say.\<close>

theorem deep_copies_share_nothing:
  assumes lib: "meta_lib_ok L" and f: "(t, f) \<in> set (deep_copies L)"
    and m: "mem_ok m" and obj: "read (Pointer t) m p = Some tr"
  shows "\<exists>p' m'. f p m = Some (if tr = TNil then None else Some p', m')
    \<and> mem_cells m \<subseteq>\<^sub>m mem_cells m'
    \<and> read (Pointer t) m' p' = Some tr
    \<and> (\<forall>m''. (\<forall>a. mem_next m \<le> a \<longrightarrow> mem_cells m'' a = mem_cells m' a) \<longrightarrow> read (Pointer t) m'' p' = Some tr)"
proof -
  from deep_copies_deep [OF lib f] obtain g where g: "deep t g" "f = as_object (copy_pointer g)" .
  from deepD [OF deep_pointer [OF g(1)] m obj] obtain p' m' where
    p': "copy_pointer g p m = Some (p', m')" "copied (Pointer t) (mem_next m) m tr p' m'" .
  then have r: "read (Pointer t) m' p' = Some tr" "mem_cells m \<subseteq>\<^sub>m mem_cells m'"
      "\<forall>a \<in> set (reach (Pointer t) m' p'). mem_next m \<le> a"
    by (simp_all add: copied_def grows_def del: read.simps reach.simps)
  have "f p m = Some (if tr = TNil then None else Some p', m')"
    using r(1) by (auto simp: g(2) as_object_def p'(1) split: gv.splits option.splits cell.splits)
  moreover have "read (Pointer t) m'' p' = Some tr" if "\<forall>a. mem_next m \<le> a \<longrightarrow> mem_cells m'' a = mem_cells m' a" for m''
    using read_cong [OF r(1), of m''] r(3) that by (auto simp del: read.simps reach.simps)
  ultimately show ?thesis using r(1,2) by blast
qed

text \<open>A Project whose one condition is overwritten after it was copied.\<close>

definition meta_lib0 :: meta_lib where
  "meta_lib0 =
     \<lparr>ty_TypeMeta = Unit, ty_ObjectMeta = Struct [(''Name'', Scalar), (''Labels'', StringMap)], ty_ListMeta = Unit,
      ty_Condition = Struct [(''Type'', Scalar)], ty_Time = Scalar, ty_Quantity = Scalar, ty_LocalObjectReference = Unit,
      ObjectMeta_DeepCopyInto = copy_fields [(''Labels'', copy_map)], ListMeta_DeepCopyInto = assign,
      Condition_DeepCopyInto = copy_fields [], Time_DeepCopyInto = assign, Quantity_DeepCopy = assign\<rparr>"

lemma meta_lib0_ok: "meta_lib_ok meta_lib0"
  by (simp add: meta_lib_ok_def meta_lib0_def deep_rules deep_struct)

definition gstruct :: "(string \<times> gv) list \<Rightarrow> gv" where
  "gstruct fs = foldr (\<lambda>(n, v) r. GField n v r) fs GUnit"

definition text_of :: "string \<Rightarrow> gv" where
  "text_of s = GScalar (StringScalar s)"

definition project_cells :: "gv list \<Rightarrow> memory" where
  "project_cells conditions =
     \<lparr>mem_next = 2,
      mem_cells = [0 \<mapsto> CVal (gstruct
         [(''TypeMeta'', GUnit),
          (''ObjectMeta'', gstruct [(''Name'', text_of ''demo''), (''Labels'', GMap None)]),
          (''Spec'', gstruct
            [(''ResourceSpec'', gstruct [(''ConnectionRef'', GUnit), (''DeletionProtection'', GScalar (BoolScalar True))]),
             (''Description'', text_of '''')]),
          (''Status'', gstruct
            [(''ID'', text_of ''p1''), (''Project'', text_of ''demo''), (''Conditions'', GSlice (Some (1, 1))),
             (''ObservedGeneration'', GScalar (IntScalar 3))])]),
       1 \<mapsto> CArray conditions]\<rparr>"

theorem deep_copies_share_nothing_witness:
  "\<exists>p' m'. Project_DeepCopyObject meta_lib0 (GPtr (Some 0)) (project_cells [gstruct [(''Type'', text_of ''Ready'')]]) = Some (Some p', m')
    \<and> read (Pointer (Project_type meta_lib0)) (m'\<lparr>mem_cells := (mem_cells m')(1 \<mapsto> CArray [])\<rparr>) p'
      = read (Pointer (Project_type meta_lib0)) (project_cells [gstruct [(''Type'', text_of ''Ready'')]]) (GPtr (Some 0))"
proof -
  let ?m = "project_cells [gstruct [(''Type'', text_of ''Ready'')]]"
  have "(Project_type meta_lib0, Project_DeepCopyObject meta_lib0) \<in> set (deep_copies meta_lib0)"
    by (simp add: deep_copies_def)
  moreover have "mem_ok ?m"
    by (auto simp: mem_ok_def project_cells_def split: if_splits)
  moreover obtain tr where tr: "read (Pointer (Project_type meta_lib0)) ?m (GPtr (Some 0)) = Some (TPtr tr)"
    by (simp add: project_cells_def gstruct_def text_of_def meta_lib0_def Project_type_def ProjectSpec_type_def
        ResourceSpec_type_def ResourceStatus_type_def)
  ultimately show ?thesis
    using deep_copies_share_nothing [OF meta_lib0_ok, of "Project_type meta_lib0" "Project_DeepCopyObject meta_lib0" ?m
        "GPtr (Some 0)" "TPtr tr"]
    by (fastforce simp: project_cells_def simp del: read.simps)
qed

end
