(* ===== verification/Spec2Isabelle.thy ===== *)
theory Spec2Isabelle
  imports Api_Registration Client_Cache Client_Lock Import_Convergence Instance_Convergence Drift Deep_Copy
begin

text \<open>
  The Oxide operator: nine Kubernetes controllers that keep the resources of an Oxide rack (projects,
  VPCs and subnets, disks, snapshots, images, instances and sets of them) in line with custom
  resources, an adapter with which an external watcher polls instances for drift, and the \<^verbatim>\<open>main\<close>
  that sets all of it up. This development models that code and proves what makes it correct. Paths
  below are those of the repository.

  \<^bold>\<open>How the program is modelled.\<close> An effectful Go function is a function of the state of the run that
  returns its result with the new state, or \<open>None\<close> when the goroutine panics (theory \<open>Prelude\<close>). The
  state \<open>sys\<close> holds the outside world, of any type, the operator's cache of Oxide clients, and the
  trace of all calls and events so far, which no operation reads (theory \<open>World\<close>). The Kubernetes API,
  the Oxide SDK, the web server, and the functions of apimachinery and controller-runtime are not
  part of the repository: they are the fields of an environment \<open>env\<close> that every operation takes, and
  a call may answer anything. Theorems that need more say so in the named hypotheses \<open>lib_ok\<close> (the
  library functions behave as documented), \<open>predicates_ok\<close> (so do the predicates of
  controller-runtime), \<open>serves_admitted\<close>, \<open>serves_instances\<close>, \<open>lists\<close> and \<open>serves_object\<close> (the API server
  hands out what admission let in, lists what there is, and keeps what is written),
  \<open>updates_keep_keys\<close> (and does not rename it), \<open>oxide_serves\<close> and \<open>oxide_imports\<close> (what Oxide does with
  the requests for an instance and for an import, and of its own: whatever it has under way is over after
  at most \<open>lag\<close> more looks at it, for any \<open>lag\<close>), \<open>reader_contract\<close> (a body that is read delivers bytes or
  ends, in any way) and \<open>scheme_ok\<close> (so does apimachinery's scheme).
  Theory \<open>Reference_Env\<close> gives a concrete environment in which they hold. Errors are trees of wrapped
  and joined errors, a nil error is \<open>None\<close> (\<open>Go_Errors\<close>, also \<^verbatim>\<open>pkg/oxideclient/errors.go\<close>); 64-bit
  integers are integers with the wrap-around written out (\<open>Go_Ints\<close>); the resources are records with
  the fields of \<^verbatim>\<open>api/oxide/v1alpha1/*_types.go\<close>, and the admission rules of their markers are
  predicates (\<open>Api_Types\<close>).

  \<^bold>\<open>Which theory models what.\<close>
  \<^item> \<open>Helpers\<close>: \<^verbatim>\<open>internal/controller/oxide/helpers.go\<close>, the events, the opt-out and \<^verbatim>\<open>setReady\<close>.
  \<^item> \<open>Controller_Contract\<close>: the shape that the \<^verbatim>\<open>Reconcile\<close> functions share, as locales: \<open>publisher\<close>
    (operations, then the status), \<open>reconciler\<close> (fetch, opt-out, deletion, finalizer, publish),
    \<open>deleter\<close> and \<open>block_deleter\<close> (the finalizer goes when the Oxide resource is gone), and \<open>managed\<close>
    (both). Each controller's \<^verbatim>\<open>Reconcile\<close> is written out as in its file, shown to have the shape, and
    is an interpretation of these locales.
  \<^item> \<open>Oxide_Client\<close>, \<open>Client_Cache\<close>, \<open>Client_Lock\<close>: \<^verbatim>\<open>pkg/oxideclient/client.go\<close>; the locale
    \<open>client_cache\<close> is what its users rely on. In \<open>Client_Lock\<close> the mutex is a step relation: any number
    of goroutines go through \<^verbatim>\<open>ClientFor\<close> statement by statement, in any interleaving.
  \<^item> \<open>Closed_Loop\<close>: reconciles of one object, one after the other, with time passing in between; the
    locale \<open>closed_loop\<close> turns a measure that each reconcile brings down into a bound on their number.
  \<^item> \<open>Project_Controller\<close>, \<open>Vpc_Controller\<close> (with the translation of firewall rules),
    \<open>Vpc_Subnet_Controller\<close>, \<open>Disk_Controller\<close>, \<open>Snapshot_Controller\<close>: the files of these names under
    \<^verbatim>\<open>internal/controller/oxide\<close>.
  \<^item> \<open>Image_Lookup\<close>, \<open>Chunk_Writer\<close>, \<open>Image_Import\<close>, \<open>Image_Controller\<close>: \<^verbatim>\<open>image_controller.go\<close>. An
    image is made from a snapshot, or imported from a URL: a download is copied to a temporary disk
    chunk by chunk, checked against a digest, finalized into a snapshot, and the temporaries removed.
    \<open>Import_Convergence\<close>: the loop of the import with an Oxide that keeps a disk, a snapshot and an
    image with their bytes.
  \<^item> \<open>Instance_Controller\<close>, \<open>Instance_Convergence\<close>: \<^verbatim>\<open>instance_controller.go\<close>, and its loop with Oxide.
  \<^item> \<open>InstanceSet_Controller\<close>: \<^verbatim>\<open>instanceset_controller.go\<close>. It only makes and deletes Instance objects,
    which the Instance controller then reconciles.
  \<^item> \<open>Connection_Controller\<close>: \<^verbatim>\<open>oxideconnection_controller.go\<close>.
  \<^item> \<open>Instance_Fetcher\<close>, \<open>Drift\<close>: \<^verbatim>\<open>pkg/oxideclient/fetcher.go\<close>, and its agreement with the controller.
  \<^item> \<open>Manager\<close>: \<^verbatim>\<open>cmd/main.go\<close>, \<^verbatim>\<open>predicate.go\<close> and every \<^verbatim>\<open>SetupWithManager\<close>.
  \<^item> \<open>Api_Registration\<close>: \<^verbatim>\<open>api/oxide/v1alpha1/groupversion_info.go\<close> and every \<^verbatim>\<open>init\<close>.
  \<^item> \<open>Go_Memory\<close>, \<open>Deep_Copy\<close>: the generated \<^verbatim>\<open>api/oxide/v1alpha1/zz_generated.deepcopy.go\<close>, over a memory
    with pointers, slices and maps, and the types it has to follow.

  \<^bold>\<open>What is shown.\<close> Theorems about effects have the form \<open>ensures m s P\<close>: started in \<open>s\<close>, the operation
  \<open>m\<close> returns without a panic, and \<open>P\<close> relates its result to the effects it added to the trace. They
  hold for whatever the outside world answers, unless a hypothesis says otherwise.
  \<^item> Of all controllers, here: the finalizer is saved before Oxide is called, the opt-out is
    respected, the status that is published is true to the outcome of the operations, nothing is written to the API
    server but the object itself (its finalizer and its status) and a set's children, and
    \<^verbatim>\<open>setReady\<close> decides as documented. In \<open>Manager\<close>: the manager runs with all nine controllers or not at all; in
    \<open>Api_Registration\<close>: its scheme knows every type that they handle.
  \<^item> Of the deep copies: a copy is equal to its object and shares no memory with it, for all types.
  \<^item> Of each deletion, here: nothing is made, and the finalizer is dropped only once Oxide has
    confirmed that the resource is gone, with an instance's boot disk and an image's leftover import.
  \<^item> Of the import: the chunked writer agrees with a list of writes that makes a blank disk the body
    of the download, and returns however the body ends; a snapshot that is finalized is the file; a wrong
    digest ends in a terminal failure; one reconcile moves the import one step; the temporary disk is
    large enough; and wherever an import was interrupted, at most \<open>5 + 3 * lag\<close> reconciles end it with the
    file as the image and no leftovers.
  \<^item> Of instances: each pass makes the one right request, at most \<open>5 + 3 * lag\<close> reconciles make an instance
    or bring it to its spec, at most \<open>3 + 2 * lag\<close> delete it, and the watcher calls for one if it is needed,
    and always while the instance is in a state that its code does not know.
  \<^item> Of the others: VPCs are updated exactly on drift, firewall rules read back unchanged, subnets
    wait for their Vpc, a set keeps exactly its Instances, connections last while they are used, and
    a cached client is reused exactly while its connection and token are unchanged, also by concurrent
    reconciles, none of which gets a client of another connection or of an older version of its own.

  \<^bold>\<open>Bounds.\<close> There is no fuel: the loop of \<^verbatim>\<open>writeChunks\<close> and the reference list of its writes terminate
  by the length of what is left to read, and every other recursion is structural. A body is assumed
  to be shorter than \<open>2 ^ 64\<close> bytes less a chunk, since an offset is a \<^verbatim>\<open>uint64\<close>. The sizes of a
  spec go into the SDK's own integer types (\<^verbatim>\<open>ByteCount\<close>, \<^verbatim>\<open>InstanceCpuCount\<close>) unchanged, which is right for
  those that these types can hold (\<open>size_in_range\<close>): a size that is negative or too large for them is
  outside the model. In the other direction the conversion to \<^verbatim>\<open>int64\<close> wraps around (\<open>wrap64\<close>). The
  convergence of an instance takes up to five reconciles when every transition is over by the next look (a stop, the wait for it, a resize, a start,
  and the final check), its deletion up to three (a wait or a stop, the wait for it, the deletion), an
  import up to five (the clean-up of what was interrupted, the new disk, the writes, the snapshot, the
  image); each of the up to three, two and three waits in them adds up to \<open>lag\<close> reconciles when transitions
  take longer.

  \<^bold>\<open>Not modelled.\<close> Logging; the parsing of the command line, which is a library call; the work queues
  of controller-runtime: reconciles of different objects are whole operations here, which interleave
  only inside \<^verbatim>\<open>ClientFor\<close>, where they share memory (their effects on the API server and on Oxide are
  those of an outside world that may answer anything); and the manifests under \<^verbatim>\<open>config\<close> and
  \<^verbatim>\<open>dist\<close>. In the controllers objects are values: a status patch is given the whole object as it was
  and as it is, which is right because of the theorem of \<open>Deep_Copy\<close>.
\<close>

section \<open>All controllers\<close>

text \<open>The object of a kind that a key names, as the API server hands it out, whatever the kind.\<close>

definition as_obj :: "('o \<Rightarrow> kobject) \<Rightarrow> error + 'o \<Rightarrow> kobject option" where
  "as_obj mk r = (case r of Inl _ \<Rightarrow> None | Inr obj \<Rightarrow> Some (mk obj))"

definition lookup :: "('c, 'w) env \<Rightarrow> kind \<Rightarrow> object_key \<Rightarrow> 'w \<Rightarrow> kobject option" where
  "lookup E k key w =
     (case k of
        ProjectKind \<Rightarrow> as_obj ProjectObj (fst (k_get (e_project E) key w))
      | VpcKind \<Rightarrow> as_obj VpcObj (fst (k_get (e_vpc E) key w))
      | VpcSubnetKind \<Rightarrow> as_obj SubnetObj (fst (k_get (e_subnet E) key w))
      | DiskKind \<Rightarrow> as_obj DiskObj (fst (k_get (e_disk E) key w))
      | SnapshotKind \<Rightarrow> as_obj SnapshotObj (fst (k_get (e_snapshot E) key w))
      | ImageKind \<Rightarrow> as_obj ImageObj (fst (k_get (e_image E) key w))
      | InstanceKind \<Rightarrow> as_obj InstanceObj (fst (k_get (e_instance E) key w))
      | InstanceSetKind \<Rightarrow> as_obj SetObj (fst (k_get (e_set E) key w))
      | OxideConnectionKind \<Rightarrow> as_obj ConnObj (fst (k_get (e_conn E) key w))
      | SecretKind \<Rightarrow> None)"

fun meta_of :: "kobject \<Rightarrow> object_meta" where
  "meta_of (ProjectObj x) = o_meta x"
| "meta_of (VpcObj x) = o_meta x"
| "meta_of (SubnetObj x) = o_meta x"
| "meta_of (DiskObj x) = o_meta x"
| "meta_of (SnapshotObj x) = o_meta x"
| "meta_of (ImageObj x) = o_meta x"
| "meta_of (InstanceObj x) = o_meta x"
| "meta_of (SetObj x) = o_meta x"
| "meta_of (ConnObj x) = o_meta x"

text \<open>The object with the finalizer added.\<close>

fun with_meta :: "object_meta \<Rightarrow> kobject \<Rightarrow> kobject" where
  "with_meta m (ProjectObj x) = ProjectObj (x\<lparr>o_meta := m\<rparr>)"
| "with_meta m (VpcObj x) = VpcObj (x\<lparr>o_meta := m\<rparr>)"
| "with_meta m (SubnetObj x) = SubnetObj (x\<lparr>o_meta := m\<rparr>)"
| "with_meta m (DiskObj x) = DiskObj (x\<lparr>o_meta := m\<rparr>)"
| "with_meta m (SnapshotObj x) = SnapshotObj (x\<lparr>o_meta := m\<rparr>)"
| "with_meta m (ImageObj x) = ImageObj (x\<lparr>o_meta := m\<rparr>)"
| "with_meta m (InstanceObj x) = InstanceObj (x\<lparr>o_meta := m\<rparr>)"
| "with_meta m (SetObj x) = SetObj (x\<lparr>o_meta := m\<rparr>)"
| "with_meta m (ConnObj x) = ConnObj (x\<lparr>o_meta := m\<rparr>)"

definition with_finalizer :: "kobject \<Rightarrow> kobject" where
  "with_finalizer ko =
     with_meta ((meta_of ko)\<lparr>om_Finalizers := om_Finalizers (meta_of ko) @ [finalizerName]\<rparr>) ko"

text \<open>The API server hands out what its admission rules let in.\<close>

definition serves_all :: "('c, 'w) env \<Rightarrow> object_key \<Rightarrow> 'w \<Rightarrow> bool" where
  "serves_all E key w \<longleftrightarrow> serves_admitted (e_image E) key w \<and> serves_instances (e_instance E) key w"

lemma as_obj_Some: "as_obj mk r = Some ko \<longleftrightarrow> (\<exists>obj. r = Inr obj \<and> ko = mk obj)"
  by (cases r) (auto simp: as_obj_def)

lemmas lookup_simps = lookup_def as_obj_Some SetupWithManager_defs

lemma quiet_until_saved:
  fixes R :: "('r \<times> ('c, 'w) sys) option"
  assumes lib: "lib_ok l" and "finalizerName \<notin> set (om_Finalizers (o_meta obj))"
    and "meta_of (mk obj) = o_meta obj" and "\<And>m. with_meta m (mk obj) = mk (obj\<lparr>o_meta := m\<rparr>)"
    and first: "snd (AddFinalizer l (o_meta obj) finalizerName) \<Longrightarrow>
      ensures R s (\<lambda>r tr. preceded (finalizer_saved l mk obj) is_oxide_call tr)"
  shows "ensures R s (\<lambda>r tr. preceded (\<lambda>e. e = Kube (KUpdate (with_finalizer (mk obj))) None) is_oxide_call tr)"
proof -
  have "(finalizer_saved l mk obj :: 'c effect \<Rightarrow> bool) = (\<lambda>e. e = Kube (KUpdate (with_finalizer (mk obj))) None)"
    using assms(2-4) by (auto simp: fun_eq_iff finalizer_saved_def with_finalizer_def lib_okD(3) [OF lib])
  with first assms(2) show ?thesis by (simp add: lib_okD(3) [OF lib])
qed

text \<open>The conditions of an object, and whether a generation is the one its status has observed; the
  status of an OxideConnection does not record one.\<close>

fun conditions_of :: "kobject \<Rightarrow> condition list" where
  "conditions_of (ProjectObj x) = rst_Conditions (o_status x)"
| "conditions_of (VpcObj x) = rst_Conditions (o_status x)"
| "conditions_of (SubnetObj x) = rst_Conditions (o_status x)"
| "conditions_of (DiskObj x) = rst_Conditions (dst_Resource (o_status x))"
| "conditions_of (SnapshotObj x) = rst_Conditions (snst_Resource (o_status x))"
| "conditions_of (ImageObj x) = rst_Conditions (ist_Resource (o_status x))"
| "conditions_of (InstanceObj x) = rst_Conditions (inst_Resource (o_status x))"
| "conditions_of (SetObj x) = isst_Conditions (o_status x)"
| "conditions_of (ConnObj x) = ocst_Conditions (o_status x)"

fun observed :: "kobject \<Rightarrow> int \<Rightarrow> bool" where
  "observed (ProjectObj x) g = (rst_ObservedGeneration (o_status x) = g)"
| "observed (VpcObj x) g = (rst_ObservedGeneration (o_status x) = g)"
| "observed (SubnetObj x) g = (rst_ObservedGeneration (o_status x) = g)"
| "observed (DiskObj x) g = (rst_ObservedGeneration (dst_Resource (o_status x)) = g)"
| "observed (SnapshotObj x) g = (rst_ObservedGeneration (snst_Resource (o_status x)) = g)"
| "observed (ImageObj x) g = (rst_ObservedGeneration (ist_Resource (o_status x)) = g)"
| "observed (InstanceObj x) g = (rst_ObservedGeneration (inst_Resource (o_status x)) = g)"
| "observed (SetObj x) g = (isst_ObservedGeneration (o_status x) = g)"
| "observed (ConnObj x) g = True"

text \<open>The state in which a reconcile has read its object, and what the operations on an object of a kind
  return there.\<close>

definition got :: "kind \<Rightarrow> ('o, 'w) kube_ops \<Rightarrow> object_key \<Rightarrow> ('c, 'w) sys \<Rightarrow> ('c, 'w) sys" where
  "got k ops req s = logged s (snd (k_get ops req (world s))) (Kube (KGet k req) (err_of (fst (k_get ops req (world s)))))"

fun ops_end :: "('c, 'w) env \<Rightarrow> object_key \<Rightarrow> ('c, 'w) sys \<Rightarrow> kobject \<Rightarrow> error option \<Rightarrow> bool" where
  "ops_end E req s (ProjectObj x) = ends_with (handleProjectOperations E x (got ProjectKind (e_project E) req s))"
| "ops_end E req s (VpcObj x) = ends_with (handleVpcOperations E x (got VpcKind (e_vpc E) req s))"
| "ops_end E req s (SubnetObj x) = ends_with (handleVpcSubnetOperations E x (got VpcSubnetKind (e_subnet E) req s))"
| "ops_end E req s (DiskObj x) = ends_with (handleDiskOperations E x (got DiskKind (e_disk E) req s))"
| "ops_end E req s (SnapshotObj x) = ends_with (handleSnapshotOperations E x (got SnapshotKind (e_snapshot E) req s))"
| "ops_end E req s (ImageObj x) = ends_with (handleImageOperations E x (got ImageKind (e_image E) req s))"
| "ops_end E req s (InstanceObj x) = ends_with (handleInstanceOperations E x (got InstanceKind (e_instance E) req s))"
| "ops_end E req s (SetObj x) = ends_with (sync E x (got InstanceSetKind (e_set E) req s))"
| "ops_end E req s (ConnObj x) = ends_with (checkConnection E x (got OxideConnectionKind (e_conn E) req s))"

text \<open>What a reconcile says of the outcome \<open>oerr\<close> of its operations: the last effect is the patch of the
  status, with the condition that \<^verbatim>\<open>setReady\<close> makes of the outcome.\<close>

definition status_published ::
  "lib \<Rightarrow> error option \<Rightarrow> kobject \<Rightarrow> kobject \<Rightarrow> ctrl_result \<times> error option \<Rightarrow> 'c effect list \<Rightarrow> bool" where
  "status_published l oerr ko ko' r tr \<longleftrightarrow>
     (\<exists>u. last tr = Kube (KPatchStatus ko') u
        \<and> meta_of ko' = meta_of ko
        \<and> (\<exists>cs. conditions_of ko' = SetStatusCondition l cs (fst (setReady_outcome oerr)))
        \<and> IsStatusConditionTrue l (conditions_of ko') typeReady = (oerr = None)
        \<and> (oerr = None \<longrightarrow> observed ko' (om_Generation (meta_of ko)))
        \<and> (u = None \<longrightarrow>
             r = (if oerr = None then (\<lparr>RequeueAfter = resyncPeriod\<rparr>, None)
                  else if err_is is_failed oerr then (no_requeue, Some (Terminal (ShortError (the oerr))))
                  else if err_is is_progressing oerr then (\<lparr>RequeueAfter = progressPeriod\<rparr>, None)
                  else (no_requeue, map_option ShortError oerr))))"

lemma adds_published:
  assumes "adds m s (\<lambda>r tr. \<exists>oerr. ends_with h oerr \<and> reports_status l mk conditions with_observed obj oerr r tr)"
    and "\<And>x. meta_of (mk x) = o_meta x" and "\<And>x. conditions_of (mk x) = conditions (o_status x)"
    and "\<And>x st g. o_status x = with_observed g st \<Longrightarrow> observed (mk x) g"
    and "ops_end E req s (mk obj) = ends_with h"
  shows "adds m s (\<lambda>r tr. \<exists>oerr. ops_end E req s (mk obj) oerr \<and> (\<exists>ko'. status_published l oerr (mk obj) ko' r tr))"
  using assms(1)
proof (rule adds_weaken)
  fix r tr
  assume "\<exists>oerr. ends_with h oerr \<and> reports_status l mk conditions with_observed obj oerr r tr"
  then obtain oerr tr' obj' u cs where "ops_end E req s (mk obj) oerr"
      "tr = tr' @ [Kube (KPatchStatus (mk obj')) u]" "o_meta obj' = o_meta obj"
      "conditions (o_status obj') = SetStatusCondition l cs (fst (setReady_outcome oerr))"
      "IsStatusConditionTrue l (conditions (o_status obj')) typeReady = (oerr = None)"
      "oerr = None \<longrightarrow> (\<exists>st. o_status obj' = with_observed (om_Generation (o_meta obj)) st)"
      "u = None \<longrightarrow> r = snd (setReady_outcome oerr)"
    unfolding reports_status_def assms(5) by blast
  then have "ops_end E req s (mk obj) oerr \<and> status_published l oerr (mk obj) (mk obj') r tr"
    using assms(4) by (auto simp: status_published_def assms(2,3) setReady_outcome_def Let_def split: option.split)
  then show "\<exists>oerr. ops_end E req s (mk obj) oerr \<and> (\<exists>ko'. status_published l oerr (mk obj) ko' r tr)" by blast
qed

lemmas fetched_states = conn_ctl.fetched_def project_ctl.fetched_def disk_ctl.fetched_def vpc_ctl.fetched_def
  subnet_ctl.fetched_def snapshot_ctl.fetched_def img_ctl.fetched_def inst_ctl.fetched_def

lemma ops_end_fetched:
  "ops_end E req s (ConnObj conn) = ends_with (checkConnection E conn (conn_ctl.fetched E req s))"
  "ops_end E req s (ProjectObj p) = ends_with (handleProjectOperations E p (project_ctl.fetched E req s))"
  "ops_end E req s (InstanceObj inst) = ends_with (handleInstanceOperations E inst (inst_ctl.fetched E req s))"
  "ops_end E req s (DiskObj d) = ends_with (handleDiskOperations E d (disk_ctl.fetched E req s))"
  "ops_end E req s (VpcObj v) = ends_with (handleVpcOperations E v (vpc_ctl.fetched E req s))"
  "ops_end E req s (SubnetObj sub) = ends_with (handleVpcSubnetOperations E sub (subnet_ctl.fetched E req s))"
  "ops_end E req s (SnapshotObj snap) = ends_with (handleSnapshotOperations E snap (snapshot_ctl.fetched E req s))"
  "ops_end E req s (ImageObj img) = ends_with (handleImageOperations E img (img_ctl.fetched E req s))"
  by (simp_all add: got_def fetched_states)

lemma ops_end_set:
  "fst (k_get (e_set E) req (world s)) = Inr iset \<Longrightarrow>
   ops_end E req s (SetObj iset) =
     ends_with (sync E iset (logged s (snd (k_get (e_set E) req (world s))) (Kube (KGet InstanceSetKind req) None)))"
  by (simp add: got_def)

lemmas published_rules = adds_published [OF InstanceSet_published _ _ _ ops_end_set]
  adds_published [OF conn_ctl.reconcile_published _ _ _ ops_end_fetched(1)]
  adds_published [OF project_ctl.reconcile_published _ _ _ ops_end_fetched(2)]
  adds_published [OF inst_ctl.reconcile_published _ _ _ ops_end_fetched(3)]
  adds_published [OF disk_ctl.reconcile_published _ _ _ ops_end_fetched(4)]
  adds_published [OF vpc_ctl.reconcile_published _ _ _ ops_end_fetched(5)]
  adds_published [OF subnet_ctl.reconcile_published _ _ _ ops_end_fetched(6)]
  adds_published [OF snapshot_ctl.reconcile_published _ _ _ ops_end_fetched(7)]
  adds_published [OF img_ctl.reconcile_published _ _ _ ops_end_fetched(8)]

lemmas disabled_simps = InstanceSet_disabled
  conn_ctl.reconcile_disabled project_ctl.reconcile_disabled disk_ctl.reconcile_disabled
  vpc_ctl.reconcile_disabled subnet_ctl.reconcile_disabled snapshot_ctl.reconcile_disabled
  img_ctl.reconcile_disabled inst_ctl.reconcile_disabled fetched_states

text \<open>What an object's deletion has to see gone in Oxide before the finalizer may go: the resource,
  the boot disk that an Instance made, and what the import of an Image may have left. Nothing, for a set
  and for a connection.\<close>

fun must_go :: "kobject \<Rightarrow> ('c effect \<Rightarrow> bool) list" where
  "must_go (ProjectObj x) = [project_gone x]"
| "must_go (VpcObj x) = [vpc_gone x]"
| "must_go (SubnetObj x) = [subnet_gone x]"
| "must_go (DiskObj x) = [disk_gone x]"
| "must_go (SnapshotObj x) = [snapshot_gone x]"
| "must_go (ImageObj x) = img_gone x # (if is_URL (o_spec x) = '''' then [] else [import_snapshot_gone x, import_disk_gone x])"
| "must_go (InstanceObj x) = inst_gone x # (if owns_boot_disk x then [boot_disk_gone x] else [])"
| "must_go (SetObj x) = []"
| "must_go (ConnObj x) = []"

text \<open>The objects whose deletion must not touch Oxide.\<close>

fun hands_off :: "kobject \<Rightarrow> bool" where
  "hands_off (ProjectObj x) = rs_DeletionProtection (ps_Resource (o_spec x))"
| "hands_off (VpcObj x) = rs_DeletionProtection (vs_Resource (o_spec x))"
| "hands_off (SubnetObj x) = rs_DeletionProtection (ss_Resource (o_spec x))"
| "hands_off (DiskObj x) = rs_DeletionProtection (ds_Resource (o_spec x))"
| "hands_off (SnapshotObj x) = rs_DeletionProtection (sns_Resource (o_spec x))"
| "hands_off (ImageObj x) = rs_DeletionProtection (is_Resource (o_spec x))"
| "hands_off (InstanceObj x) = rs_DeletionProtection (ins_Resource (o_spec x))"
| "hands_off (SetObj x) = True"
| "hands_off (ConnObj x) = True"

definition deletion_protocol :: "kobject \<Rightarrow> 'c effect list \<Rightarrow> bool" where
  "deletion_protocol ko tr \<longleftrightarrow>
     list_all (\<lambda>e. \<not> is_oxide_create e) tr
     \<and> (if hands_off ko then list_all (\<lambda>e. \<not> is_oxide_call e) tr
        else list_all (\<lambda>g. preceded g is_kube_update tr) (must_go ko))"

lemma deletion_rules:
  "adds m s (\<lambda>r tr. list_all (\<lambda>e. \<not> is_oxide_create e) tr
     \<and> (if b then list_all (\<lambda>e. \<not> is_oxide_call e) tr else preceded g is_kube_update tr))
   \<Longrightarrow> hands_off ko = b \<Longrightarrow> must_go ko = [g] \<Longrightarrow> adds m s (\<lambda>r tr. deletion_protocol ko tr)"
  by (erule adds_weaken) (auto simp: deletion_protocol_def)

lemma deletion_quiet:
  "adds m s (\<lambda>r tr. list_all (\<lambda>e. \<not> is_oxide_call e) tr) \<Longrightarrow> hands_off ko \<Longrightarrow> adds m s (\<lambda>r tr. deletion_protocol ko tr)"
  by (erule adds_weaken) (auto simp: deletion_protocol_def no_oxide_no_create)

lemma ensures_adds: "ensures m s P \<Longrightarrow> adds m s P"
  by (auto simp: ensures_def adds_def)

lemma deletions:
  "serves_admitted (e_image E) req (world s) \<Longrightarrow> fst (k_get (e_image E) req (world s)) = Inr img \<Longrightarrow>
   om_DeletionTimestamp (o_meta img) \<noteq> None \<Longrightarrow>
   adds (ImageReconciler_Reconcile E req s) s (\<lambda>r tr. deletion_protocol (ImageObj img) tr)"
  "fst (k_get (e_instance E) req (world s)) = Inr inst \<Longrightarrow> om_DeletionTimestamp (o_meta inst) \<noteq> None \<Longrightarrow>
   adds (InstanceReconciler_Reconcile E req s) s (\<lambda>r tr. deletion_protocol (InstanceObj inst) tr)"
  using image_deletion [of img E req s] instance_deletion [of E req s inst]
  by (auto simp: deletion_protocol_def image_cleared_def serves_admitted_def intro!: adds_weaken [OF ensures_adds])

text \<open>No controller panics on what the API server hands out.\<close>

lemma controllers_run:
  assumes "lib_ok (e_lib E)" and "serves_all E req (world s)" and c: "c \<in> snd ` set (controllers P E fl)"
  shows "runs (ct_Reconcile c req s)"
  by (rule controllers_cases [OF c]; use assms(1,2) in \<open>simp only: serves_all_def\<close>)
    (auto simp: SetupWithManager_defs intro: InstanceSetReconciler_Reconcile_runs ConnectionReconciler_Reconcile_runs
      ProjectReconciler_Reconcile_runs InstanceReconciler_Reconcile_runs DiskReconciler_Reconcile_runs
      VpcReconciler_Reconcile_runs VpcSubnetReconciler_Reconcile_runs SnapshotReconciler_Reconcile_runs
      ImageReconciler_Reconcile_runs)

section \<open>Properties\<close>

text \<open>C4: the finalizer comes first, in every controller. A reconcile of a resource that is
  not being deleted and has no finalizer yet makes no call to Oxide before the update that puts the
  finalizer on the resource has been acknowledged; so nothing is made in Oxide that a deletion of the
  resource could leave behind. (An InstanceSet is given no finalizer; for it this
  holds because its controller never calls Oxide, lemma \<open>InstanceSet_quiet\<close>.)\<close>

theorem finalizer_before_oxide:
  assumes lib: "lib_ok (e_lib E)" and served: "serves_all E req (world s)"
    and c: "c \<in> snd ` set (controllers P E fl)"
    and get: "lookup E (ct_For c) req (world s) = Some ko"
    and active: "om_DeletionTimestamp (meta_of ko) = None"
    and missing: "finalizerName \<notin> set (om_Finalizers (meta_of ko))"
  shows "ensures (ct_Reconcile c req s) s (\<lambda>r tr.
     preceded (\<lambda>e. e = Kube (KUpdate (with_finalizer ko)) None) is_oxide_call tr)"
proof -
  have set: "ensures (InstanceSetReconciler_Reconcile E req s) s (\<lambda>r tr. preceded B is_oxide_call tr)" for B
    by (rule ensures_weaken [OF InstanceSet_quiet]) (rule preceded_no_A)
  show ?thesis
    by (rule controllers_cases [OF c]; use get active missing served in \<open>simp only: serves_all_def\<close>)
      (auto simp: lookup_simps intro!: set quiet_until_saved [OF lib]
        connection_finalizer_first project_finalizer_first disk_finalizer_first vpc_finalizer_first
        subnet_finalizer_first snapshot_finalizer_first image_finalizer_first [OF lib] instance_finalizer_first)
qed

lemma env0_serves: "serves_all (env0\<lparr>e_vpc := ops\<rparr>) key w"
  by (simp add: serves_all_def serves_admitted_def serves_instances_def env0_def ops0_def)

lemma vpc_controller_in: "VpcReconciler_SetupWithManager P E \<in> snd ` set (controllers P E fl)"
  by (simp add: controllers_def)

theorem finalizer_before_oxide_witness:
  "ensures (VpcReconciler_Reconcile (env0\<lparr>e_vpc := holding new_vpc\<rparr>) key0 sys0) sys0 (\<lambda>r tr.
     preceded (\<lambda>e. e = Kube (KUpdate (with_finalizer (VpcObj new_vpc))) None) is_oxide_call tr)"
  using finalizer_before_oxide [OF _ env0_serves vpc_controller_in [of predicates0 _ default_flags],
      where req = key0 and s = sys0 and ko = "VpcObj new_vpc"]
  by (simp add: lookup_simps lib0_ok new_vpc_def)

text \<open>C5: the deletion of every kind of resource. A reconcile of an object that is being deleted
  returns and makes nothing in Oxide. It updates the object, which is what drops the finalizer, only
  after Oxide has confirmed in this very reconcile that everything behind the object is gone: the
  resource, the boot disk of an Instance if the operator made it, and for an Image that was imported
  from a URL the temporary snapshot and the temporary disk of the import. If the object is protected,
  or is an InstanceSet or an OxideConnection, Oxide is not called at all.\<close>

theorem nothing_left_behind:
  assumes lib: "lib_ok (e_lib E)" and served: "serves_all E req (world s)"
    and c: "c \<in> snd ` set (controllers P E fl)"
    and get: "lookup E (ct_For c) req (world s) = Some ko"
    and deleted: "om_DeletionTimestamp (meta_of ko) \<noteq> None"
  shows "ensures (ct_Reconcile c req s) s (\<lambda>r tr. deletion_protocol ko tr)"
proof (rule ensuresI [OF controllers_run [OF lib served c]])
  have set: "adds (InstanceSetReconciler_Reconcile E req s) s (\<lambda>r tr. deletion_protocol (SetObj x) tr)" for x
    by (rule deletion_quiet [OF ensures_adds [OF InstanceSet_quiet]]) simp
  have conn: "adds (ConnectionReconciler_Reconcile E req s) s (\<lambda>r tr. deletion_protocol (ConnObj x) tr)"
    if "fst (k_get (e_conn E) req (world s)) = Inr x" "om_DeletionTimestamp (o_meta x) \<noteq> None" for x
    by (rule deletion_quiet [OF connection_deletion_quiet [OF that]]) simp
  show "adds (ct_Reconcile c req s) s (\<lambda>r tr. deletion_protocol ko tr)"
    by (rule controllers_cases [OF c]; use get deleted served in \<open>simp only: serves_all_def\<close>)
      (auto simp: lookup_simps simp del: not_None_eq intro!: set conn deletions
        deletion_rules [OF project_ctl.reconcile_delete_protocol] deletion_rules [OF vpc_ctl.reconcile_delete_protocol]
        deletion_rules [OF subnet_ctl.reconcile_delete_protocol] deletion_rules [OF disk_ctl.reconcile_delete_protocol]
        deletion_rules [OF snapshot_ctl.reconcile_delete_protocol])
qed

definition deleted_instance :: instance_obj where
  "deleted_instance = new_instance\<lparr>o_meta := deleting\<rparr>"

theorem nothing_left_behind_witness:
  "ensures (InstanceReconciler_Reconcile (env0\<lparr>e_instance := holding deleted_instance\<rparr>) key0 sys0) sys0 (\<lambda>r tr.
     list_all (\<lambda>e. \<not> is_oxide_create e) tr \<and> preceded (inst_gone deleted_instance) is_kube_update tr
     \<and> preceded (boot_disk_gone deleted_instance) is_kube_update tr)"
proof -
  let ?E = "env0\<lparr>e_instance := holding deleted_instance\<rparr> :: (nat, unit) env"
  have c: "InstanceReconciler_SetupWithManager predicates0 ?E (instanceWatcher default_flags)
      \<in> snd ` set (controllers predicates0 ?E default_flags)"
    by (simp add: controllers_def)
  have served: "serves_all ?E key0 (world sys0)"
    by (simp add: serves_all_def serves_admitted_def serves_instances_def env0_def ops0_def holding_def instance_admitted_def
        boot_disk_admitted_def deleted_instance_def new_instance_def)
  show ?thesis
    by (rule ensures_weaken [OF nothing_left_behind [OF _ served c, where ko = "InstanceObj deleted_instance",
            simplified SetupWithManager_defs controller.simps]])
      (simp_all add: lookup_simps deletion_protocol_def lib0_ok deleted_instance_def new_instance_def resource0_def
        owns_boot_disk_def del: not_None_eq)
qed

text \<open>C38: the opt-out is respected by every controller. A resource with the annotation
  \<^verbatim>\<open>oxide.100vms.com/reconcile-mode: Disable\<close> is read and nothing else happens, even when it is
  being deleted: no call, no event, no error, no requeue.\<close>

theorem opt_out_respected:
  assumes "c \<in> snd ` set (controllers P E fl)"
    and "lookup E (ct_For c) req (world s) = Some ko"
    and "om_Annotations (meta_of ko) ReconcileModeAnnotation = Some ReconcileModeDisable"
  shows "\<exists>w. ct_Reconcile c req s = Some ((no_requeue, None), logged s w (Kube (KGet (ct_For c) req) None))"
proof -
  have "reconcileDisabled (meta_of ko)"
    using assms(3) by (simp add: reconcileDisabled_def map_get_def)
  then show ?thesis
    by (rule_tac controllers_cases [OF assms(1)]; use assms(2) in \<open>simp only:\<close>)
      (auto simp: lookup_simps disabled_simps)
qed

definition opted_out :: vpc where
  "opted_out = new_vpc\<lparr>o_meta := deleting\<lparr>om_Annotations := [ReconcileModeAnnotation \<mapsto> ReconcileModeDisable]\<rparr>\<rparr>"

theorem opt_out_respected_witness:
  "\<exists>w. VpcReconciler_Reconcile (env0\<lparr>e_vpc := holding opted_out\<rparr>) key0 sys0
     = Some ((no_requeue, None), logged sys0 w (Kube (KGet VpcKind key0) None))"
  using opt_out_respected [OF vpc_controller_in [of predicates0 "env0\<lparr>e_vpc := holding opted_out\<rparr>" default_flags],
      where req = key0 and s = sys0 and ko = "VpcObj opted_out"]
  by (simp add: lookup_simps opted_out_def)

text \<open>C11: every controller tells the truth about a resource that it reconciles. When the
  resource has its finalizer (an InstanceSet needs none), is not being deleted and not opted out, the
  operations of its controller run on it, and the last thing the reconcile does is patch the status of
  that very resource with the condition that belongs to their outcome. It is marked Ready exactly if
  they succeeded, and then with its own generation as the observed one (the status of an OxideConnection
  records none). Once the patch is acknowledged, a Ready resource is looked at again after the resync
  period; one with a failure in the outcome is given up with a terminal error, which is not retried until
  the object changes; one in progress is looked at again after the progress period; and any other error
  is returned, to be retried with backoff. The patch does not wake the controller that made it.\<close>

theorem status_tells_outcome:
  assumes lib: "lib_ok (e_lib E)" and pred: "predicates_ok P" and served: "serves_all E req (world s)"
    and c: "c \<in> snd ` set (controllers P E fl)"
    and get: "lookup E (ct_For c) req (world s) = Some ko"
    and active: "om_Annotations (meta_of ko) ReconcileModeAnnotation \<noteq> Some ReconcileModeDisable"
      "om_DeletionTimestamp (meta_of ko) = None"
    and fin: "finalizerName \<in> set (om_Finalizers (meta_of ko)) \<or> ct_For c = InstanceSetKind"
  shows "ensures (ct_Reconcile c req s) s (\<lambda>r tr. \<exists>oerr. ops_end E req s ko oerr
     \<and> (\<exists>ko'. status_published (e_lib E) oerr ko ko' r tr \<and> \<not> ct_Predicate c (meta_of ko) (meta_of ko')))"
proof -
  have act: "\<not> reconcileDisabled (meta_of ko)"
    using active(1) by (auto simp: reconcileDisabled_def map_get_def ReconcileModeDisable_def split: option.splits)
  have quiet: "\<not> changed P (meta_of ko) (meta_of ko')" if "status_published l oerr ko ko' r tr"
    for l oerr ko' r and tr :: "'a effect list"
    using that by (auto simp: changed_iff [OF pred] status_published_def)
  have pred: "ct_Predicate c = changed P"
    by (rule controllers_cases [OF c]) (simp_all add: SetupWithManager_defs)
  have "adds (ct_Reconcile c req s) s (\<lambda>r tr. \<exists>oerr. ops_end E req s ko oerr \<and> (\<exists>ko'. status_published (e_lib E) oerr ko ko' r tr))"
    by (rule controllers_cases [OF c]; use get act active(2) fin in \<open>simp only:\<close>)
      (auto simp: lookup_simps simp del: ops_end.simps intro!: published_rules [OF lib])
  from ensuresI [OF controllers_run [OF lib served c] this] show ?thesis
    by (rule ensures_weaken) (auto simp: pred dest: quiet)
qed

definition settled_vpc :: vpc where
  "settled_vpc = new_vpc\<lparr>o_meta := meta0\<lparr>om_Finalizers := [finalizerName]\<rparr>\<rparr>"

theorem status_tells_outcome_witness:
  "ensures (VpcReconciler_Reconcile (env0\<lparr>e_vpc := holding settled_vpc\<rparr>) key0 sys0) sys0 (\<lambda>r tr.
     \<exists>oerr. ops_end (env0\<lparr>e_vpc := holding settled_vpc\<rparr>) key0 sys0 (VpcObj settled_vpc) oerr
       \<and> (\<exists>ko'. status_published lib0 oerr (VpcObj settled_vpc) ko' r tr
            \<and> \<not> changed predicates0 (o_meta settled_vpc) (meta_of ko')))"
  using status_tells_outcome [OF _ predicates0_ok env0_serves vpc_controller_in [of predicates0 _ default_flags],
      where req = key0 and s = sys0 and ko = "VpcObj settled_vpc"]
  by (simp add: lookup_simps lib0_ok settled_vpc_def meta0_def del: ops_end.simps)

text \<open>C23: \<^verbatim>\<open>setReady\<close> decides once for all controllers. For every error a reconcile can end
  with, however it is wrapped or joined: the resource is Ready exactly if there is none; a failure
  anywhere in it is terminal, even beside progress, so it is not retried until the object changes;
  progress without a failure is no error and is checked again soon; and an error is returned exactly
  if one Warning event was emitted, with the message of the condition.\<close>

theorem setReady_decides:
  assumes lib: "lib_ok (e_lib E)"
  shows "ensures (setReady E key conds err s) s (\<lambda>((res, rerr), cs) tr.
     IsStatusConditionTrue (e_lib E) cs typeReady = (err = None)
     \<and> rerr = (if err_is is_failed err then Some (Terminal (ShortError (the err)))
              else if err_is is_progressing err then None else map_option ShortError err)
     \<and> RequeueAfter res = (if err = None then resyncPeriod
              else if err_is is_progressing err \<and> \<not> err_is is_failed err then progressPeriod else 0)
     \<and> tr = map (\<lambda>e. Event \<lparr>ev_Regarding = key, ev_Type = ''Warning'',
              ev_Reason = (if err_is is_failed err then ''Failed'' else ''Error''),
              ev_Action = ''Reconcile'', ev_Note = Error (ShortError e)\<rparr>)
            (if rerr = None then [] else [the err]))"
proof -
  have ready: "IsStatusConditionTrue (e_lib E)
      (SetStatusCondition (e_lib E) conds (fst (setReady_outcome err))) typeReady = (err = None)"
    using lib_okD(1) [OF lib, of conds "fst (setReady_outcome err)"] setReady_outcome_type [of err]
      setReady_outcome_status [of err] by simp
  show ?thesis
    using ready lib_okD(6) [OF lib]
    by (cases err) (auto simp: setReady_def setReady_outcome_def ready_condition_def ensures_def warn_def
        no_requeue_def Let_def split: if_splits)
qed

theorem setReady_decides_witness:
  "ensures (setReady env0 key0 [] (Some (Joined [Failed (Plain ''bad sha''), Progressing ''disk is finalizing''])) sys0) sys0
     (\<lambda>((res, rerr), cs) tr. rerr = Some (Terminal (Joined [Failed (Plain ''bad sha''), Progressing ''disk is finalizing'']))
       \<and> RequeueAfter res = 0)"
  by (rule ensures_weaken [OF setReady_decides [OF env0_lib_ok, where key = key0 and conds = "[]" and s = sys0
        and err = "Some (Joined [Failed (Plain ''bad sha''), Progressing ''disk is finalizing''])"]])
    (auto simp: ShortError_no_http)

section \<open>What is written to the API server\<close>

fun kind_of :: "kobject \<Rightarrow> kind" where
  "kind_of (ProjectObj x) = ProjectKind"
| "kind_of (VpcObj x) = VpcKind"
| "kind_of (SubnetObj x) = VpcSubnetKind"
| "kind_of (DiskObj x) = DiskKind"
| "kind_of (SnapshotObj x) = SnapshotKind"
| "kind_of (ImageObj x) = ImageKind"
| "kind_of (InstanceObj x) = InstanceKind"
| "kind_of (SetObj x) = InstanceSetKind"
| "kind_of (ConnObj x) = OxideConnectionKind"

definition same_object :: "kobject \<Rightarrow> kobject \<Rightarrow> bool" where
  "same_object ko' ko \<longleftrightarrow> kind_of ko' = kind_of ko
     \<and> om_Namespace (meta_of ko') = om_Namespace (meta_of ko) \<and> om_Name (meta_of ko') = om_Name (meta_of ko)"

text \<open>The object as it was read, but for the operator's own finalizer.\<close>

definition only_finalizer :: "kobject \<Rightarrow> kobject \<Rightarrow> bool" where
  "only_finalizer ko' ko \<longleftrightarrow>
     (\<exists>fs. ko' = with_meta ((meta_of ko)\<lparr>om_Finalizers := fs\<rparr>) ko
        \<and> removeAll finalizerName fs = removeAll finalizerName (om_Finalizers (meta_of ko)))"

text \<open>The children of a set: those it makes are its seeds, those it deletes are not to be kept.\<close>

fun child_made :: "kobject \<Rightarrow> object_key \<Rightarrow> bool" where
  "child_made (SetObj iset) key =
     (\<exists>i. 0 \<le> i \<and> i < iss_Replicas (o_spec iset) \<and> key = object_key_of (child_seed iset i))"
| "child_made _ _ = False"

fun child_deleted :: "kobject \<Rightarrow> kobject \<Rightarrow> bool" where
  "child_deleted (SetObj iset) (InstanceObj child) = (\<not> keepChild iset child)"
| "child_deleted _ _ = False"

fun modest :: "kobject \<Rightarrow> 'c effect \<Rightarrow> bool" where
  "modest ko (Kube (KUpdate ko') u) = only_finalizer ko' ko"
| "modest ko (Kube (KPatchStatus ko') u) = same_object ko' ko"
| "modest ko (Kube (KCreateOrPatch key) u) = child_made ko key"
| "modest ko (Kube (KDelete ko') u) = child_deleted ko ko'"
| "modest _ _ = True"

lemma modest_no_write: "\<not> is_kube_write e \<Longrightarrow> modest ko e"
  by (cases e rule: is_kube_write.cases) auto

lemma adds_modest:
  assumes "adds m s (\<lambda>r tr. list_all (own_write l mk obj) tr)" and lib: "lib_ok l"
    and mk: "\<And>x. meta_of (mk x) = o_meta x" "\<And>m x. with_meta m (mk x) = mk (x\<lparr>o_meta := m\<rparr>)"
      "\<And>x y. kind_of (mk x) = kind_of (mk y)"
  shows "adds m s (\<lambda>r tr. list_all (modest (mk obj)) tr)"
proof -
  have fin: "only_finalizer (mk (obj\<lparr>o_meta := (o_meta obj)\<lparr>om_Finalizers := fs\<rparr>\<rparr>)) (mk obj)"
    if "removeAll finalizerName fs = removeAll finalizerName (om_Finalizers (o_meta obj))" for fs
    unfolding only_finalizer_def using that by (intro exI [of _ fs]) (simp add: mk)
  have "modest (mk obj) e" if "own_write l mk obj e" for e
  proof (cases "is_kube_write e")
    case False
    then show ?thesis by (rule modest_no_write)
  next
    case True
    with that consider u where "e = Kube (KUpdate (mk (obj\<lparr>o_meta := fst (AddFinalizer l (o_meta obj) finalizerName)\<rparr>))) u"
      | u where "e = Kube (KUpdate (mk (obj\<lparr>o_meta := RemoveFinalizer l (o_meta obj) finalizerName\<rparr>))) u"
      | obj' u where "object_key_of obj' = object_key_of obj" "e = Kube (KPatchStatus (mk obj')) u"
      unfolding own_write_def only_releases_def by blast
    then show ?thesis
    proof cases
      case 1
      then show ?thesis
        using fin [of "om_Finalizers (o_meta obj)"] fin [of "om_Finalizers (o_meta obj) @ [finalizerName]"]
        by (simp add: lib_okD(3) [OF lib])
    next
      case 2
      then show ?thesis by (simp add: lib_okD(4) [OF lib] fin removeAll_filter_not_eq eq_commute)
    next
      case 3
      then show ?thesis using mk(3) [of obj' obj] by (simp add: same_object_def mk(1) object_key_of_def)
    qed
  qed
  then show ?thesis
    by (intro adds_weaken [OF assms(1)]) (auto simp: list_all_iff)
qed

lemma adds_set_modest:
  "adds m s (\<lambda>r tr. list_all (set_write iset) tr) \<Longrightarrow> adds m s (\<lambda>r tr. list_all (modest (SetObj iset)) tr)"
proof (erule adds_weaken)
  have "modest (SetObj iset) e" if "set_write iset e" for e :: "'b effect"
    using that modest_no_write [of e "SetObj iset"]
    by (auto simp: set_write_def set_effect_def child_patch_def same_object_def object_key_of_def)
  then show "list_all (set_write iset) tr \<Longrightarrow> list_all (modest (SetObj iset)) tr" for tr :: "'b effect list"
    by (auto simp: list_all_iff)
qed

lemmas modest_rules = adds_set_modest [OF InstanceSet_writes]
  adds_modest [OF conn_ctl.reconcile_own_writes] adds_modest [OF project_ctl.reconcile_own_writes]
  adds_modest [OF inst_ctl.reconcile_own_writes] adds_modest [OF disk_ctl.reconcile_own_writes]
  adds_modest [OF vpc_ctl.reconcile_own_writes] adds_modest [OF subnet_ctl.reconcile_own_writes]
  adds_modest [OF snapshot_ctl.reconcile_own_writes] adds_modest [OF img_ctl.reconcile_own_writes]

text \<open>The API server does not rename an object that is updated.\<close>

definition updates_keep_keys :: "('c, 'w) env \<Rightarrow> bool" where
  "updates_keep_keys E \<longleftrightarrow>
     keeps_key (e_conn E) \<and> keeps_key (e_project E) \<and> keeps_key (e_instance E) \<and> keeps_key (e_disk E) \<and> keeps_key (e_vpc E)
     \<and> keeps_key (e_subnet E) \<and> keeps_key (e_snapshot E) \<and> keeps_key (e_image E)"

text \<open>C7: a controller writes nothing but the object that it reconciles. In every reconcile,
  whatever the API server and Oxide answer, an update is of the object that was read, with nothing
  changed but whether the operator's finalizer is there (other finalizers, labels, annotations and
  the spec stay as they were); a status patch is of that object by kind, namespace and name; and only
  an InstanceSet makes or deletes anything, namely its own replicas and Instances that are not among them.\<close>

theorem writes_only_its_own:
  assumes lib: "lib_ok (e_lib E)" and served: "serves_all E req (world s)" and key: "updates_keep_keys E"
    and c: "c \<in> snd ` set (controllers P E fl)"
    and get: "lookup E (ct_For c) req (world s) = Some ko"
  shows "ensures (ct_Reconcile c req s) s (\<lambda>r tr. list_all (modest ko) tr)"
proof (rule ensuresI [OF controllers_run [OF lib served c]])
  show "adds (ct_Reconcile c req s) s (\<lambda>r tr. list_all (modest ko) tr)"
    by (rule controllers_cases [OF c]; use get key in \<open>simp only: updates_keep_keys_def\<close>)
      (auto simp: lookup_simps lib intro!: modest_rules)
qed

theorem writes_only_its_own_witness:
  "ensures (VpcReconciler_Reconcile (env0\<lparr>e_vpc := holding new_vpc\<rparr>) key0 sys0) sys0 (\<lambda>r tr.
     list_all (modest (VpcObj new_vpc)) tr)"
  using writes_only_its_own [OF _ env0_serves _ vpc_controller_in [of predicates0 _ default_flags],
      where req = key0 and s = sys0 and ko = "VpcObj new_vpc"]
  by (simp add: lookup_simps lib0_ok updates_keep_keys_def keeps_key_def env0_def ops0_def holding_def)

end
